(* ===== verification/Prelude.thy ===== *)
theory Prelude
  imports Main "HOL-Library.Word"
begin

text \<open>
  What every component of the development shares: machine integers and byte strings,
  Rust's \<open>Result\<close> with panics as a value of their own, computations that thread a state and
  leave early on an error (the \<open>?\<close> operator), the standard library's UTF-8 test and
  string slicing, and the two generic contracts (an encoder with its parser, a step that
  keeps an invariant) that several components interpret.
\<close>

section \<open>Machine integers, bytes and strings\<close>

type_synonym u8 = "8 word"
type_synonym u16 = "16 word"
type_synonym u32 = "32 word"
type_synonym i32 = "32 word"
type_synonym u64 = "64 word"
type_synonym i64 = "64 word"
type_synonym bytes = "u8 list"

text \<open>
  An error of a third-party crate is opaque to the program: the only thing the code ever
  does with one is to print it, so it is represented by the text its \<open>Display\<close> prints.
\<close>

type_synonym ext_error = string

named_theorems rust_simps \<open>evaluation rules of the result and computation combinators\<close>

section \<open>Rust results\<close>

text \<open>
  \<open>Ok\<close> and \<open>Err\<close> are the constructors of Rust's \<open>Result\<close>; \<open>Panic\<close> is a thread that
  unwound (a failed \<open>unwrap\<close>, an out-of-range slice, an overflow with checks on).
\<close>

datatype ('a, 'e) result = Ok 'a | Err 'e | Panic

fun is_panic :: "('a, 'e) result \<Rightarrow> bool" where
  "is_panic Panic = True"
| "is_panic _ = False"

fun map_err :: "('e \<Rightarrow> 'f) \<Rightarrow> ('a, 'e) result \<Rightarrow> ('a, 'f) result" where
  "map_err f (Ok a) = Ok a"
| "map_err f (Err e) = Err (f e)"
| "map_err f Panic = Panic"

fun unwrap :: "('a, 'e) result \<Rightarrow> ('a, 'f) result" where
  "unwrap (Ok a) = Ok a"
| "unwrap _ = Panic"

fun ok_or :: "'e \<Rightarrow> 'a option \<Rightarrow> ('a, 'e) result" where
  "ok_or e (Some a) = Ok a"
| "ok_or e None = Err e"

fun unwrap_opt :: "'a option \<Rightarrow> ('a, 'e) result" where
  "unwrap_opt (Some a) = Ok a"
| "unwrap_opt None = Panic"

fun from_sum :: "'e + 'a \<Rightarrow> ('a, 'e) result" where
  "from_sum (Inr a) = Ok a"
| "from_sum (Inl e) = Err e"

fun and_then :: "('a, 'e) result \<Rightarrow> ('a \<Rightarrow> ('b, 'e) result) \<Rightarrow> ('b, 'e) result" where
  "and_then (Ok a) f = f a"
| "and_then (Err e) f = Err e"
| "and_then Panic f = Panic"

lemma and_then_eq_Ok: "and_then r f = Ok b \<longleftrightarrow> (\<exists>a. r = Ok a \<and> f a = Ok b)"
  by (cases r) auto

lemma and_then_eq_Err: "and_then r f = Err e \<longleftrightarrow> r = Err e \<or> (\<exists>a. r = Ok a \<and> f a = Err e)"
  by (cases r) auto

lemma and_then_eq_Panic: "and_then r f = Panic \<longleftrightarrow> r = Panic \<or> (\<exists>a. r = Ok a \<and> f a = Panic)"
  by (cases r) auto

lemmas result_eqs = and_then_eq_Ok and_then_eq_Err and_then_eq_Panic

lemma map_err_eq_Ok [simp]: "map_err f r = Ok a \<longleftrightarrow> r = Ok a"
  by (cases r) auto

lemma map_err_eq_Err [simp]: "map_err f r = Err e \<longleftrightarrow> (\<exists>d. r = Err d \<and> e = f d)"
  by (cases r) auto

lemma map_err_eq_Panic [simp]: "map_err f r = Panic \<longleftrightarrow> r = Panic"
  by (cases r) auto

lemma unwrap_eq_Ok [simp]: "unwrap r = Ok a \<longleftrightarrow> r = Ok a"
  by (cases r) auto

lemma unwrap_neq_Err [simp]: "unwrap r \<noteq> Err e"
  by (cases r) auto

lemma unwrap_eq_Panic [simp]: "unwrap r = Panic \<longleftrightarrow> (\<forall>a. r \<noteq> Ok a)"
  by (cases r) auto

lemma ok_or_eq_Ok [simp]: "ok_or e m = Ok a \<longleftrightarrow> m = Some a"
  by (cases m) auto

lemma ok_or_eq_Err [simp]: "ok_or e m = Err d \<longleftrightarrow> m = None \<and> d = e"
  by (cases m) auto

lemma ok_or_neq_Panic [simp]: "ok_or e m \<noteq> Panic"
  by (cases m) auto

lemma unwrap_opt_eq_Ok [simp]: "unwrap_opt m = Ok a \<longleftrightarrow> m = Some a"
  by (cases m) auto

lemma unwrap_opt_neq_Err [simp]: "unwrap_opt m \<noteq> Err d"
  by (cases m) auto

lemma unwrap_opt_eq_Panic [simp]: "unwrap_opt m = Panic \<longleftrightarrow> m = None"
  by (cases m) auto

lemma not_isl_iff: "\<not> isl x \<longleftrightarrow> (\<exists>a. x = Inr a)"
  by (cases x) auto

lemma from_sum_eq_Ok [simp]: "from_sum x = Ok a \<longleftrightarrow> x = Inr a"
  by (cases x) auto

lemma from_sum_eq_Err [simp]: "from_sum x = Err e \<longleftrightarrow> x = Inl e"
  by (cases x) auto

lemma from_sum_neq_Panic [simp]: "from_sum x \<noteq> Panic"
  by (cases x) auto

section \<open>Computations over a state\<close>

text \<open>
  A function of the program that performs effects takes the state it acts on and returns
  its result with the new state. \<open>try_then m f\<close> is \<open>let x = m?; f(x)\<close>: an error or a panic of
  \<open>m\<close> ends the function at once, with the state \<open>m\<close> left behind.
\<close>

type_synonym ('s, 'a, 'e) io = "'s \<Rightarrow> ('a, 'e) result \<times> 's"

abbreviation lift :: "('a, 'e) result \<Rightarrow> ('s, 'a, 'e) io" where
  "lift \<equiv> Pair"

definition try_then :: "('s, 'a, 'e) io \<Rightarrow> ('a \<Rightarrow> ('s, 'b, 'e) io) \<Rightarrow> ('s, 'b, 'e) io" where
  "try_then m f = (\<lambda>s. case m s of
      (Ok a, t) \<Rightarrow> f a t
    | (Err e, t) \<Rightarrow> (Err e, t)
    | (Panic, t) \<Rightarrow> (Panic, t))"

definition map_err_io :: "('e \<Rightarrow> 'f) \<Rightarrow> ('s, 'a, 'e) io \<Rightarrow> ('s, 'a, 'f) io" where
  "map_err_io f m = (\<lambda>s. case m s of (r, t) \<Rightarrow> (map_err f r, t))"

definition from_sum_io :: "('s \<Rightarrow> ('e + 'a) \<times> 's) \<Rightarrow> ('s, 'a, 'e) io" where
  "from_sum_io m = (\<lambda>s. case m s of (r, t) \<Rightarrow> (from_sum r, t))"

text \<open>
  \<open>match m\<close> on its result: the error becomes a value that the caller looks at; a panic still
  unwinds.
\<close>

definition attempt :: "('s, 'a, 'e) io \<Rightarrow> ('s, 'e + 'a, 'f) io" where
  "attempt m = (\<lambda>s. case m s of
      (Ok a, t) \<Rightarrow> (Ok (Inr a), t)
    | (Err e, t) \<Rightarrow> (Ok (Inl e), t)
    | (Panic, t) \<Rightarrow> (Panic, t))"

lemma attempt_eq_Ok: "attempt m s = (Ok r, t) \<longleftrightarrow>
    (\<exists>a. r = Inr a \<and> m s = (Ok a, t)) \<or> (\<exists>e. r = Inl e \<and> m s = (Err e, t))"
  by (auto simp: attempt_def split: prod.splits result.splits)

lemma attempt_neq_Err [simp]: "attempt m s \<noteq> (Err e, t)"
  by (auto simp: attempt_def split: prod.splits result.splits)

lemma attempt_eq_Panic [simp]: "attempt m s = (Panic, t) \<longleftrightarrow> m s = (Panic, t)"
  by (auto simp: attempt_def split: prod.splits result.splits)

lemma attempt_run [rust_simps]:
  "m s = (Ok a, t) \<Longrightarrow> attempt m s = (Ok (Inr a), t)"
  "m s = (Err e, t) \<Longrightarrow> attempt m s = (Ok (Inl e), t)"
  by (simp_all add: attempt_def)

lemma try_then_lift_Ok [simp, rust_simps]: "try_then (lift (Ok a)) f = f a"
  by (simp add: try_then_def fun_eq_iff)

lemma try_then_lift_Err [simp, rust_simps]: "try_then (lift (Err e)) f = lift (Err e)"
  by (simp add: try_then_def fun_eq_iff)

lemma try_then_lift_Panic [simp, rust_simps]: "try_then (lift Panic) f = lift Panic"
  by (simp add: try_then_def fun_eq_iff)

lemma try_then_lift_and_then:
  "try_then (lift (and_then r f)) g = try_then (lift r) (\<lambda>a. try_then (lift (f a)) g)"
  by (cases r) simp_all

lemma lift_and_then: "lift (and_then r f) = try_then (lift r) (\<lambda>a. lift (f a))"
  by (cases r) simp_all

lemma try_then_run [rust_simps]:
  "m s = (Ok a, t) \<Longrightarrow> try_then m f s = f a t"
  "m s = (Err e, t) \<Longrightarrow> try_then m f s = (Err e, t)"
  "m s = (Panic, t) \<Longrightarrow> try_then m f s = (Panic, t)"
  by (simp_all add: try_then_def)

lemma try_then_eq_Ok:
  "try_then m f s = (Ok b, u) \<longleftrightarrow> (\<exists>a t. m s = (Ok a, t) \<and> f a t = (Ok b, u))"
  by (auto simp: try_then_def split: prod.splits result.splits)

lemma try_then_eq_Err:
  "try_then m f s = (Err e, u) \<longleftrightarrow>
     m s = (Err e, u) \<or> (\<exists>a t. m s = (Ok a, t) \<and> f a t = (Err e, u))"
  by (auto simp: try_then_def split: prod.splits result.splits)

lemma try_then_eq_Panic:
  "try_then m f s = (Panic, u) \<longleftrightarrow>
     m s = (Panic, u) \<or> (\<exists>a t. m s = (Ok a, t) \<and> f a t = (Panic, u))"
  by (auto simp: try_then_def split: prod.splits result.splits)

lemma map_err_io_eq_Ok [simp]: "map_err_io f m s = (Ok a, t) \<longleftrightarrow> m s = (Ok a, t)"
  by (cases "m s") (auto simp: map_err_io_def)

lemma map_err_io_eq_Err [simp]:
  "map_err_io f m s = (Err e, t) \<longleftrightarrow> (\<exists>d. m s = (Err d, t) \<and> e = f d)"
  by (cases "m s") (auto simp: map_err_io_def)

lemma map_err_io_eq_Panic [simp]: "map_err_io f m s = (Panic, t) \<longleftrightarrow> m s = (Panic, t)"
  by (cases "m s") (auto simp: map_err_io_def)

lemma from_sum_io_eq_Ok [simp]: "from_sum_io m s = (Ok a, t) \<longleftrightarrow> m s = (Inr a, t)"
  by (cases "m s") (auto simp: from_sum_io_def)

lemma from_sum_io_eq_Err [simp]: "from_sum_io m s = (Err e, t) \<longleftrightarrow> m s = (Inl e, t)"
  by (cases "m s") (auto simp: from_sum_io_def)

lemma from_sum_io_neq_Panic [simp]: "from_sum_io m s \<noteq> (Panic, t)"
  by (cases "m s") (auto simp: from_sum_io_def)

lemmas io_eqs = try_then_eq_Ok try_then_eq_Err try_then_eq_Panic

text \<open>
  \<open>keeps P m\<close>: however \<open>m\<close> ends, with a value, an error or a panic, \<open>P\<close> still holds of the
  state. The rules follow the shape of a handler's body.
\<close>

definition keeps :: "('s \<Rightarrow> bool) \<Rightarrow> ('s, 'a, 'e) io \<Rightarrow> bool" where
  "keeps P m \<longleftrightarrow> (\<forall>s r t. P s \<longrightarrow> m s = (r, t) \<longrightarrow> P t)"

named_theorems keeps_intros \<open>rules for preservation by a handler's body\<close>

lemma keepsI: "(\<And>s r t. P s \<Longrightarrow> m s = (r, t) \<Longrightarrow> P t) \<Longrightarrow> keeps P m"
  by (simp add: keeps_def)

lemma keepsD: "keeps P m \<Longrightarrow> P s \<Longrightarrow> m s = (r, t) \<Longrightarrow> P t"
  unfolding keeps_def by blast

lemma keeps_lift [keeps_intros]: "keeps P (lift r)"
  by (simp add: keeps_def)

lemma keeps_lift_then [keeps_intros]:
  "(\<And>a. r = Ok a \<Longrightarrow> keeps P (f a)) \<Longrightarrow> keeps P (try_then (lift r) f)"
  by (cases r) (simp_all add: keeps_lift)

lemma keeps_try_then:
  assumes "keeps P m" and "\<And>a. keeps P (f a)"
  shows "keeps P (try_then m f)"
proof (rule keepsI)
  fix s r t
  assume P: "P s" and run: "try_then m f s = (r, t)"
  obtain q u where m: "m s = (q, u)" by fastforce
  have u: "P u" using keepsD [OF assms(1) P m] .
  show "P t"
  proof (cases q)
    case (Ok a)
    with m run have "f a u = (r, t)" by (simp add: try_then_def)
    then show ?thesis by (rule keepsD [OF assms(2) u])
  qed (use m run u in \<open>auto simp: try_then_def\<close>)
qed

lemma keeps_map_err_io [keeps_intros]: "keeps P m \<Longrightarrow> keeps P (map_err_io f m)"
  by (auto simp: keeps_def map_err_io_def split: prod.splits)

lemma keeps_attempt [keeps_intros]: "keeps P m \<Longrightarrow> keeps P (attempt m)"
  by (auto simp: keeps_def attempt_def split: prod.splits result.splits)

lemma keeps_case_sum [keeps_intros]:
  "(\<And>e. x = Inl e \<Longrightarrow> keeps P (f e)) \<Longrightarrow> (\<And>a. x = Inr a \<Longrightarrow> keeps P (g a)) \<Longrightarrow>
     keeps P (case x of Inl e \<Rightarrow> f e | Inr a \<Rightarrow> g a)"
  by (cases x) simp_all

lemma keeps_if [keeps_intros]:
  "(b \<Longrightarrow> keeps P m) \<Longrightarrow> (\<not> b \<Longrightarrow> keeps P n) \<Longrightarrow> keeps P (if b then m else n)"
  by simp

text \<open>\<open>calm m\<close>: from no state does \<open>m\<close> end in a panic.\<close>

definition calm :: "('s, 'a, 'e) io \<Rightarrow> bool" where
  "calm m \<longleftrightarrow> (\<forall>s t. m s \<noteq> (Panic, t))"

named_theorems calm_intros \<open>rules for the absence of panics in a handler's body\<close>

lemma calmD: "calm m \<Longrightarrow> m s \<noteq> (Panic, t)"
  by (simp add: calm_def)

lemma calm_lift [calm_intros]: "r \<noteq> Panic \<Longrightarrow> calm (lift r)"
  by (simp add: calm_def)

lemma calm_lift_then [calm_intros]:
  "r \<noteq> Panic \<Longrightarrow> (\<And>a. r = Ok a \<Longrightarrow> calm (f a)) \<Longrightarrow> calm (try_then (lift r) f)"
  by (cases r) (simp_all add: calm_lift)

lemma calm_try_then: "calm m \<Longrightarrow> (\<And>a. calm (f a)) \<Longrightarrow> calm (try_then m f)"
  by (auto simp: calm_def try_then_eq_Panic)

lemma calm_map_err_io [calm_intros]: "calm m \<Longrightarrow> calm (map_err_io f m)"
  by (simp add: calm_def)

lemma calm_from_sum_io [calm_intros]: "calm (from_sum_io m)"
  by (simp add: calm_def)

lemma calm_if [calm_intros]: "(b \<Longrightarrow> calm m) \<Longrightarrow> (\<not> b \<Longrightarrow> calm n) \<Longrightarrow> calm (if b then m else n)"
  by simp

section \<open>Integer arithmetic of the two build profiles\<close>

text \<open>
  Rust's \<open>+\<close> on machine integers panics on overflow in a debug build and wraps around in a
  release build. The first argument says whether overflow checks are on.
\<close>

definition add_i64 :: "bool \<Rightarrow> i64 \<Rightarrow> i64 \<Rightarrow> (i64, 'e) result" where
  "add_i64 checks a b =
     (if checks \<and> \<not> (- (2 ^ 63) \<le> sint a + sint b \<and> sint a + sint b < 2 ^ 63) then Panic
      else Ok (a + b))"

definition add_u8 :: "bool \<Rightarrow> u8 \<Rightarrow> u8 \<Rightarrow> (u8, 'e) result" where
  "add_u8 checks a b =
     (if checks \<and> 2 ^ 8 \<le> unat a + unat b then Panic else Ok (a + b))"

lemma add_i64_in_range:
  assumes "- (2 ^ 63) \<le> sint a + sint b" and "sint a + sint b < 2 ^ 63"
  shows "add_i64 checks a b = Ok (a + b)" and "sint (a + b) = sint a + sint b"
proof -
  show "add_i64 checks a b = Ok (a + b)"
    using assms by (simp add: add_i64_def)
  show "sint (a + b) = sint a + sint b"
    using assms by (simp add: sint_word_ariths signed_take_bit_int_eq_self)
qed

lemma sint_add_overflow:
  fixes a b :: i64
  assumes "2 ^ 63 \<le> sint a + sint b"
  shows "sint (a + b) = sint a + sint b - 2 ^ 64"
proof -
  have "sint a < 2 ^ 63" and "sint b < 2 ^ 63"
    using sint_lt [of a] sint_lt [of b] by simp_all
  then have "sint a + sint b + 2 ^ 63 < 2 * 2 ^ 64" by simp
  with assms have "(sint a + sint b + 2 ^ 63) mod 2 ^ 64 = sint a + sint b + 2 ^ 63 - 2 ^ 64"
    by (simp add: mod_pos_geq mod_pos_pos_trivial)
  then show ?thesis
    by (simp add: sint_word_ariths signed_take_bit_eq_take_bit_shift take_bit_eq_mod)
qed

lemma add_i64_release [simp]: "add_i64 False a b = Ok (a + b)"
  by (simp add: add_i64_def)

lemma add_i64_neq_Err [simp]: "add_i64 c a b \<noteq> Err e"
  by (simp add: add_i64_def)

section \<open>Strings as bytes\<close>

text \<open>
  A Rust string is a sequence of bytes that are valid UTF-8; its length and its slices
  count bytes. Here a \<open>string\<close> has one \<open>char\<close> per byte, and \<open>rust_str\<close> is the invariant
  of the type.
\<close>

definition byte_of :: "char \<Rightarrow> u8" where
  "byte_of c = word_of_nat (of_char c)"

definition char_of_byte :: "u8 \<Rightarrow> char" where
  "char_of_byte b = char_of (unat b)"

definition as_bytes :: "string \<Rightarrow> bytes" where
  "as_bytes s = map byte_of s"

lemma char_of_byte_of [simp]: "char_of_byte (byte_of c) = c"
proof -
  have "take_bit 8 (of_char c :: nat) = of_char c"
    by (rule take_bit_nat_eq_self) simp
  then show ?thesis
    by (simp add: byte_of_def char_of_byte_def unsigned_of_nat)
qed

lemma byte_of_char_of_byte [simp]: "byte_of (char_of_byte b) = b"
proof -
  have "unat b < 2 ^ LENGTH(8)" by (rule unsigned_less)
  then show ?thesis by (simp add: byte_of_def char_of_byte_def)
qed

lemma length_as_bytes [simp]: "length (as_bytes s) = length s"
  by (simp add: as_bytes_def)

lemma as_bytes_append [simp]: "as_bytes (s @ t) = as_bytes s @ as_bytes t"
  by (simp add: as_bytes_def)

lemma as_bytes_inj [simp]: "as_bytes s = as_bytes t \<longleftrightarrow> s = t"
  unfolding as_bytes_def by (metis char_of_byte_of inj_map_eq_map injI)

lemma map_char_of_as_bytes [simp]: "map char_of_byte (as_bytes s) = s"
  by (simp add: as_bytes_def map_idI)

definition is_continuation :: "u8 \<Rightarrow> bool" where
  "is_continuation b \<longleftrightarrow> 128 \<le> b \<and> b \<le> 191"

text \<open>The standard library's table of well-formed UTF-8 byte sequences.\<close>

fun utf8_valid :: "bytes \<Rightarrow> bool" where
  "utf8_valid [] = True"
| "utf8_valid (b # bs) =
    (if b < 128 then utf8_valid bs
     else if 194 \<le> b \<and> b \<le> 223 then
       (case bs of c # ds \<Rightarrow> is_continuation c \<and> utf8_valid ds | _ \<Rightarrow> False)
     else if 224 \<le> b \<and> b \<le> 239 then
       (case bs of c # d # ds \<Rightarrow>
          is_continuation c \<and> is_continuation d \<and>
          (b = 224 \<longrightarrow> 160 \<le> c) \<and> (b = 237 \<longrightarrow> c \<le> 159) \<and> utf8_valid ds
        | _ \<Rightarrow> False)
     else if 240 \<le> b \<and> b \<le> 244 then
       (case bs of c # d # e # ds \<Rightarrow>
          is_continuation c \<and> is_continuation d \<and> is_continuation e \<and>
          (b = 240 \<longrightarrow> 144 \<le> c) \<and> (b = 244 \<longrightarrow> c \<le> 143) \<and> utf8_valid ds
        | _ \<Rightarrow> False)
     else False)"

definition from_utf8 :: "bytes \<Rightarrow> string option" where
  "from_utf8 bs = (if utf8_valid bs then Some (map char_of_byte bs) else None)"

definition rust_str :: "string \<Rightarrow> bool" where
  "rust_str s \<longleftrightarrow> utf8_valid (as_bytes s)"

definition is_ascii :: "string \<Rightarrow> bool" where
  "is_ascii s \<longleftrightarrow> list_all (\<lambda>c. byte_of c < 128) s"

lemma from_utf8_as_bytes: "rust_str s \<Longrightarrow> from_utf8 (as_bytes s) = Some s"
  by (simp add: rust_str_def from_utf8_def)

lemma from_utf8_SomeD: "from_utf8 bs = Some s \<Longrightarrow> as_bytes s = bs \<and> rust_str s"
  by (auto simp: from_utf8_def rust_str_def as_bytes_def comp_def split: if_splits)

lemma utf8_valid_ascii: "list_all (\<lambda>b. b < 128) bs \<Longrightarrow> utf8_valid bs"
  by (induction bs) auto

lemma is_ascii_rust_str: "is_ascii s \<Longrightarrow> rust_str s"
  unfolding is_ascii_def rust_str_def as_bytes_def
  by (rule utf8_valid_ascii) (simp add: list_all_iff)

text \<open>
  A byte index is a character boundary when it is the end of the string or does not
  point at a continuation byte; slicing at another index, or past the end, panics.
\<close>

definition is_char_boundary :: "string \<Rightarrow> nat \<Rightarrow> bool" where
  "is_char_boundary s i \<longleftrightarrow>
     i = 0 \<or> i = length s \<or> (i < length s \<and> \<not> is_continuation (byte_of (s ! i)))"

definition str_from :: "string \<Rightarrow> nat \<Rightarrow> (string, 'e) result" where
  "str_from s i = (if is_char_boundary s i then Ok (drop i s) else Panic)"

definition str_upto :: "string \<Rightarrow> nat \<Rightarrow> (string, 'e) result" where
  "str_upto s i = (if is_char_boundary s i then Ok (take i s) else Panic)"

lemma is_char_boundary_ascii:
  assumes "is_ascii s" and "i \<le> length s"
  shows "is_char_boundary s i"
proof (cases "i = length s")
  case False
  with assms(2) have i: "i < length s" by simp
  with assms(1) have "byte_of (s ! i) < 128"
    by (simp add: is_ascii_def list_all_length)
  with i show ?thesis
    by (simp add: is_char_boundary_def is_continuation_def not_le)
qed (simp add: is_char_boundary_def)

lemma str_from_ascii: "is_ascii s \<Longrightarrow> i \<le> length s \<Longrightarrow> str_from s i = Ok (drop i s)"
  by (simp add: str_from_def is_char_boundary_ascii)

lemma str_upto_ascii: "is_ascii s \<Longrightarrow> i \<le> length s \<Longrightarrow> str_upto s i = Ok (take i s)"
  by (simp add: str_upto_def is_char_boundary_ascii)

section \<open>Generic contracts\<close>

text \<open>
  A script or header format: what one part of the program builds, another parses back.
  \<open>fits\<close> are the values the format can carry.
\<close>

locale wire_format =
  fixes build :: "'a \<Rightarrow> 'w"
    and parse :: "'w \<Rightarrow> 'a option"
    and fits :: "'a \<Rightarrow> bool"
  assumes parse_build: "fits x \<Longrightarrow> parse (build x) = Some x"
begin

lemma build_inj: "fits x \<Longrightarrow> fits y \<Longrightarrow> build x = build y \<Longrightarrow> x = y"
  by (metis option.inject parse_build)

lemma parse_some_built: "fits x \<Longrightarrow> w = build x \<Longrightarrow> \<exists>y. parse w = Some y \<and> build y = w"
  by (simp add: parse_build)

end

text \<open>A step relation and a predicate that every step keeps.\<close>

locale safe_steps =
  fixes step :: "'s \<Rightarrow> 's \<Rightarrow> bool"
    and inv :: "'s \<Rightarrow> bool"
  assumes step_inv: "inv s \<Longrightarrow> step s t \<Longrightarrow> inv t"
begin

lemma run_inv: "step\<^sup>*\<^sup>* s t \<Longrightarrow> inv s \<Longrightarrow> inv t"
  by (induction rule: rtranclp_induct) (auto intro: step_inv)

end

end
