(* ===== verification/Errors.thy ===== *)
theory Errors
  imports Prelude
begin

text \<open>
  The error enumerations of \<open>src/src/crypto/errors.rs\<close> and \<open>src/src/net/errors.rs\<close>, the text
  each one prints and the HTTP response it turns into. A \<open>response\<close> holds what a handler
  puts into actix-web's \<open>HttpResponse\<close>: the status code, the headers it sets and the body.
\<close>

section \<open>Responses\<close>

record response =
  status :: nat
  rs_headers :: "(string \<times> string) list"
  rs_body :: bytes

definition with_body :: "nat \<Rightarrow> string \<Rightarrow> response" where
  "with_body code msg = \<lparr>status = code, rs_headers = [], rs_body = as_bytes msg\<rparr>"

lemma with_body_sel [simp]:
  "status (with_body c m) = c"
  "rs_headers (with_body c m) = []"
  "rs_body (with_body c m) = as_bytes m"
  by (simp_all add: with_body_def)

section \<open>Error types\<close>

datatype crypto_error = PubkeyDeserialization | SigDeserialization | Verification

datatype validation_error =
    KeyType
  | Preimage
  | Outdated
  | ExpiredTTL
  | ValCrypto crypto_error

datatype payment_error =
    Content
  | Accept
  | Decode
  | Payload
  | NoMerchantDat
  | InvalidMerchantDat
  | InvalidAuth
  | NoToken
  | URIMalformed
  | NoTx
  | TxDeserialize ext_error
  | InvalidOutputs
  | InvalidTx
  | MismatchedNetwork
  | AddrFetchFailed

datatype server_error =
    DB ext_error
  | Validation validation_error
  | Crypto crypto_error
  | NotFound
  | MetadataDecode
  | PayloadDecode
  | UnsupportedSigScheme
  | Payment payment_error
  | Address ext_error ext_error

section \<open>Display\<close>

fun crypto_fmt :: "crypto_error \<Rightarrow> string" where
  "crypto_fmt PubkeyDeserialization = ''invalid pubkey''"
| "crypto_fmt SigDeserialization = ''invalid signature''"
| "crypto_fmt Verification = ''verification failed''"

fun validation_fmt :: "validation_error \<Rightarrow> string" where
  "validation_fmt KeyType = ''bad key type''"
| "validation_fmt Preimage = ''digest mismatch''"
| "validation_fmt Outdated = ''metadata is outdated''"
| "validation_fmt ExpiredTTL = ''expired TTL''"
| "validation_fmt (ValCrypto err) = crypto_fmt err"

fun payment_fmt :: "payment_error \<Rightarrow> string" where
  "payment_fmt Content = ''invalid content-type''"
| "payment_fmt Accept = ''not acceptable''"
| "payment_fmt Decode = ''failed to decode body''"
| "payment_fmt Payload = ''failed to receive payload''"
| "payment_fmt NoMerchantDat = ''no merchant data''"
| "payment_fmt InvalidMerchantDat = ''invalid merchant data''"
| "payment_fmt NoToken = ''no token''"
| "payment_fmt InvalidAuth = ''invalid authorization''"
| "payment_fmt URIMalformed = ''malformed URI''"
| "payment_fmt NoTx = ''no payment tx''"
| "payment_fmt (TxDeserialize _) = ''payment tx malformed''"
| "payment_fmt InvalidOutputs = ''invalid outputs''"
| "payment_fmt InvalidTx = ''invalid tx''"
| "payment_fmt AddrFetchFailed = ''failed to fetch address''"
| "payment_fmt MismatchedNetwork = ''address mismatched with node network''"

fun server_fmt :: "server_error \<Rightarrow> string" where
  "server_fmt (DB err) = err"
| "server_fmt (Crypto err) = crypto_fmt err"
| "server_fmt NotFound = ''not found''"
| "server_fmt MetadataDecode = ''metadata decoding error''"
| "server_fmt PayloadDecode = ''payload decoding error''"
| "server_fmt UnsupportedSigScheme = ''signature scheme not supported''"
| "server_fmt (Payment err) = payment_fmt err"
| "server_fmt (Validation err) = validation_fmt err"
| "server_fmt (Address cash_err base58_err) = cash_err @ '', '' @ base58_err"

section \<open>The \<open>From\<close> and \<open>Into\<close> conversions\<close>

definition crypto_into_validation :: "crypto_error \<Rightarrow> validation_error" where
  "crypto_into_validation e = ValCrypto e"

definition from_address_errors :: "ext_error \<times> ext_error \<Rightarrow> server_error" where
  "from_address_errors = (\<lambda>(cash_err, base58_err). Address cash_err base58_err)"

definition from_crypto_error :: "crypto_error \<Rightarrow> server_error" where
  "from_crypto_error e = Crypto e"

definition from_decode_error :: "ext_error \<Rightarrow> server_error" where
  "from_decode_error e = MetadataDecode"

definition from_rocks_error :: "ext_error \<Rightarrow> server_error" where
  "from_rocks_error e = DB e"

definition from_validation_error :: "validation_error \<Rightarrow> server_error" where
  "from_validation_error e = Validation e"

definition from_payment_error :: "payment_error \<Rightarrow> server_error" where
  "from_payment_error e = Payment e"

definition from_tx_error :: "ext_error \<Rightarrow> payment_error" where
  "from_tx_error e = TxDeserialize e"

lemmas from_error_defs =
  crypto_into_validation_def from_address_errors_def from_crypto_error_def
  from_decode_error_def from_rocks_error_def from_validation_error_def
  from_payment_error_def from_tx_error_def

section \<open>Error responses\<close>

definition crypto_response :: "crypto_error \<Rightarrow> response" where
  "crypto_response e = with_body
     (case e of PubkeyDeserialization \<Rightarrow> 400 | SigDeserialization \<Rightarrow> 400 | Verification \<Rightarrow> 400)
     (crypto_fmt e)"

fun validation_response :: "validation_error \<Rightarrow> response" where
  "validation_response (ValCrypto err_inner) = crypto_response err_inner"
| "validation_response KeyType = with_body 400 (validation_fmt KeyType)"
| "validation_response Preimage = with_body 400 (validation_fmt Preimage)"
| "validation_response Outdated = with_body 400 (validation_fmt Outdated)"
| "validation_response ExpiredTTL = with_body 400 (validation_fmt ExpiredTTL)"

fun payment_status :: "payment_error \<Rightarrow> nat" where
  "payment_status Accept = 406"
| "payment_status Content = 415"
| "payment_status NoMerchantDat = 400"
| "payment_status Payload = 400"
| "payment_status Decode = 400"
| "payment_status InvalidMerchantDat = 400"
| "payment_status InvalidAuth = 402"
| "payment_status NoToken = 402"
| "payment_status URIMalformed = 400"
| "payment_status NoTx = 400"
| "payment_status (TxDeserialize _) = 400"
| "payment_status InvalidOutputs = 400"
| "payment_status InvalidTx = 400"
| "payment_status MismatchedNetwork = 400"
| "payment_status AddrFetchFailed = 500"

definition payment_response :: "payment_error \<Rightarrow> response" where
  "payment_response e = with_body (payment_status e) (payment_fmt e)"

fun server_response :: "server_error \<Rightarrow> response" where
  "server_response (Validation err) = validation_response err"
| "server_response (DB _) = with_body 500 ''internal db error''"
| "server_response NotFound = with_body 404 (server_fmt NotFound)"
| "server_response MetadataDecode = with_body 400 (server_fmt MetadataDecode)"
| "server_response PayloadDecode = with_body 400 (server_fmt PayloadDecode)"
| "server_response UnsupportedSigScheme = with_body 400 (server_fmt UnsupportedSigScheme)"
| "server_response (Crypto err) = crypto_response err"
| "server_response (Payment err) = payment_response err"
| "server_response (Address c b) = with_body 400 (server_fmt (Address c b))"

section \<open>What the responses have in common\<close>

lemma crypto_response_400 [simp]: "status (crypto_response e) = 400"
  by (cases e) (simp_all add: crypto_response_def)

lemma validation_response_400 [simp]: "status (validation_response e) = 400"
  by (cases e) simp_all

lemma payment_status_cases: "payment_status e \<in> {400, 402, 406, 415, 500}"
  by (cases e) simp_all

lemma payment_response_status [simp]: "status (payment_response e) = payment_status e"
  by (simp add: payment_response_def)

lemma payment_status_500: "payment_status e = 500 \<longleftrightarrow> e = AddrFetchFailed"
  by (cases e) simp_all

lemma payment_status_402: "payment_status e = 402 \<longleftrightarrow> e = InvalidAuth \<or> e = NoToken"
  by (cases e) simp_all

lemma payment_status_404: "payment_status e \<noteq> 404"
  by (cases e) simp_all

lemma server_response_no_headers [simp]: "rs_headers (server_response e) = []"
  by (cases e rule: server_response.cases)
     (simp_all add: payment_response_def crypto_response_def, case_tac err,
      simp_all add: crypto_response_def)

text \<open>
  C32: the status code of a failed request tells the client what kind of failure it was.
  Every error is answered with a 4xx or 5xx code; a 500 is only ever a database failure or
  a node that did not give an address, a 404 only an absent key, a 402 only a missing or
  wrong payment token.
\<close>

theorem error_status_classes:
  "status (server_response e) \<in> {400, 402, 404, 406, 415, 500} \<and>
   (status (server_response e) = 500 \<longleftrightarrow>
      (\<exists>r. e = DB r) \<or> e = Payment AddrFetchFailed) \<and>
   (status (server_response e) = 404 \<longleftrightarrow> e = NotFound) \<and>
   (status (server_response e) = 402 \<longleftrightarrow> e = Payment InvalidAuth \<or> e = Payment NoToken)"
  using payment_status_cases
  by (cases e) (auto simp: payment_status_500 payment_status_402 payment_status_404)

end
