(* ===== verification/Models.thy ===== *)
theory Models
  imports Errors
begin

text \<open>
  The data the components exchange: the protobuf messages of the two generated modules
  \<open>models::address_metadata\<close> and \<open>models::bip70\<close> (with the fields and types the code
  builds and reads), the address type of the \<open>bitcoincash_addr\<close> crate that
  \<open>src/src/crypto/mod.rs\<close> re-exports, transactions, HTTP requests, and the \<open>Network\<close> and
  \<open>Settings\<close> types of \<open>src/src/bitcoin/mod.rs\<close> and \<open>src/src/settings.rs\<close>.
\<close>

section \<open>Address metadata messages\<close>

record entry_header =
  hd_name :: string
  hd_value :: string

record entry =
  kind :: string
  headers :: "entry_header list"
  entry_data :: bytes

record payload =
  timestamp :: i64
  ttl :: i64
  entries :: "entry list"

record address_metadata =
  pub_key :: bytes
  serialized_payload :: bytes
  signature :: bytes
  scheme :: i32

section \<open>BIP70 messages\<close>

record tx_output =
  amount :: "u64 option"
  out_script :: bytes

record payment_details =
  pd_network :: "string option"
  time :: u64
  expires :: "u64 option"
  pd_memo :: "string option"
  pd_merchant_data :: "bytes option"
  outputs :: "tx_output list"
  payment_url :: "string option"

record payment_request =
  pki_type :: "string option"
  pki_data :: "bytes option"
  payment_details_version :: "u32 option"
  serialized_payment_details :: bytes
  pr_signature :: "bytes option"

record payment_msg =
  merchant_data :: "bytes option"
  memo :: "string option"
  refund_to :: "tx_output list"
  transactions :: "bytes list"

record payment_ack =
  ack_payment :: payment_msg
  ack_memo :: "string option"

section \<open>Transactions\<close>

record txout =
  txo_value :: u64
  script_pubkey :: bytes

record transaction =
  tx_outputs :: "txout list"

section \<open>Addresses and networks\<close>

datatype bch_network = Main | Test | Regtest

datatype hash_kind = Key | Script

datatype address_format = CashAddr | Base58

record address =
  body :: bytes
  addr_format :: address_format
  hash_type :: hash_kind
  addr_network :: bch_network

datatype network = Mainnet | Testnet | Regnet

fun from_bch_network :: "bch_network \<Rightarrow> network" where
  "from_bch_network Main = Mainnet"
| "from_bch_network Test = Testnet"
| "from_bch_network Regtest = Regnet"

fun into_bch_network :: "network \<Rightarrow> bch_network" where
  "into_bch_network Mainnet = Main"
| "into_bch_network Testnet = Test"
| "into_bch_network Regnet = Regtest"

fun network_to_string :: "network \<Rightarrow> string" where
  "network_to_string Mainnet = ''mainnet''"
| "network_to_string Testnet = ''testnet''"
| "network_to_string Regnet = ''regnet''"

lemma from_into_network [simp]: "from_bch_network (into_bch_network n) = n"
  by (cases n) simp_all

lemma into_from_network [simp]: "into_bch_network (from_bch_network n) = n"
  by (cases n) simp_all

section \<open>Settings\<close>

record settings =
  bind_addr :: string
  node_ip :: string
  rpc_port :: u16
  rpc_username :: string
  rpc_password :: string
  zmq_port :: u16
  secret :: string
  db_path :: string
  s_network :: network

section \<open>Requests\<close>

text \<open>
  What the handlers read of an actix-web request: the method, the path of the URI, the
  scheme and the host of \<open>connection_info\<close>, the first value of a header, the last path
  segment that \<open>web::Path\<close> extracts, and the chunks of the body stream, each received or
  failed.
\<close>

datatype http_method = GET | PUT | POST | OTHER string

record request =
  rq_method :: http_method
  rq_path :: string
  rq_scheme :: string
  rq_host :: string
  rq_header :: "string \<Rightarrow> bytes option"
  rq_addr :: string
  rq_chunks :: "(ext_error + bytes) list"

text \<open>
  The loop \<open>while let Some(item) = payload.next().await\<close> of the two handlers that read a
  body: the chunks are appended until the stream ends or one of them fails.
\<close>

fun read_body :: "server_error \<Rightarrow> bytes \<Rightarrow> (ext_error + bytes) list \<Rightarrow>
    (bytes, server_error) result" where
  "read_body e acc [] = Ok acc"
| "read_body e acc (Inr b # items) = read_body e (acc @ b) items"
| "read_body e acc (Inl _ # items) = Err e"

lemma read_body_received [simp]:
  "read_body e acc (map Inr bs) = Ok (acc @ concat bs)"
  by (induction bs arbitrary: acc) simp_all

lemma read_body_failed:
  "Inl x \<in> set items \<Longrightarrow> read_body e acc items = Err e"
  by (induction e acc items rule: read_body.induct) auto

lemma read_body_neq_Panic [simp]: "read_body e acc items \<noteq> Panic"
  by (induction e acc items rule: read_body.induct) auto

lemma read_body_ErrD: "read_body e acc items = Err d \<Longrightarrow> d = e"
  by (induction e acc items rule: read_body.induct) auto

end
