(* ===== verification/Crypto.thy ===== *)
theory Crypto
  imports Models
begin

text \<open>
  \<open>src/src/crypto\<close>: the signature-scheme traits and the address of a key (\<open>mod.rs\<close>), their
  secp256k1 instance (\<open>ecdsa.rs\<close>), the validation of address metadata
  (\<open>authentication.rs\<close>) and the payment tokens (\<open>token.rs\<close>). The cryptographic crates are
  parameters, collected in \<open>crypto_lib\<close>.
\<close>

section \<open>The cryptographic crates\<close>

record ('pk, 'sig, 'msg) crypto_lib =
  pk_from_slice :: "bytes \<Rightarrow> ext_error + 'pk"
  pk_serialize :: "'pk \<Rightarrow> bytes"
  sig_from_compact :: "bytes \<Rightarrow> ext_error + 'sig"
  msg_from_slice :: "bytes \<Rightarrow> ext_error + 'msg"
  secp_verify :: "'msg \<Rightarrow> 'sig \<Rightarrow> 'pk \<Rightarrow> ext_error + unit"
  hash160 :: "bytes \<Rightarrow> bytes"
  sha256 :: "bytes \<Rightarrow> bytes"
  hmac_sha256 :: "bytes \<Rightarrow> bytes \<Rightarrow> bytes"
  ct_eq :: "bytes \<Rightarrow> bytes \<Rightarrow> u8"

text \<open>
  Documented behaviour the code relies on: a SHA-256 digest has the 32 bytes that
  \<open>Message::from_slice\<close> accepts, and \<open>ct_eq\<close> of two slices is 1 when they are equal and 0
  when they are not.
\<close>

definition digests_accepted :: "('pk, 'sig, 'msg, 'z) crypto_lib_scheme \<Rightarrow> bool" where
  "digests_accepted L \<longleftrightarrow>
     (\<forall>b. length (sha256 L b) = 32) \<and>
     (\<forall>d. length d = 32 \<longrightarrow> \<not> isl (msg_from_slice L d))"

definition ct_eq_decides :: "('pk, 'sig, 'msg, 'z) crypto_lib_scheme \<Rightarrow> bool" where
  "ct_eq_decides L \<longleftrightarrow> (\<forall>a b. ct_eq L a b = (if a = b then 1 else 0))"

section \<open>Signature schemes\<close>

text \<open>The traits \<open>PublicKey\<close>, \<open>Signature\<close> and \<open>SigScheme\<close>: a record of their functions.\<close>

record ('pk, 'sig) sig_scheme =
  key_serialize :: "'pk \<Rightarrow> bytes"
  key_deserialize :: "bytes \<Rightarrow> ('pk, crypto_error) result"
  sig_deserialize :: "bytes \<Rightarrow> ('sig, crypto_error) result"
  verify :: "bytes \<Rightarrow> 'pk \<Rightarrow> 'sig \<Rightarrow> (unit, crypto_error) result"

definition to_raw_address ::
  "('pk, 'sig, 'msg, 'z) crypto_lib_scheme \<Rightarrow> ('pk, 'sig) sig_scheme \<Rightarrow> 'pk \<Rightarrow> bytes" where
  "to_raw_address L S pk = hash160 L (key_serialize S pk)"

definition secp_key_serialize :: "('pk, 'sig, 'msg, 'z) crypto_lib_scheme \<Rightarrow> 'pk \<Rightarrow> bytes" where
  "secp_key_serialize L pk = pk_serialize L pk"

definition secp_key_deserialize ::
  "('pk, 'sig, 'msg, 'z) crypto_lib_scheme \<Rightarrow> bytes \<Rightarrow> ('pk, crypto_error) result" where
  "secp_key_deserialize L raw =
     map_err (\<lambda>_. PubkeyDeserialization) (from_sum (pk_from_slice L raw))"

definition secp_sig_deserialize ::
  "('pk, 'sig, 'msg, 'z) crypto_lib_scheme \<Rightarrow> bytes \<Rightarrow> ('sig, crypto_error) result" where
  "secp_sig_deserialize L raw =
     map_err (\<lambda>_. SigDeserialization) (from_sum (sig_from_compact L raw))"

definition secp_verify_digest ::
  "('pk, 'sig, 'msg, 'z) crypto_lib_scheme \<Rightarrow> bytes \<Rightarrow> 'pk \<Rightarrow> 'sig \<Rightarrow>
     (unit, crypto_error) result" where
  "secp_verify_digest L digest key sig =
     and_then (unwrap (from_sum (msg_from_slice L digest))) (\<lambda>msg.
       map_err (\<lambda>_. Verification) (from_sum (secp_verify L msg sig key)))"

definition secp256k1 ::
  "('pk, 'sig, 'msg, 'z) crypto_lib_scheme \<Rightarrow> ('pk, 'sig) sig_scheme" where
  "secp256k1 L = \<lparr>key_serialize = secp_key_serialize L,
                  key_deserialize = secp_key_deserialize L,
                  sig_deserialize = secp_sig_deserialize L,
                  verify = secp_verify_digest L\<rparr>"

lemma secp256k1_sel [simp]:
  "key_serialize (secp256k1 L) = pk_serialize L"
  "key_deserialize (secp256k1 L) = secp_key_deserialize L"
  "sig_deserialize (secp256k1 L) = secp_sig_deserialize L"
  "verify (secp256k1 L) = secp_verify_digest L"
  by (simp_all add: secp256k1_def secp_key_serialize_def fun_eq_iff)

section \<open>Validation of address metadata\<close>

definition validate ::
  "('pk, 'sig, 'msg, 'z) crypto_lib_scheme \<Rightarrow> ('pk, 'sig) sig_scheme \<Rightarrow> address \<Rightarrow>
     address_metadata \<Rightarrow> (unit, validation_error) result" where
  "validate L S addr metadata =
     and_then (map_err crypto_into_validation (key_deserialize S (pub_key metadata)))
       (\<lambda>meta_pk.
     let meta_addr = to_raw_address L S meta_pk; expected_addr = body addr in
     if meta_addr \<noteq> expected_addr then Err Preimage
     else
       let payload_digest = sha256 L (serialized_payload metadata) in
       and_then (map_err crypto_into_validation (sig_deserialize S (signature metadata)))
         (\<lambda>sig.
       map_err crypto_into_validation (verify S payload_digest meta_pk sig)))"

text \<open>
  What validation is for, without the order of its checks: the key hashes to the address
  and the signature by that key over the digest of the payload verifies.
\<close>

definition authentic ::
  "('pk, 'sig, 'msg, 'z) crypto_lib_scheme \<Rightarrow> bytes \<Rightarrow> address_metadata \<Rightarrow> bool" where
  "authentic L pk_hash metadata =
     (case (pk_from_slice L (pub_key metadata), sig_from_compact L (signature metadata),
            msg_from_slice L (sha256 L (serialized_payload metadata))) of
        (Inr pk, Inr sig, Inr msg) \<Rightarrow>
          hash160 L (pk_serialize L pk) = pk_hash \<and> secp_verify L msg sig pk = Inr ()
      | _ \<Rightarrow> False)"

lemmas secp_defs = secp_key_deserialize_def secp_sig_deserialize_def secp_verify_digest_def
  to_raw_address_def

lemma validate_Ok_iff: "validate L (secp256k1 L) addr md = Ok () \<longleftrightarrow> authentic L (body addr) md"
  by (auto simp: validate_def authentic_def secp_defs Let_def result_eqs split: sum.splits if_splits)

lemma digests_acceptedD: "digests_accepted L \<Longrightarrow> \<exists>m. msg_from_slice L (sha256 L b) = Inr m"
  unfolding digests_accepted_def by (metis isl_def sum.exhaust_sel)

lemma validate_neq_Panic:
  assumes "digests_accepted L"
  shows "validate L (secp256k1 L) addr md \<noteq> Panic"
  using digests_acceptedD [OF assms, of "serialized_payload md"]
  by (auto simp: validate_def secp_defs Let_def result_eqs split: sum.splits if_splits)

text \<open>
  C24: validation decides authenticity. Given digests of the length the signature library
  takes, it never panics, accepts exactly the metadata whose key hashes to the address and
  whose signature over the payload digest verifies, and blames the first check that fails:
  the key, the preimage, the encoding of the signature, the signature.
\<close>

theorem validate_decides:
  assumes "digests_accepted L"
  shows "validate L (secp256k1 L) addr md =
    (if authentic L (body addr) md then Ok ()
     else case pk_from_slice L (pub_key md) of
       Inl _ \<Rightarrow> Err (ValCrypto PubkeyDeserialization)
     | Inr pk \<Rightarrow>
         if hash160 L (pk_serialize L pk) \<noteq> body addr then Err Preimage
         else if isl (sig_from_compact L (signature md)) then Err (ValCrypto SigDeserialization)
         else Err (ValCrypto Verification))"
proof (cases "pk_from_slice L (pub_key md)")
  case (Inl e)
  then show ?thesis
    by (simp add: validate_def authentic_def secp_defs crypto_into_validation_def)
next
  case (Inr pk)
  note pk = this
  obtain msg where msg: "msg_from_slice L (sha256 L (serialized_payload md)) = Inr msg"
    using digests_acceptedD [OF assms] by blast
  show ?thesis
  proof (cases "sig_from_compact L (signature md)")
    case (Inl e)
    with pk show ?thesis
      by (simp add: validate_def authentic_def secp_defs crypto_into_validation_def)
  next
    case (Inr sig)
    with pk msg show ?thesis
      by (cases "secp_verify L msg sig pk")
         (simp_all add: validate_def authentic_def secp_defs crypto_into_validation_def)
  qed
qed

section \<open>Payment tokens\<close>

fun generate_secret :: "('r \<Rightarrow> u8 \<times> 'r) \<Rightarrow> nat \<Rightarrow> 'r \<Rightarrow> bytes \<times> 'r" where
  "generate_secret gen 0 rng = ([], rng)"
| "generate_secret gen (Suc len) rng =
     (let (b, rng1) = gen rng; (bs, rng2) = generate_secret gen len rng1 in (b # bs, rng2))"

definition generate_token ::
  "('pk, 'sig, 'msg, 'z) crypto_lib_scheme \<Rightarrow> bytes \<Rightarrow> bytes \<Rightarrow> bytes" where
  "generate_token L msg key = hmac_sha256 L key msg"

definition validate_token ::
  "('pk, 'sig, 'msg, 'z) crypto_lib_scheme \<Rightarrow> bytes \<Rightarrow> bytes \<Rightarrow> bytes \<Rightarrow> bool" where
  "validate_token L msg key expected \<longleftrightarrow> ct_eq L (generate_token L msg key) expected = 1"

lemma generate_secret_length: "length (fst (generate_secret gen len rng)) = len"
  by (induction len arbitrary: rng) (auto simp: Let_def split: prod.splits, metis fst_conv)

lemma validate_token_iff:
  "ct_eq_decides L \<Longrightarrow> validate_token L msg key tok \<longleftrightarrow> tok = hmac_sha256 L key msg"
  by (auto simp: validate_token_def generate_token_def ct_eq_decides_def)

end
