(* ===== verification/KeyDb.thy ===== *)
theory KeyDb
  imports Crypto
begin

text \<open>
  \<open>src/src/db.rs\<close>: the key database over RocksDB, its time-to-live test and the compaction
  filter. RocksDB, the clock and the protobuf codec of the metadata are parameters; what the
  code relies on is \<open>rocks_ok\<close> and \<open>md_roundtrip\<close>. The contract the rest of the program
  uses is the locale \<open>key_store\<close>, interpreted on \<open>KeyDB\<close>.
\<close>

section \<open>Parameters\<close>

record ('pk, 'sig, 'msg) model_lib = "('pk, 'sig, 'msg) crypto_lib" +
  overflow_checks :: bool
  md_decode :: "bytes \<Rightarrow> ext_error + address_metadata"
  md_encode :: "address_metadata \<Rightarrow> ext_error + bytes"
  payload_decode :: "bytes \<Rightarrow> ext_error + payload"

text \<open>
  The database handle and the system clock, over a state \<open>'s\<close> of the outside world. The
  clock gives seconds since the Unix epoch, negative before it.
\<close>

record 's db_sys =
  rocks_get :: "bytes \<Rightarrow> 's \<Rightarrow> (ext_error + bytes option) \<times> 's"
  rocks_put :: "bytes \<Rightarrow> bytes \<Rightarrow> 's \<Rightarrow> (ext_error + unit) \<times> 's"
  rocks_delete :: "bytes \<Rightarrow> 's \<Rightarrow> (ext_error + unit) \<times> 's"
  sys_now :: "'s \<Rightarrow> int \<times> 's"

type_synonym 's view = "'s \<Rightarrow> bytes \<rightharpoonup> bytes"

text \<open>
  \<open>rocks_ok X view\<close>: the operations of the database act on a map from keys to values as
  documented. A read changes nothing and a successful one returns the stored value; a
  successful write takes effect, a failed one may or may not have; reading the clock
  touches no data.
\<close>

definition rocks_ok :: "('s, 'x) db_sys_scheme \<Rightarrow> 's view \<Rightarrow> bool" where
  "rocks_ok X view \<longleftrightarrow>
     (\<forall>k s r t. rocks_get X k s = (r, t) \<longrightarrow>
        view t = view s \<and> (\<forall>v. r = Inr v \<longrightarrow> v = view s k)) \<and>
     (\<forall>k v s r t. rocks_put X k v s = (r, t) \<longrightarrow>
        view t = (view s)(k \<mapsto> v) \<or> (isl r \<and> view t = view s)) \<and>
     (\<forall>k s r t. rocks_delete X k s = (r, t) \<longrightarrow>
        view t = (view s)(k := None) \<or> (isl r \<and> view t = view s)) \<and>
     (\<forall>s. view (snd (sys_now X s)) = view s)"

definition md_roundtrip :: "('pk, 'sig, 'msg, 'z) model_lib_scheme \<Rightarrow> bool" where
  "md_roundtrip L \<longleftrightarrow>
     (\<forall>md. \<not> isl (md_encode L md) \<and> md_decode L (projr (md_encode L md)) = Inr md)"

lemma rocks_getD:
  assumes "rocks_ok X view" and "rocks_get X k s = (r, t)"
  shows "view t = view s" and "r = Inr v \<Longrightarrow> v = view s k"
  using assms unfolding rocks_ok_def by blast+

lemma rocks_putD:
  assumes "rocks_ok X view" and "rocks_put X k v s = (r, t)"
  shows "view t = (view s)(k \<mapsto> v) \<or> (isl r \<and> view t = view s)"
  using assms unfolding rocks_ok_def by blast

lemma rocks_deleteD:
  assumes "rocks_ok X view" and "rocks_delete X k s = (r, t)"
  shows "view t = (view s)(k := None) \<or> (isl r \<and> view t = view s)"
  using assms unfolding rocks_ok_def by blast

lemma sys_nowD: "rocks_ok X view \<Longrightarrow> sys_now X s = (n, t) \<Longrightarrow> view t = view s"
  unfolding rocks_ok_def by (metis snd_conv)

lemma md_roundtripD:
  "md_roundtrip L \<Longrightarrow> \<exists>raw. md_encode L md = Inr raw \<and> md_decode L raw = Inr md"
  unfolding md_roundtrip_def not_isl_iff by (metis sum.sel(2))

section \<open>Expiry\<close>

definition read_clock :: "('s, 'x) db_sys_scheme \<Rightarrow> ('s, int, 'e) io" where
  "read_clock X = (\<lambda>s. case sys_now X s of (t, s') \<Rightarrow> (Ok t, s'))"

definition unix_secs :: "int \<Rightarrow> (u64, 'e) result" where
  "unix_secs t = (if t < 0 then Panic else Ok (word_of_int t))"

definition expired ::
  "('pk, 'sig, 'msg, 'z) model_lib_scheme \<Rightarrow> ('s, 'x) db_sys_scheme \<Rightarrow> payload \<Rightarrow>
     ('s, bool, ext_error) io" where
  "expired L X p =
     try_then (read_clock X) (\<lambda>now.
     try_then (lift (unix_secs now)) (\<lambda>stamp.
     try_then (lift (add_i64 (overflow_checks L) (timestamp p) (ttl p))) (\<lambda>deadline.
     lift (Ok (sint deadline < sint stamp)))))"

datatype compaction_decision = Remove | Keep

definition ttl_filter ::
  "('pk, 'sig, 'msg, 'z) model_lib_scheme \<Rightarrow> ('s, 'x) db_sys_scheme \<Rightarrow> u32 \<Rightarrow> bytes \<Rightarrow> bytes \<Rightarrow>
     ('s, compaction_decision, ext_error) io" where
  "ttl_filter L X level key value =
     try_then (lift (unwrap (from_sum (md_decode L value)))) (\<lambda>metadata.
     try_then (lift (unwrap (from_sum (payload_decode L (serialized_payload metadata))))) (\<lambda>p.
     try_then (expired L X p) (\<lambda>e.
     lift (Ok (if e then Remove else Keep)))))"

section \<open>KeyDB\<close>

definition kdb_put ::
  "('pk, 'sig, 'msg, 'z) model_lib_scheme \<Rightarrow> ('s, 'x) db_sys_scheme \<Rightarrow> address \<Rightarrow>
     address_metadata \<Rightarrow> ('s, unit, ext_error) io" where
  "kdb_put L X addr metadata =
     try_then (lift (unwrap (from_sum (md_encode L metadata)))) (\<lambda>raw_metadata.
     from_sum_io (rocks_put X (body addr) raw_metadata))"

definition kdb_get ::
  "('pk, 'sig, 'msg, 'z) model_lib_scheme \<Rightarrow> ('s, 'x) db_sys_scheme \<Rightarrow> address \<Rightarrow>
     ('s, address_metadata option, ext_error) io" where
  "kdb_get L X addr =
     try_then (from_sum_io (rocks_get X (body addr))) (\<lambda>opt_dat.
     case opt_dat of
       None \<Rightarrow> lift (Ok None)
     | Some dat \<Rightarrow>
         try_then (lift (unwrap (from_sum (md_decode L dat)))) (\<lambda>metadata.
         try_then (lift (unwrap (from_sum (payload_decode L (serialized_payload metadata))))) (\<lambda>p.
         try_then (expired L X p) (\<lambda>e.
         if e then
           try_then (from_sum_io (rocks_delete X (body addr))) (\<lambda>_. lift (Ok None))
         else lift (Ok (Some metadata))))))"

definition check_timestamp ::
  "('pk, 'sig, 'msg, 'z) model_lib_scheme \<Rightarrow> ('s, 'x) db_sys_scheme \<Rightarrow> address \<Rightarrow> payload \<Rightarrow>
     ('s, validation_error + unit, ext_error) io" where
  "check_timestamp L X addr new_payload =
     try_then (kdb_get L X addr) (\<lambda>old.
     case old of
       Some old_metadata \<Rightarrow>
         try_then (lift (unwrap (from_sum (payload_decode L (serialized_payload old_metadata)))))
           (\<lambda>old_payload.
         if sint (timestamp new_payload) < sint (timestamp old_payload)
         then lift (Ok (Inl Outdated))
         else try_then (expired L X new_payload) (\<lambda>e.
           if e then lift (Ok (Inl ExpiredTTL)) else lift (Ok (Inr ()))))
     | None \<Rightarrow> lift (Ok (Inr ())))"

section \<open>What may be stored\<close>

text \<open>
  \<open>admissible L k md\<close>: the metadata is authentic for the key \<open>k\<close> and its payload decodes.
  \<open>kdb_lookup\<close> is the database read as a map to metadata, and \<open>kdb_ready\<close> the condition on
  which its operations keep their contract: the parameters behave and every stored value is
  admissible.
\<close>

definition admissible ::
  "('pk, 'sig, 'msg, 'z) model_lib_scheme \<Rightarrow> bytes \<Rightarrow> address_metadata \<Rightarrow> bool" where
  "admissible L k md \<longleftrightarrow> authentic L k md \<and> \<not> isl (payload_decode L (serialized_payload md))"

definition stamp_of :: "('pk, 'sig, 'msg, 'z) model_lib_scheme \<Rightarrow> address_metadata \<Rightarrow> int" where
  "stamp_of L md = (case payload_decode L (serialized_payload md) of
      Inr p \<Rightarrow> sint (timestamp p) | Inl _ \<Rightarrow> 0)"

definition decode_opt ::
  "('pk, 'sig, 'msg, 'z) model_lib_scheme \<Rightarrow> bytes \<Rightarrow> address_metadata option" where
  "decode_opt L v = (case md_decode L v of Inr md \<Rightarrow> Some md | Inl _ \<Rightarrow> None)"

definition kdb_lookup ::
  "('pk, 'sig, 'msg, 'z) model_lib_scheme \<Rightarrow> 's view \<Rightarrow> 's \<Rightarrow> bytes \<Rightarrow> address_metadata option" where
  "kdb_lookup L view s k = Option.bind (view s k) (decode_opt L)"

definition stored_ok ::
  "('pk, 'sig, 'msg, 'z) model_lib_scheme \<Rightarrow> bytes \<Rightarrow> bytes \<Rightarrow> bool" where
  "stored_ok L k v = (case md_decode L v of Inr md \<Rightarrow> admissible L k md | Inl _ \<Rightarrow> False)"

definition kdb_inv ::
  "('pk, 'sig, 'msg, 'z) model_lib_scheme \<Rightarrow> 's view \<Rightarrow> 's \<Rightarrow> bool" where
  "kdb_inv L view s \<longleftrightarrow> (\<forall>k v. view s k = Some v \<longrightarrow> stored_ok L k v)"

definition kdb_ready ::
  "('pk, 'sig, 'msg, 'z) model_lib_scheme \<Rightarrow> ('s, 'x) db_sys_scheme \<Rightarrow> 's view \<Rightarrow> 's \<Rightarrow> bool" where
  "kdb_ready L X view s \<longleftrightarrow> rocks_ok X view \<and> md_roundtrip L \<and> kdb_inv L view s"

section \<open>The store contract\<close>

text \<open>
  What the request handlers and the peer client rely on: a store that is \<open>ready\<close> stays
  ready, a read returns what is stored under the key and may only forget that one entry, a
  write stores exactly its entry, the freshness check lets no older entry through, and
  everything stored is admissible.
\<close>

locale key_store =
  fixes get :: "'a \<Rightarrow> ('s, 'm option, 'e) io"
    and put :: "'a \<Rightarrow> 'm \<Rightarrow> ('s, unit, 'e) io"
    and check :: "'a \<Rightarrow> 'p \<Rightarrow> ('s, 'v + unit, 'e) io"
    and key :: "'a \<Rightarrow> 'k"
    and lookup :: "'s \<Rightarrow> 'k \<Rightarrow> 'm option"
    and adm :: "'k \<Rightarrow> 'm \<Rightarrow> bool"
    and stamp :: "'m \<Rightarrow> int"
    and new_stamp :: "'p \<Rightarrow> int"
    and ready :: "'s \<Rightarrow> bool"
  assumes get_ready: "ready s \<Longrightarrow> get a s = (r, t) \<Longrightarrow> ready t"
    and get_found: "ready s \<Longrightarrow> get a s = (Ok (Some m), t) \<Longrightarrow>
      lookup t = lookup s \<and> lookup s (key a) = Some m"
    and get_absent: "ready s \<Longrightarrow> get a s = (Ok None, t) \<Longrightarrow> lookup t (key a) = None"
    and get_frame: "ready s \<Longrightarrow> get a s = (r, t) \<Longrightarrow>
      lookup t = lookup s \<or> lookup t = (lookup s)(key a := None)"
    and put_ready: "ready s \<Longrightarrow> adm (key a) m \<Longrightarrow> put a m s = (q, t) \<Longrightarrow> ready t"
    and put_stored: "ready s \<Longrightarrow> put a m s = (Ok (), t) \<Longrightarrow> lookup t = (lookup s)(key a \<mapsto> m)"
    and put_failed: "ready s \<Longrightarrow> put a m s = (Err e, t) \<Longrightarrow>
      lookup t = lookup s \<or> lookup t = (lookup s)(key a \<mapsto> m)"
    and put_returns: "ready s \<Longrightarrow> put a m s \<noteq> (Panic, t)"
    and check_ready: "ready s \<Longrightarrow> check a p s = (c, t) \<Longrightarrow> ready t"
    and check_frame: "ready s \<Longrightarrow> check a p s = (c, t) \<Longrightarrow>
      lookup t = lookup s \<or> lookup t = (lookup s)(key a := None)"
    and check_newer: "ready s \<Longrightarrow> check a p s = (Ok (Inr ()), t) \<Longrightarrow>
      lookup t (key a) = Some m \<Longrightarrow> stamp m \<le> new_stamp p"
    and ready_adm: "ready s \<Longrightarrow> lookup s k = Some m \<Longrightarrow> adm k m"
begin

lemma get_admissible: "ready s \<Longrightarrow> get a s = (Ok (Some m), t) \<Longrightarrow> adm (key a) m"
  using get_found ready_adm by blast

lemma get_after_put:
  assumes "ready s" and "adm (key a) m" and "put a m s = (Ok (), t)"
    and "get b t = (Ok (Some n), u)" and "key b = key a"
  shows "n = m"
proof -
  have "lookup t (key b) = Some m"
    using put_stored [OF assms(1,3)] assms(5) by simp
  moreover have "lookup t (key b) = Some n"
    using get_found [OF put_ready [OF assms(1,2,3)] assms(4)] by simp
  ultimately show ?thesis by simp
qed

lemma checked_put:
  assumes ready: "ready s" and check: "check a p s = (Ok (Inr ()), t)"
    and put: "put a m t = (Ok (), u)" and adm: "adm (key a) m"
  shows "ready u" and "lookup u (key a) = Some m"
    and "k \<noteq> key a \<Longrightarrow> lookup u k = lookup s k"
    and "lookup s (key a) = Some old \<Longrightarrow> lookup t (key a) \<noteq> None \<Longrightarrow> stamp old \<le> new_stamp p"
proof -
  have t: "ready t" using check_ready [OF ready check] .
  show "ready u" using put_ready [OF t adm put] .
  show "lookup u (key a) = Some m" using put_stored [OF t put] by simp
  show "lookup u k = lookup s k" if "k \<noteq> key a"
    using put_stored [OF t put] check_frame [OF ready check] that by auto
  show "stamp old \<le> new_stamp p"
    if "lookup s (key a) = Some old" and "lookup t (key a) \<noteq> None"
    using check_frame [OF ready check] check_newer [OF ready check, of old] that by auto
qed

lemma checked_put_ready:
  assumes "ready s" and "check a p s = (c, t)" and "adm (key a) m" and "put a m t = (r, u)"
  shows "ready u"
  using assms check_ready put_ready by blast

end

section \<open>KeyDB keeps the contract\<close>

lemma read_clock_run [simp]: "read_clock X s = (Ok (fst (sys_now X s)), snd (sys_now X s))"
  by (simp add: read_clock_def split: prod.splits)

lemma expired_view: "rocks_ok X view \<Longrightarrow> expired L X p s = (r, t) \<Longrightarrow> view t = view s"
  by (cases "sys_now X s")
     (auto simp: expired_def try_then_def sys_nowD unix_secs_def
       split: result.splits prod.splits if_splits)

lemma expired_neq_Err: "expired L X p s \<noteq> (Err e, t)"
  by (auto simp: expired_def unix_secs_def io_eqs split: if_splits)

text \<open>The test itself, when nothing overflows and the clock is past the epoch.\<close>

definition sum_in_range :: "payload \<Rightarrow> bool" where
  "sum_in_range p \<longleftrightarrow>
     - (2 ^ 63) \<le> sint (timestamp p) + sint (ttl p) \<and>
     sint (timestamp p) + sint (ttl p) < 2 ^ 63"

definition clock_in_range :: "int \<Rightarrow> bool" where
  "clock_in_range n \<longleftrightarrow> 0 \<le> n \<and> n < 2 ^ 63"

lemma sint_of_clock: "clock_in_range n \<Longrightarrow> sint (word_of_int n :: i64) = n"
  by (simp add: clock_in_range_def signed_of_int signed_take_bit_int_eq_self)

lemma expired_exact:
  assumes "sys_now X s = (n, t)" and "clock_in_range n" and "sum_in_range p"
  shows "expired L X p s = (Ok (sint (timestamp p) + sint (ttl p) < n), t)"
proof -
  have lo: "- (2 ^ 63) \<le> sint (timestamp p) + sint (ttl p)"
    and hi: "sint (timestamp p) + sint (ttl p) < 2 ^ 63"
    using assms(3) by (simp_all add: sum_in_range_def)
  show ?thesis
    using assms(1,2) sint_of_clock [OF assms(2)] add_i64_in_range(2) [OF lo hi]
    by (simp add: expired_def try_then_def unix_secs_def clock_in_range_def
        add_i64_in_range(1) [OF lo hi])
qed

text \<open>
  The ways a read can end. \<open>dropped\<close> is the removal of an expired entry; \<open>drop_failed\<close>
  its removal failing in the database.
\<close>

lemma kdb_get_stored:
  assumes "rocks_get X (body a) s = (Inr (Some v), s1)"
    and "md_decode L v = Inr md" and "payload_decode L (serialized_payload md) = Inr p"
  shows "kdb_get L X a s =
    try_then (expired L X p) (\<lambda>e.
      if e then try_then (from_sum_io (rocks_delete X (body a))) (\<lambda>_. lift (Ok None))
      else lift (Ok (Some md))) s1"
  using assms by (simp add: kdb_get_def try_then_def from_sum_io_def)

lemma delete_cases:
  assumes ok: "rocks_ok X view"
    and run: "try_then (from_sum_io (rocks_delete X k)) (\<lambda>_. lift (Ok None)) s = (r, t)"
  shows "(r = Ok None \<and> view t = (view s)(k := None)) \<or>
         ((\<exists>e. r = Err e) \<and> (view t = view s \<or> view t = (view s)(k := None)))"
proof -
  obtain d s1 where d: "rocks_delete X k s = (d, s1)" by fastforce
  from rocks_deleteD [OF ok d] run show ?thesis
    by (cases d) (auto simp: try_then_def from_sum_io_def d)
qed

lemma stored_read_cases:
  assumes ok: "rocks_ok X view"
    and run: "try_then (expired L X p) (\<lambda>e.
        if e then try_then (from_sum_io (rocks_delete X k)) (\<lambda>_. lift (Ok None))
        else lift (Ok (Some md))) s = (r, t)"
  obtains
    (clock_panic) s2 where "expired L X p s = (Panic, s2)"
      "r = Panic" "view t = view s"
  | (fresh) s2 where "expired L X p s = (Ok False, s2)"
      "r = Ok (Some md)" "view t = view s"
  | (dropped) s2 where "expired L X p s = (Ok True, s2)"
      "r = Ok None" "view t = (view s)(k := None)"
  | (drop_failed) e where "r = Err e" "view t = view s \<or> view t = (view s)(k := None)"
proof -
  obtain x :: "(bool, ext_error) result" and s2 where e: "expired L X p s = (x, s2)"
    by fastforce
  have v2: "view s2 = view s" using expired_view [OF ok e] .
  consider "x = Panic" | "x = Ok False" | "x = Ok True" | y where "x = Err y"
    by (cases x) auto
  then show thesis
  proof cases
    case 1
    with run e v2 clock_panic show thesis by (auto simp: try_then_def)
  next
    case 2
    with run e v2 fresh show thesis by (auto simp: try_then_def)
  next
    case 3
    with run e have "try_then (from_sum_io (rocks_delete X k)) (\<lambda>_. lift (Ok None)) s2 = (r, t)"
      by (simp add: try_then_def [of "expired L X p"])
    from delete_cases [OF ok this] v2 e 3 dropped drop_failed show thesis by metis
  next
    case 4
    with e expired_neq_Err [of L X p s y s2] show thesis by simp
  qed
qed

lemma kdb_get_cases:
  assumes ok: "rocks_ok X view" and get: "kdb_get L X a s = (r, t)"
  obtains
    (read_failed) e where "r = Err e" "view t = view s"
  | (absent) "r = Ok None" "view s (body a) = None" "view t = view s"
  | (undecodable) v where "r = Panic" "view s (body a) = Some v" "view t = view s"
      "\<And>md p. md_decode L v = Inr md \<Longrightarrow> payload_decode L (serialized_payload md) \<noteq> Inr p"
  | (clock_panic) v md p s1 s2 where "r = Panic" "view s (body a) = Some v" "view t = view s"
      "md_decode L v = Inr md" "payload_decode L (serialized_payload md) = Inr p"
      "rocks_get X (body a) s = (Inr (Some v), s1)"
      "expired L X p s1 = (Panic, s2)"
  | (fresh) v md p s1 s2 where "r = Ok (Some md)" "view s (body a) = Some v" "view t = view s"
      "md_decode L v = Inr md" "payload_decode L (serialized_payload md) = Inr p"
      "rocks_get X (body a) s = (Inr (Some v), s1)"
      "expired L X p s1 = (Ok False, s2)"
  | (dropped) v md p s1 s2 where "r = Ok None" "view s (body a) = Some v"
      "view t = (view s)(body a := None)"
      "md_decode L v = Inr md" "payload_decode L (serialized_payload md) = Inr p"
      "rocks_get X (body a) s = (Inr (Some v), s1)"
      "expired L X p s1 = (Ok True, s2)"
  | (drop_failed) e where "r = Err e" "view t = view s \<or> view t = (view s)(body a := None)"
proof -
  obtain q s1 where g: "rocks_get X (body a) s = (q, s1)" by fastforce
  have v1: "view s1 = view s" using rocks_getD(1) [OF ok g] .
  have q: "\<And>v. q = Inr v \<Longrightarrow> v = view s (body a)" using rocks_getD(2) [OF ok g] .
  consider e where "q = Inl e" | "q = Inr None" | v where "q = Inr (Some v)"
    by (cases q) auto
  then show thesis
  proof cases
    case (1 e)
    with get g v1 show thesis
      by (intro read_failed [of e]) (auto simp: kdb_get_def try_then_def from_sum_io_def)
  next
    case 2
    with get g v1 q show thesis
      by (intro absent) (auto simp: kdb_get_def try_then_def from_sum_io_def)
  next
    case (3 v)
    note g = g [unfolded 3]
    have stored: "view s (body a) = Some v" using q 3 by simp
    show thesis
    proof (cases "\<exists>md p. md_decode L v = Inr md \<and> payload_decode L (serialized_payload md) = Inr p")
      case False
      then have "r = Panic \<and> t = s1"
        using get g by (cases "md_decode L v")
          (auto simp: kdb_get_def try_then_def from_sum_io_def split: result.splits
            intro: sum.exhaust)
      with False stored v1 undecodable show thesis by blast
    next
      case True
      then obtain md p where dec: "md_decode L v = Inr md"
        and pl: "payload_decode L (serialized_payload md) = Inr p" by blast
      from ok get [unfolded kdb_get_stored [OF g dec pl]] show thesis
        by (rule stored_read_cases)
           (use stored v1 dec pl g clock_panic fresh dropped drop_failed in \<open>auto; blast\<close>)+
    qed
  qed
qed

lemma kdb_get_view:
  "rocks_ok X view \<Longrightarrow> kdb_get L X a s = (r, t) \<Longrightarrow>
     view t = view s \<or> view t = (view s)(body a := None)"
  by (erule (1) kdb_get_cases) auto

lemma kdb_inv_mono:
  "kdb_inv L view s \<Longrightarrow> view t = view s \<or> view t = (view s)(k := None) \<Longrightarrow> kdb_inv L view t"
  by (auto simp: kdb_inv_def split: if_splits)

lemma kdb_inv_store:
  "kdb_inv L view s \<Longrightarrow> view t = (view s)(k \<mapsto> v) \<Longrightarrow> stored_ok L k v \<Longrightarrow> kdb_inv L view t"
  by (auto simp: kdb_inv_def)

lemma kdb_lookup_cong: "view t = view s \<Longrightarrow> kdb_lookup L view t = kdb_lookup L view s"
  by (simp add: kdb_lookup_def fun_eq_iff)

lemma kdb_lookup_remove:
  "view t = (view s)(k := None) \<Longrightarrow> kdb_lookup L view t = (kdb_lookup L view s)(k := None)"
  by (simp add: kdb_lookup_def fun_eq_iff)

lemma kdb_lookup_store:
  "view t = (view s)(k \<mapsto> v) \<Longrightarrow> md_decode L v = Inr md \<Longrightarrow>
     kdb_lookup L view t = (kdb_lookup L view s)(k \<mapsto> md)"
  by (simp add: kdb_lookup_def decode_opt_def fun_eq_iff)

lemma stored_okD:
  "kdb_inv L view s \<Longrightarrow> view s k = Some v \<Longrightarrow>
     \<exists>md p. md_decode L v = Inr md \<and> payload_decode L (serialized_payload md) = Inr p \<and>
            admissible L k md"
proof -
  assume "kdb_inv L view s" and "view s k = Some v"
  then have ok: "stored_ok L k v" by (simp add: kdb_inv_def)
  then obtain md where md: "md_decode L v = Inr md" and adm: "admissible L k md"
    by (auto simp: stored_ok_def split: sum.splits)
  then obtain p where "payload_decode L (serialized_payload md) = Inr p"
    by (auto simp: admissible_def not_isl_iff)
  with md adm show ?thesis by blast
qed

lemma kdb_put_cases:
  assumes ok: "rocks_ok X view" and rt: "md_roundtrip L" and put: "kdb_put L X a md s = (r, t)"
  obtains
    (stored) raw where "view t = (view s)(body a \<mapsto> raw)" "md_decode L raw = Inr md" "r \<noteq> Panic"
  | (failed) e where "view t = view s" "r = Err e"
proof -
  obtain raw where raw: "md_encode L md = Inr raw" "md_decode L raw = Inr md"
    using md_roundtripD [OF rt] by blast
  obtain q s1 where q: "rocks_put X (body a) raw s = (q, s1)" by fastforce
  from put raw q have rt: "r = from_sum q" "t = s1"
    by (simp_all add: kdb_put_def from_sum_io_def)
  from rocks_putD [OF ok q] show thesis
  proof
    assume "view s1 = (view s)(body a \<mapsto> raw)"
    with raw rt stored show thesis by simp
  next
    assume "isl q \<and> view s1 = view s"
    with rt failed show thesis by (auto simp: isl_def)
  qed
qed

lemma check_timestamp_view:
  assumes ok: "rocks_ok X view" and run: "check_timestamp L X a p s = (c, t)"
  shows "view t = view s \<or> view t = (view s)(body a := None)"
proof -
  obtain r s1 where g: "kdb_get L X a s = (r, s1)" by fastforce
  have v1: "view s1 = view s \<or> view s1 = (view s)(body a := None)"
    using kdb_get_view [OF ok g] .
  have "view t = view s1"
    using run g expired_view [OF ok]
    by (auto simp: check_timestamp_def try_then_def split: result.splits option.splits
        prod.splits if_splits)
  with v1 show ?thesis by simp
qed

lemma check_timestamp_newer:
  assumes ok: "rocks_ok X view" and run: "check_timestamp L X a p s = (Ok (Inr ()), t)"
    and left: "view t (body a) = Some v" and dec: "md_decode L v = Inr md"
  shows "stamp_of L md \<le> sint (timestamp p)"
proof -
  obtain r s1 where g: "kdb_get L X a s = (r, s1)" by fastforce
  have "view t = view s1"
    using run g expired_view [OF ok]
    by (auto simp: check_timestamp_def try_then_def split: result.splits option.splits
        prod.splits if_splits)
  with left have v1: "view s1 (body a) = Some v" by simp
  from ok g show ?thesis
  proof (cases rule: kdb_get_cases)
    case (fresh v' md' p' u w)
    with v1 dec have "md' = md" by simp
    with fresh run g show ?thesis
      by (auto simp: check_timestamp_def try_then_def stamp_of_def
          split: if_splits prod.splits result.splits)
  qed (use run g v1 in \<open>auto simp: check_timestamp_def try_then_def\<close>)
qed

lemma kdb_readyD:
  assumes "kdb_ready L X view s"
  shows "rocks_ok X view" and "md_roundtrip L" and "kdb_inv L view s"
  using assms by (simp_all add: kdb_ready_def)

lemma kdb_lookup_Some:
  "kdb_lookup L view s k = Some md \<longleftrightarrow> (\<exists>v. view s k = Some v \<and> md_decode L v = Inr md)"
proof (cases "view s k")
  case (Some v)
  then show ?thesis
    by (cases "md_decode L v") (simp_all add: kdb_lookup_def decode_opt_def)
qed (simp add: kdb_lookup_def)

lemma kdb_lookup_adm:
  assumes "kdb_inv L view s" and "kdb_lookup L view s k = Some md"
  shows "admissible L k md"
proof -
  from assms(2) obtain v where "view s k = Some v" "md_decode L v = Inr md"
    by (auto simp: kdb_lookup_Some)
  with stored_okD [OF assms(1)] show ?thesis by fastforce
qed

lemma kdb_ready_keep:
  assumes ready: "kdb_ready L X view s" and t: "view t = view s \<or> view t = (view s)(k := None)"
  shows "kdb_ready L X view t"
  using kdb_readyD [OF ready] kdb_inv_mono [OF _ t] by (simp add: kdb_ready_def)

lemma kdb_ready_put:
  assumes ready: "kdb_ready L X view s" and adm: "admissible L (body a) md"
    and put: "kdb_put L X a md s = (r, t)"
  shows "kdb_ready L X view t"
  using kdb_readyD(1,2) [OF ready] put
proof (cases rule: kdb_put_cases)
  case (stored raw)
  then have "stored_ok L (body a) raw" using adm by (simp add: stored_ok_def)
  with kdb_inv_store [OF kdb_readyD(3) [OF ready] stored(1)] kdb_readyD [OF ready]
  show ?thesis by (simp add: kdb_ready_def)
next
  case (failed e)
  then show ?thesis by (intro kdb_ready_keep [OF ready]) simp
qed

lemma kdb_lookup_frame:
  "view t = view s \<or> view t = (view s)(k := None) \<Longrightarrow>
     kdb_lookup L view t = kdb_lookup L view s \<or>
     kdb_lookup L view t = (kdb_lookup L view s)(k := None)"
  using kdb_lookup_cong [of view t s L] kdb_lookup_remove [of view t s k L] by blast

interpretation kdb: key_store "kdb_get L X" "kdb_put L X" "check_timestamp L X" body
    "kdb_lookup L view" "admissible L" "stamp_of L" "\<lambda>p. sint (timestamp p)" "kdb_ready L X view"
  for L X view
proof (unfold_locales, goal_cases)
  case (1 s a r t)
  from kdb_get_view [OF kdb_readyD(1) [OF 1(1)] 1(2)] show ?case by (rule kdb_ready_keep [OF 1(1)])
next
  case (2 s a m t)
  from kdb_readyD(1) [OF 2(1)] 2(2) show ?case
  proof (cases rule: kdb_get_cases)
    case (fresh v md p s1 s2)
    with kdb_lookup_cong [OF fresh(3)] show ?thesis by (simp add: kdb_lookup_Some)
  qed simp_all
next
  case (3 s a t)
  from kdb_readyD(1) [OF 3(1)] 3(2) show ?case
    by (cases rule: kdb_get_cases) (auto simp: kdb_lookup_def)
next
  case (4 s a r t)
  from kdb_get_view [OF kdb_readyD(1) [OF 4(1)] 4(2)] show ?case by (rule kdb_lookup_frame)
next
  case (5 s a m q t)
  then show ?case by (rule kdb_ready_put)
next
  case (6 s a m t)
  from kdb_readyD(1,2) [OF 6(1)] 6(2) show ?case
    by (cases rule: kdb_put_cases) (auto intro: kdb_lookup_store)
next
  case (7 s a m e t)
  from kdb_readyD(1,2) [OF 7(1)] 7(2) show ?case
    by (cases rule: kdb_put_cases) (auto intro: kdb_lookup_store kdb_lookup_cong)
next
  case (8 s a m t)
  show ?case
  proof
    assume "kdb_put L X a m s = (Panic, t)"
    from kdb_readyD(1,2) [OF 8] this show False by (cases rule: kdb_put_cases) simp_all
  qed
next
  case (9 s a p c t)
  from check_timestamp_view [OF kdb_readyD(1) [OF 9(1)] 9(2)] show ?case
    by (rule kdb_ready_keep [OF 9(1)])
next
  case (10 s a p c t)
  from check_timestamp_view [OF kdb_readyD(1) [OF 10(1)] 10(2)] show ?case
    by (rule kdb_lookup_frame)
next
  case (11 s a p t m)
  from 11(3) obtain v where "view t (body a) = Some v" "md_decode L v = Inr m"
    by (auto simp: kdb_lookup_Some)
  with check_timestamp_newer [OF kdb_readyD(1) [OF 11(1)] 11(2)] show ?case by blast
next
  case (12 s k m)
  from kdb_lookup_adm [OF kdb_readyD(3) [OF 12(1)] 12(2)] show ?case .
qed

section \<open>Properties of the database\<close>

text \<open>
  \<open>lapsed L X k md s\<close>: by the clock reading that a read of the key \<open>k\<close> from the state \<open>s\<close> makes
  after it has the value, the metadata has passed its time to live.
\<close>

definition lapsed ::
  "('pk, 'sig, 'msg, 'z) model_lib_scheme \<Rightarrow> ('s, 'x) db_sys_scheme \<Rightarrow> bytes \<Rightarrow>
     address_metadata \<Rightarrow> 's \<Rightarrow> bool" where
  "lapsed L X k md s \<longleftrightarrow>
     (\<exists>p. payload_decode L (serialized_payload md) = Inr p \<and>
        fst (expired L X p (snd (rocks_get X k s))) = Ok True)"

lemma check_timestamp_dropped:
  assumes ok: "rocks_ok X view" and run: "check_timestamp L X a p s = (Ok c, t)"
    and old: "kdb_lookup L view s (body a) = Some md" and gone: "kdb_lookup L view t (body a) = None"
  shows "lapsed L X (body a) md s"
proof -
  obtain r u where g: "kdb_get L X a s = (r, u)" by fastforce
  have "view t = view u"
    using run g expired_view [OF ok]
    by (auto simp: check_timestamp_def try_then_def split: result.splits option.splits
        prod.splits if_splits)
  with gone have u: "kdb_lookup L view u (body a) = None" by (simp add: kdb_lookup_def)
  from ok g show ?thesis
  proof (cases rule: kdb_get_cases)
    case (fresh v md' q s1 s2)
    with u have "kdb_lookup L view s (body a) = None" by (simp add: kdb_lookup_def)
    with old show ?thesis by simp
  next
    case (dropped v md' q s1 s2)
    with old have "md' = md" by (auto simp: kdb_lookup_Some)
    with dropped show ?thesis by (simp add: lapsed_def)
  qed (use run g old in \<open>auto simp: check_timestamp_def try_then_def kdb_lookup_Some\<close>)
qed

text \<open>A check that refuses, or panics, leaves the database as it is.\<close>

lemma check_timestamp_refused:
  assumes ok: "rocks_ok X view" and run: "check_timestamp L X a p s = (c, t)"
    and refused: "c \<noteq> Ok (Inr ())" "\<And>e. c \<noteq> Err e"
  shows "view t = view s"
proof -
  obtain r u where g: "kdb_get L X a s = (r, u)" by fastforce
  have "view t = view u"
    using run g expired_view [OF ok]
    by (auto simp: check_timestamp_def try_then_def split: result.splits option.splits
        prod.splits if_splits)
  moreover from ok g have "view u = view s"
    by (cases rule: kdb_get_cases) (use run g refused in \<open>auto simp: check_timestamp_def try_then_def\<close>)
  ultimately show ?thesis by simp
qed

text \<open>
  C25: time to live, exactly. A read of a stored, decodable entry at clock reading \<open>n\<close> returns
  the metadata as long as \<open>n\<close> has not passed timestamp plus time to live (the last second
  included), and otherwise deletes the entry and reports it absent, or reports the database
  error of the deletion.
\<close>

theorem get_respects_ttl:
  assumes read: "rocks_get X (body a) s = (Inr (Some v), s1)"
    and dec: "md_decode L v = Inr md" and pl: "payload_decode L (serialized_payload md) = Inr p"
    and rng: "sum_in_range p" and clock: "sys_now X s1 = (n, s2)" "clock_in_range n"
  shows "kdb_get L X a s =
    (if n \<le> sint (timestamp p) + sint (ttl p) then (Ok (Some md), s2)
     else case rocks_delete X (body a) s2 of
       (Inr _, t) \<Rightarrow> (Ok None, t) | (Inl e, t) \<Rightarrow> (Err e, t))"
  using expired_exact [OF clock rng, of L]
  by (simp add: kdb_get_stored [OF read dec pl] try_then_def from_sum_io_def
      split: prod.splits sum.splits)

lemma get_live:
  assumes "rocks_get X (body a) s = (Inr (Some v), s1)"
    and "md_decode L v = Inr md" and "payload_decode L (serialized_payload md) = Inr p"
    and "sum_in_range p" and "sys_now X s1 = (n, s2)" "clock_in_range n"
    and "n \<le> sint (timestamp p) + sint (ttl p)"
  shows "kdb_get L X a s = (Ok (Some md), s2)"
  using expired_exact [OF assms(5,6,4), of L] assms(7)
  by (simp add: kdb_get_stored [OF assms(1-3)] try_then_def)

text \<open>
  C26: what was stored is read back. After a successful \<open>put\<close>, a \<open>get\<close> of any address with
  the same body finds the record, and as long as its time to live has not run out it returns
  exactly the stored metadata and leaves the database as it is.
\<close>

theorem put_get_roundtrip:
  assumes ok: "rocks_ok X view" and rt: "md_roundtrip L"
    and put: "kdb_put L X a md s = (Ok (), t)" and same: "body b = body a"
    and pl: "payload_decode L (serialized_payload md) = Inr p" and rng: "sum_in_range p"
    and read: "rocks_get X (body b) t = (Inr w, t1)"
    and clock: "sys_now X t1 = (n, t2)" "clock_in_range n"
    and alive: "n \<le> sint (timestamp p) + sint (ttl p)"
  shows "kdb_get L X b t = (Ok (Some md), t2) \<and> view t2 = view t"
proof -
  from ok rt put obtain raw where st: "view t = (view s)(body a \<mapsto> raw)"
    and dec: "md_decode L raw = Inr md"
    by (cases rule: kdb_put_cases) auto
  from rocks_getD [OF ok read] st same have w: "w = Some raw" and v1: "view t1 = view t" by auto
  have "kdb_get L X b t = (Ok (Some md), t2)"
    by (rule get_live [OF read [unfolded w] dec pl rng clock alive])
  then show ?thesis using sys_nowD [OF ok clock(1)] v1 by simp
qed

lemma expired_no_panic:
  assumes "\<And>u. 0 \<le> fst (sys_now X u)" and "\<not> overflow_checks L \<or> sum_in_range p"
  shows "expired L X p s \<noteq> (Panic, t)"
proof
  assume "expired L X p s = (Panic, t)"
  with assms(1) have "add_i64 (overflow_checks L) (timestamp p) (ttl p) = (Panic :: (i64, ext_error) result)"
    by (auto simp: expired_def io_eqs unix_secs_def not_less [symmetric])
  with assms(2) show False by (auto simp: add_i64_def sum_in_range_def split: if_splits)
qed

lemma checks_never_panic:
  assumes ready: "kdb_ready L X view s"
    and clock: "\<And>u. 0 \<le> fst (sys_now X u)"
    and fits: "\<not> overflow_checks L \<or>
      (sum_in_range new \<and> (\<forall>md p. kdb_lookup L view s (body a) = Some md \<longrightarrow>
         payload_decode L (serialized_payload md) = Inr p \<longrightarrow> sum_in_range p))"
  shows "fst (kdb_get L X a s) \<noteq> Panic \<and> fst (check_timestamp L X a new s) \<noteq> Panic"
proof -
  note ok = kdb_readyD(1) [OF ready]
  obtain r t where g: "kdb_get L X a s = (r, t)" by fastforce
  have r: "r \<noteq> Panic"
    using ok g
  proof (cases rule: kdb_get_cases)
    case (undecodable v)
    with stored_okD [OF kdb_readyD(3) [OF ready]] show ?thesis by blast
  next
    case (clock_panic v md p s1 s2)
    then have "kdb_lookup L view s (body a) = Some md" by (simp add: kdb_lookup_Some)
    with fits clock_panic(5) have "\<not> overflow_checks L \<or> sum_in_range p" by blast
    from expired_no_panic [OF clock this] clock_panic show ?thesis by blast
  qed simp_all
  have "check_timestamp L X a new s \<noteq> (Panic, u)" for u
  proof
    assume c: "check_timestamp L X a new s = (Panic, u)"
    with g r obtain md where md: "r = Ok (Some md)"
      by (auto simp: check_timestamp_def io_eqs split: option.splits)
    have new: "\<not> overflow_checks L \<or> sum_in_range new" using fits by blast
    have "admissible L (body a) md" using kdb.get_admissible [OF ready] g md by blast
    then obtain q where "payload_decode L (serialized_payload md) = Inr q"
      by (auto simp: admissible_def not_isl_iff)
    with c g md expired_no_panic [OF clock new] show False
      by (auto simp: check_timestamp_def io_eqs split: if_splits)
  qed
  with r g show ?thesis by (metis fst_conv prod.collapse)
qed

text \<open>
  Reads never panic on a database that this program filled. On a ready database whose
  stored payloads do not overflow (or in a release build), with a clock past the epoch, \<open>get\<close>
  and \<open>check_timestamp\<close> never panic: the \<open>unwrap\<close>s on stored bytes cannot fail.
\<close>

theorem reads_never_panic:
  assumes ready: "kdb_ready L X view s"
    and clock: "\<And>u. 0 \<le> fst (sys_now X u)"
    and fits: "\<not> overflow_checks L \<or>
      (sum_in_range new \<and> (\<forall>md p. kdb_lookup L view s (body a) = Some md \<longrightarrow>
         payload_decode L (serialized_payload md) = Inr p \<longrightarrow> sum_in_range p))"
  shows "fst (kdb_get L X a s) \<noteq> Panic \<and> fst (check_timestamp L X a new s) \<noteq> Panic"
  using checks_never_panic [OF ready clock fits] .

text \<open>
  C38: overflow of the deadline. When timestamp plus time to live exceeds the range of an
  \<open>i64\<close> (a client asking for an entry that never expires), a release build wraps around and
  takes the payload for expired at once, and a debug build panics.
\<close>

theorem ttl_overflow:
  assumes over: "2 ^ 63 \<le> sint (timestamp p) + sint (ttl p)"
    and clock: "sys_now X s = (n, t)" "clock_in_range n"
  shows "expired L X p s = (if overflow_checks L then (Panic, t) else (Ok True, t))"
proof (cases "overflow_checks L")
  case True
  with over clock show ?thesis
    by (simp add: expired_def try_then_def unix_secs_def clock_in_range_def add_i64_def)
next
  case False
  have "sint (timestamp p) + sint (ttl p) < 2 ^ 64"
    using sint_lt [of "timestamp p"] sint_lt [of "ttl p"] by simp
  then have "sint (timestamp p + ttl p) < n"
    using sint_add_overflow [OF over] clock(2) by (simp add: clock_in_range_def)
  with False clock sint_of_clock [OF clock(2)] show ?thesis
    by (simp add: expired_def try_then_def unix_secs_def clock_in_range_def)
qed

lemma ttl_filter_stored:
  assumes "md_decode L v = Inr md" and "payload_decode L (serialized_payload md) = Inr p"
    and "sum_in_range p" and "sys_now X s = (n, t)" and "clock_in_range n"
  shows "ttl_filter L X level k v s =
    (Ok (if sint (timestamp p) + sint (ttl p) < n then Remove else Keep), t)"
  using expired_exact [OF assms(4,5,3), of L] assms(1,2)
  by (simp add: ttl_filter_def try_then_def)

lemma kdb_get_absent: "rocks_get X (body a) s = (Inr None, t) \<Longrightarrow> kdb_get L X a s = (Ok None, t)"
  by (simp add: kdb_get_def try_then_def from_sum_io_def)

text \<open>
  Compaction is unobservable. An entry that the compaction filter removed at clock
  reading \<open>n0\<close> would not have been returned by any read at a later clock reading either:
  with the entry still in place the read reports it absent (or the database error of
  deleting it), which is what it reports once the entry is gone.
\<close>

theorem compaction_unobservable:
  assumes filtered: "ttl_filter L X level k v s0 = (Ok Remove, u0)"
    and dec: "md_decode L v = Inr md" and pl: "payload_decode L (serialized_payload md) = Inr p"
    and rng: "sum_in_range p"
    and clock0: "sys_now X s0 = (n0, t0)" "clock_in_range n0"
    and read: "rocks_get X (body a) s = (Inr (Some v), s1)"
    and clock: "sys_now X s1 = (n, s2)" "clock_in_range n" and later: "n0 \<le> n"
    and gone: "rocks_get X (body a) s' = (Inr None, t')"
  shows "fst (kdb_get L X a s) = fst (kdb_get L X a s') \<or> (\<exists>e. fst (kdb_get L X a s) = Err e)"
proof -
  have "sint (timestamp p) + sint (ttl p) < n0"
    using filtered ttl_filter_stored [OF dec pl rng clock0, of level k] by (auto split: if_splits)
  with later have "\<not> n \<le> sint (timestamp p) + sint (ttl p)" by simp
  then show ?thesis
    using get_respects_ttl [OF read dec pl rng clock] kdb_get_absent [OF gone, of L]
    by (auto split: prod.splits sum.splits)
qed

text \<open>
  The freshness check. With no entry stored under the address every payload passes, one
  that has already expired included. With a live entry, an older timestamp is refused as
  outdated, then an expired payload as expired, and anything else passes; equal timestamps
  pass.
\<close>

theorem check_timestamp_table:
  assumes read: "rocks_get X (body a) s = (Inr w, s1)"
    and live: "\<And>v. w = Some v \<Longrightarrow> md_decode L v = Inr md \<and>
      payload_decode L (serialized_payload md) = Inr old \<and> sum_in_range old \<and>
      n1 \<le> sint (timestamp old) + sint (ttl old)"
    and clock1: "sys_now X s1 = (n1, s2)" "clock_in_range n1"
    and clock2: "sys_now X s2 = (n2, s3)" "clock_in_range n2" and rng: "sum_in_range new"
  shows "check_timestamp L X a new s =
    (if w = None then (Ok (Inr ()), s1)
     else if sint (timestamp new) < sint (timestamp old) then (Ok (Inl Outdated), s2)
     else if sint (timestamp new) + sint (ttl new) < n2 then (Ok (Inl ExpiredTTL), s3)
     else (Ok (Inr ()), s3))"
proof (cases w)
  case None
  with kdb_get_absent [of X a s s1 L] read show ?thesis
    by (simp add: check_timestamp_def try_then_def)
next
  case (Some v)
  note l = live [OF Some]
  have "kdb_get L X a s = (Ok (Some md), s2)"
    using get_live [OF read [unfolded Some] _ _ _ clock1] l by blast
  with Some l expired_exact [OF clock2 rng, of L] show ?thesis
    by (simp add: check_timestamp_def try_then_def)
qed

end
