(* ===== verification/Handlers.thy ===== *)
theory Handlers
  imports KeyDb
begin

text \<open>
  \<open>src/src/net/mod.rs\<close>: the handlers of \<open>GET /keys/{addr}\<close> and \<open>PUT /keys/{addr}\<close>. The
  address codec of \<open>bitcoincash_addr\<close> joins the parameters.
\<close>

record ('pk, 'sig, 'msg) net_lib = "('pk, 'sig, 'msg) model_lib" +
  addr_decode :: "string \<Rightarrow> (ext_error \<times> ext_error) + address"
  addr_encode :: "address \<Rightarrow> ext_error + string"
  addr_default :: address

definition get_key ::
  "('pk, 'sig, 'msg, 'z) net_lib_scheme \<Rightarrow> ('s, 'x) db_sys_scheme \<Rightarrow> request \<Rightarrow>
     ('s, response, server_error) io" where
  "get_key L X rq =
     try_then (lift (map_err from_address_errors (from_sum (addr_decode L (rq_addr rq))))) (\<lambda>addr.
     try_then (map_err_io from_rocks_error (kdb_get L X addr)) (\<lambda>found.
     try_then (lift (ok_or NotFound found)) (\<lambda>metadata.
     try_then (lift (unwrap (from_sum (md_encode L metadata)))) (\<lambda>raw_payload.
     lift (Ok \<lparr>status = 200, rs_headers = [], rs_body = raw_payload\<rparr>)))))"

definition put_key ::
  "('pk, 'sig, 'msg, 'z) net_lib_scheme \<Rightarrow> ('s, 'x) db_sys_scheme \<Rightarrow> request \<Rightarrow>
     ('s, response, server_error) io" where
  "put_key L X rq =
     try_then (lift (read_body MetadataDecode [] (rq_chunks rq))) (\<lambda>metadata_raw.
     try_then (lift (map_err (\<lambda>_. MetadataDecode) (from_sum (md_decode L metadata_raw))))
       (\<lambda>metadata.
     try_then (lift (map_err from_address_errors (from_sum (addr_decode L (rq_addr rq))))) (\<lambda>addr.
     try_then (lift (if scheme metadata = 1
                     then map_err Validation (validate L (secp256k1 L) addr metadata)
                     else Err UnsupportedSigScheme)) (\<lambda>_.
     try_then (lift (map_err (\<lambda>_. PayloadDecode)
                 (from_sum (payload_decode L (serialized_payload metadata))))) (\<lambda>payload.
     try_then (map_err_io from_rocks_error (check_timestamp L X addr payload)) (\<lambda>checked.
     try_then (lift (map_err from_validation_error (from_sum checked))) (\<lambda>_.
     try_then (map_err_io from_rocks_error (kdb_put L X addr metadata)) (\<lambda>_.
     lift (Ok \<lparr>status = 200, rs_headers = [], rs_body = []\<rparr>)))))))))"

section \<open>The database stays ready\<close>

lemma kdb_get_keeps [keeps_intros]: "keeps (kdb_ready L X view) (kdb_get L X a)"
  by (rule keepsI) (rule kdb.get_ready)

lemma check_timestamp_keeps [keeps_intros]: "keeps (kdb_ready L X view) (check_timestamp L X a p)"
  by (rule keepsI) (rule kdb.check_ready)

lemma kdb_put_keeps [keeps_intros]:
  "admissible L (body a) md \<Longrightarrow> keeps (kdb_ready L X view) (kdb_put L X a md)"
  by (rule keepsI) (rule kdb.put_ready)

lemma get_key_keeps: "keeps (kdb_ready L X view) (get_key L X rq)"
  unfolding get_key_def by (intro keeps_intros keeps_try_then)

lemma admissibleI:
  "validate L (secp256k1 L) a md = Ok () \<Longrightarrow> payload_decode L (serialized_payload md) = Inr p \<Longrightarrow>
     admissible L (body a) md"
  by (simp add: admissible_def validate_Ok_iff)

lemma put_key_keeps: "keeps (kdb_ready L X view) (put_key L X rq)"
  unfolding put_key_def
  by (intro keeps_intros keeps_try_then) (auto split: if_splits intro: admissibleI)

section \<open>Accepted uploads\<close>

text \<open>
  The checks of \<open>put_key\<close> that come before the database, as one function of the request:
  the address, the metadata and its payload, or the first error.
\<close>

definition screen_put ::
  "('pk, 'sig, 'msg, 'z) net_lib_scheme \<Rightarrow> request \<Rightarrow>
     (address \<times> address_metadata \<times> payload, server_error) result" where
  "screen_put L rq =
     and_then (read_body MetadataDecode [] (rq_chunks rq)) (\<lambda>raw.
     and_then (map_err (\<lambda>_. MetadataDecode) (from_sum (md_decode L raw))) (\<lambda>md.
     and_then (map_err from_address_errors (from_sum (addr_decode L (rq_addr rq)))) (\<lambda>addr.
     and_then (if scheme md = 1 then map_err Validation (validate L (secp256k1 L) addr md)
               else Err UnsupportedSigScheme) (\<lambda>_.
     and_then (map_err (\<lambda>_. PayloadDecode) (from_sum (payload_decode L (serialized_payload md))))
       (\<lambda>p. Ok (addr, md, p))))))"

definition store_put ::
  "('pk, 'sig, 'msg, 'z) net_lib_scheme \<Rightarrow> ('s, 'x) db_sys_scheme \<Rightarrow> address \<Rightarrow>
     address_metadata \<Rightarrow> payload \<Rightarrow> ('s, response, server_error) io" where
  "store_put L X addr md p =
     try_then (map_err_io from_rocks_error (check_timestamp L X addr p)) (\<lambda>checked.
     try_then (lift (map_err from_validation_error (from_sum checked))) (\<lambda>_.
     try_then (map_err_io from_rocks_error (kdb_put L X addr md)) (\<lambda>_.
     lift (Ok \<lparr>status = 200, rs_headers = [], rs_body = []\<rparr>))))"

lemma put_key_split:
  "put_key L X rq = try_then (lift (screen_put L rq)) (\<lambda>(addr, md, p). store_put L X addr md p)"
  unfolding put_key_def screen_put_def store_put_def
  by (simp add: try_then_lift_and_then)

lemma screen_put_Ok:
  "screen_put L rq = Ok (addr, md, p) \<longleftrightarrow>
     (\<exists>raw. read_body MetadataDecode [] (rq_chunks rq) = Ok raw \<and> md_decode L raw = Inr md) \<and>
     addr_decode L (rq_addr rq) = Inr addr \<and> scheme md = 1 \<and>
     authentic L (body addr) md \<and> payload_decode L (serialized_payload md) = Inr p"
  by (auto simp: screen_put_def result_eqs validate_Ok_iff)

lemma screen_put_admissible: "screen_put L rq = Ok (addr, md, p) \<Longrightarrow> admissible L (body addr) md"
  by (simp add: screen_put_Ok admissible_def)

lemma screen_put_stamp:
  "screen_put L rq = Ok (addr, md, p) \<Longrightarrow> stamp_of L md = sint (timestamp p)"
  by (simp add: screen_put_Ok stamp_of_def)

lemma store_put_Ok:
  "store_put L X addr md p s = (Ok rs, u) \<longleftrightarrow>
     (\<exists>t. check_timestamp L X addr p s = (Ok (Inr ()), t) \<and> kdb_put L X addr md t = (Ok (), u)) \<and>
     rs = \<lparr>status = 200, rs_headers = [], rs_body = []\<rparr>"
  by (auto simp: store_put_def io_eqs)

lemma store_put_failed:
  assumes ready: "kdb_ready L X view s" and run: "store_put L X addr md p s = (r, u)"
    and not_Ok: "\<And>rs. r \<noteq> Ok rs" and not_DB: "\<And>e. r \<noteq> Err (DB e)"
  shows "view u = view s"
proof -
  obtain c t where c: "check_timestamp L X addr p s = (c, t)" by fastforce
  have "c \<noteq> Ok (Inr ()) \<and> (\<forall>e. c \<noteq> Err e) \<and> t = u"
  proof -
    consider "c = Ok (Inr ())" | v where "c = Ok (Inl v)" | e where "c = Err e" | "c = Panic"
      by (cases c) (auto, metis old.sum.exhaust old.unit.exhaust)
    then show ?thesis
    proof cases
      case 1
      obtain q w where q: "kdb_put L X addr md t = (q, w)" by fastforce
      have "q \<noteq> Panic"
        using kdb.put_returns [OF kdb.check_ready [OF ready c], of addr md w] q by auto
      with 1 c q run not_Ok not_DB show ?thesis
        by (cases q) (auto simp: store_put_def try_then_def map_err_io_def from_rocks_error_def)
    qed (use c run not_DB in \<open>auto simp: store_put_def try_then_def map_err_io_def from_rocks_error_def\<close>)
  qed
  with check_timestamp_refused [OF kdb_readyD(1) [OF ready] c] show ?thesis by blast
qed

text \<open>
  C14: an accepted upload. When \<open>put_key\<close> answers without an error the answer is an empty
  200; the metadata in the request body was authentic for the address in the path, used
  ECDSA and had a payload that decodes; it is now what is stored under that address; every
  other entry is as before; and it is not older than the entry that was there, unless that
  entry has passed its time to live by the clock reading that this upload itself makes when
  it reads the entry.
\<close>

theorem put_key_accepts:
  assumes ready: "kdb_ready L X view s" and run: "put_key L X rq s = (Ok rs, u)"
  shows "\<exists>raw md addr p.
    read_body MetadataDecode [] (rq_chunks rq) = Ok raw \<and> md_decode L raw = Inr md \<and>
    addr_decode L (rq_addr rq) = Inr addr \<and> scheme md = 1 \<and> authentic L (body addr) md \<and>
    payload_decode L (serialized_payload md) = Inr p \<and>
    rs = \<lparr>status = 200, rs_headers = [], rs_body = []\<rparr> \<and>
    kdb_ready L X view u \<and>
    kdb_lookup L view u (body addr) = Some md \<and>
    (\<forall>k. k \<noteq> body addr \<longrightarrow> kdb_lookup L view u k = kdb_lookup L view s k) \<and>
    (\<forall>old. kdb_lookup L view s (body addr) = Some old \<longrightarrow>
       stamp_of L old \<le> stamp_of L md \<or> lapsed L X (body addr) old s)"
proof -
  from run obtain addr md p where
    scr: "screen_put L rq = Ok (addr, md, p)" and st: "store_put L X addr md p s = (Ok rs, u)"
    by (auto simp: put_key_split io_eqs)
  from st obtain t where c: "check_timestamp L X addr p s = (Ok (Inr ()), t)"
    and q: "kdb_put L X addr md t = (Ok (), u)"
    and rs: "rs = \<lparr>status = 200, rs_headers = [], rs_body = []\<rparr>"
    by (auto simp: store_put_Ok)
  note stored = kdb.checked_put [OF ready c q screen_put_admissible [OF scr]]
  have "stamp_of L old \<le> stamp_of L md \<or> lapsed L X (body addr) old s"
    if "kdb_lookup L view s (body addr) = Some old" for old
    using stored(4) [OF that] screen_put_stamp [OF scr]
      check_timestamp_dropped [OF kdb_readyD(1) [OF ready] c that] by auto
  then show ?thesis
    using scr [unfolded screen_put_Ok] rs stored(1,2,3) by blast
qed

text \<open>
  C29: a refused upload has no effect. When \<open>put_key\<close> panics or ends in any error but one of
  the database, the database is byte for byte as before: nothing is stored, and neither a
  live entry nor an expired one is dropped.
\<close>

theorem put_key_refuses:
  assumes ready: "kdb_ready L X view s" and run: "put_key L X rq s = (r, u)"
    and "\<And>rs. r \<noteq> Ok rs" and "\<And>e. r \<noteq> Err (DB e)"
  shows "view u = view s"
proof (cases "screen_put L rq")
  case (Ok x)
  then obtain addr md p where x: "screen_put L rq = Ok (addr, md, p)" by (cases x) auto
  with run have "store_put L X addr md p s = (r, u)" by (simp add: put_key_split)
  from store_put_failed [OF ready this] assms(3,4) show ?thesis by blast
qed (use run in \<open>auto simp: put_key_split\<close>)

text \<open>What the two handlers can change, however they end: the entry of the address of the path.\<close>

lemma get_key_view:
  assumes ok: "rocks_ok X view" and run: "get_key L X rq s = (r, u)"
  shows "view u = view s \<or>
    (\<exists>addr. addr_decode L (rq_addr rq) = Inr addr \<and> view u = (view s)(body addr := None))"
proof (cases "addr_decode L (rq_addr rq)")
  case (Inr addr)
  obtain q t where g: "kdb_get L X addr s = (q, t)" by fastforce
  have "u = t"
    using run Inr g by (cases q) (auto simp: get_key_def try_then_def map_err_io_def split: result.splits)
  with kdb_get_view [OF ok g] Inr show ?thesis by blast
qed (use run in \<open>auto simp: get_key_def\<close>)

lemma put_key_view:
  assumes ready: "kdb_ready L X view s" and run: "put_key L X rq s = (r, u)"
  shows "view u = view s \<or>
    (\<exists>addr. addr_decode L (rq_addr rq) = Inr addr \<and> (\<forall>k. k \<noteq> body addr \<longrightarrow> view u k = view s k))"
proof (cases "screen_put L rq")
  case (Ok x)
  then obtain addr md p where x: "screen_put L rq = Ok (addr, md, p)" by (cases x) auto
  with run have run: "store_put L X addr md p s = (r, u)" by (simp add: put_key_split)
  obtain c t where c: "check_timestamp L X addr p s = (c, t)" by fastforce
  obtain q w where q: "kdb_put L X addr md t = (q, w)" by fastforce
  note ok = kdb_readyD(1,2) [OF ready]
  have "view w k = view t k" if "k \<noteq> body addr" for k
    using ok q by (cases rule: kdb_put_cases) (simp_all add: that)
  moreover have "u = t \<or> u = w"
  proof (cases "c = Ok (Inr ())")
    case True
    with run c q show ?thesis by (cases q) (auto simp: store_put_def try_then_def map_err_io_def)
  next
    case False
    then consider v where "c = Ok (Inl v)" | e where "c = Err e" | "c = Panic"
      by (cases c) (auto, metis old.sum.exhaust old.unit.exhaust)
    then show ?thesis
      by cases (use run c in \<open>auto simp: store_put_def try_then_def map_err_io_def\<close>)
  qed
  ultimately have "view u k = view s k" if "k \<noteq> body addr" for k
    using check_timestamp_view [OF ok(1) c] that by auto
  with x show ?thesis by (auto simp: screen_put_Ok)
qed (use run in \<open>auto simp: put_key_split\<close>)

lemma get_key_stored:
  assumes ready: "kdb_ready L X view s" and run: "get_key L X rq s = (Ok rs, u)"
  shows "\<exists>addr md raw.
    addr_decode L (rq_addr rq) = Inr addr \<and> kdb_lookup L view s (body addr) = Some md \<and>
    authentic L (body addr) md \<and> md_encode L md = Inr raw \<and>
    rs = \<lparr>status = 200, rs_headers = [], rs_body = raw\<rparr>"
proof -
  from run obtain addr md raw where
    addr: "addr_decode L (rq_addr rq) = Inr addr" and
    get: "kdb_get L X addr s = (Ok (Some md), u)" and
    raw: "md_encode L md = Inr raw" and
    rs: "rs = \<lparr>status = 200, rs_headers = [], rs_body = raw\<rparr>"
    by (auto simp: get_key_def io_eqs)
  have "kdb_lookup L view s (body addr) = Some md" and "admissible L (body addr) md"
    using kdb.get_found [OF ready get] kdb.get_admissible [OF ready get] by blast+
  with addr raw rs show ?thesis by (auto simp: admissible_def)
qed

text \<open>
  Reading. When \<open>get_key\<close> answers without an error the answer is a 200 whose body is
  the encoding of the metadata stored under the address of the path, and that metadata is
  authentic for the address: a server cannot hand out an entry that the owner of the key
  did not sign.
\<close>

theorem get_key_authentic:
  assumes ready: "kdb_ready L X view s" and run: "get_key L X rq s = (Ok rs, u)"
  shows "\<exists>addr md raw.
    addr_decode L (rq_addr rq) = Inr addr \<and> kdb_lookup L view s (body addr) = Some md \<and>
    authentic L (body addr) md \<and> md_encode L md = Inr raw \<and>
    rs = \<lparr>status = 200, rs_headers = [], rs_body = raw\<rparr>"
  by (rule get_key_stored [OF ready run])

text \<open>
  C37: a first upload is not checked for expiry. When nothing is stored under the address,
  \<open>put_key\<close> stores metadata whose payload had already expired and answers 200; the next read
  at such a clock deletes it and answers that nothing is there.
\<close>

theorem expired_first_upload:
  assumes scr: "screen_put L rq = Ok (addr, md, p)"
    and read: "rocks_get X (body addr) s = (Inr None, s1)"
    and raw: "md_encode L md = Inr raw" "md_decode L raw = Inr md"
    and stored: "rocks_put X (body addr) raw s1 = (Inr (), s2)"
    and rng: "sum_in_range p"
    and read2: "rq_addr rq' = rq_addr rq" "rocks_get X (body addr) s2 = (Inr (Some raw), s3)"
    and clock: "sys_now X s3 = (n, s4)" "clock_in_range n"
    and passed: "sint (timestamp p) + sint (ttl p) < n"
    and del: "rocks_delete X (body addr) s4 = (Inr (), s5)"
  shows "put_key L X rq s = (Ok \<lparr>status = 200, rs_headers = [], rs_body = []\<rparr>, s2) \<and>
         get_key L X rq' s2 = (Err NotFound, s5)"
proof -
  have "check_timestamp L X addr p s = (Ok (Inr ()), s1)"
    using kdb_get_absent [OF read, of L] by (simp add: check_timestamp_def try_then_def)
  moreover have "kdb_put L X addr md s1 = (Ok (), s2)"
    using raw stored by (simp add: kdb_put_def from_sum_io_def)
  moreover have "kdb_get L X addr s2 = (Ok None, s5)"
    using get_respects_ttl [OF read2(2) raw(2) _ rng clock] scr passed del
    by (simp add: screen_put_Ok)
  moreover have "addr_decode L (rq_addr rq') = Inr addr"
    using scr read2(1) by (simp add: screen_put_Ok)
  ultimately show ?thesis
    using scr by (simp add: put_key_split store_put_def get_key_def try_then_def map_err_io_def)
qed

end
