(* ===== verification/Scripts.thy ===== *)
theory Scripts
  imports Models
begin

text \<open>
  The script formats of \<open>src/src/bitcoin/mod.rs\<close>: the outputs of an invoice
  (\<open>generate_outputs\<close>), the pay-to-public-key-hash pattern (\<open>extract_pubkey_hash\<close>) and the
  peering announcement in an \<open>OP_RETURN\<close> output (\<open>extract_op_return\<close>). Both formats are
  interpretations of \<open>wire_format\<close>.
\<close>

definition PRICE :: u64 where
  "PRICE = 5"

definition KEYSERVER_PREFIX :: bytes where
  "KEYSERVER_PREFIX = as_bytes ''keyserver''"

definition subslice :: "nat \<Rightarrow> nat \<Rightarrow> 'a list \<Rightarrow> 'a list" where
  "subslice i j xs = take (j - i) (drop i xs)"

lemma subslice_drop: "i \<le> j \<Longrightarrow> subslice i j xs @ drop j xs = drop i xs"
proof -
  assume "i \<le> j"
  then have "drop j xs = drop (j - i) (drop i xs)" by simp
  then show ?thesis by (simp only: subslice_def append_take_drop_id)
qed

lemma length_subslice [simp]: "j \<le> length xs \<Longrightarrow> length (subslice i j xs) = j - i"
  by (simp add: subslice_def)

lemma subslice_0: "subslice 0 j xs = take j xs"
  by (simp add: subslice_def)

section \<open>Reading scripts\<close>

text \<open>
  Every subslice and index of \<open>extract_op_return\<close> and \<open>extract_pubkey_hash\<close> is in range after
  the length test that precedes it, so none of them can panic. The default address, whose
  remaining fields the announced one takes, is the parameter \<open>dflt\<close>.
\<close>

definition extract_op_return :: "settings \<Rightarrow> address \<Rightarrow> bytes \<Rightarrow> (string \<times> address) option" where
  "extract_op_return S dflt script =
     (if length script \<le> 2 + 9 + 20 then None
      else if script ! 0 \<noteq> 106 then None
      else if unat (script ! 1) \<noteq> length script - 2 then None
      else if subslice 2 11 script \<noteq> KEYSERVER_PREFIX then None
      else
        (case from_utf8 (drop 31 script) of
           None \<Rightarrow> None
         | Some url \<Rightarrow>
             if url = ''http://'' @ bind_addr S then None
             else
               (let bitcoin_addr = dflt\<lparr>body := subslice 11 31 script,
                                        addr_network := into_bch_network (s_network S)\<rparr>
                in Some (url, bitcoin_addr))))"

definition extract_pubkey_hash :: "bytes \<Rightarrow> bytes option" where
  "extract_pubkey_hash raw_script =
     (if length raw_script \<noteq> 25 then None
      else if subslice 0 3 raw_script \<noteq> [118, 169, 20] then None
      else if subslice 23 25 raw_script \<noteq> [136, 172] then None
      else Some (subslice 3 23 raw_script))"

section \<open>Writing scripts\<close>

definition p2pkh_script :: "bytes \<Rightarrow> bytes" where
  "p2pkh_script pk_hash = [118, 169, 20] @ pk_hash @ [136, 172]"

text \<open>
  \<open>base_url.len() as u8\<close> keeps the low eight bits of the length; the sum is a \<open>u8\<close> addition
  and overflows as the build profile says.
\<close>

definition generate_outputs ::
  "bool \<Rightarrow> bytes \<Rightarrow> string \<Rightarrow> bytes \<Rightarrow> (tx_output list, server_error) result" where
  "generate_outputs checks pk_hash base_url put_pk_hash =
     (let p2pkh_output = \<lparr>amount = Some PRICE, out_script = p2pkh_script pk_hash\<rparr>;
          raw_base_url = as_bytes base_url
      in and_then (add_u8 checks (9 + 20) (word_of_nat (length base_url))) (\<lambda>len.
         let announcement = [106, len] @ KEYSERVER_PREFIX @ put_pk_hash @ raw_base_url;
             op_return_output = \<lparr>amount = Some 0, out_script = announcement\<rparr>
         in Ok [p2pkh_output, op_return_output]))"

text \<open>The announcement of an address body and a URL, with its length byte, as it is parsed.\<close>

definition op_return_script :: "u8 \<Rightarrow> bytes \<Rightarrow> string \<Rightarrow> bytes" where
  "op_return_script len put_pk_hash base_url =
     [106, len] @ KEYSERVER_PREFIX @ put_pk_hash @ as_bytes base_url"

lemma prefix_length [simp]: "length KEYSERVER_PREFIX = 9"
  by (simp add: KEYSERVER_PREFIX_def)

lemma generate_outputs_eq:
  "generate_outputs checks h url k =
     and_then (add_u8 checks 29 (word_of_nat (length url))) (\<lambda>len.
       Ok [\<lparr>amount = Some PRICE, out_script = p2pkh_script h\<rparr>,
           \<lparr>amount = Some 0, out_script = op_return_script len k url\<rparr>])"
  by (simp add: generate_outputs_def op_return_script_def)

section \<open>Pay-to-public-key-hash\<close>

lemma extract_p2pkh: "length h = 20 \<Longrightarrow> extract_pubkey_hash (p2pkh_script h) = Some h"
  by (simp add: extract_pubkey_hash_def p2pkh_script_def subslice_def numeral_eq_Suc)

interpretation p2pkh: wire_format p2pkh_script extract_pubkey_hash "\<lambda>h. length h = 20"
  by unfold_locales (rule extract_p2pkh)

lemma extract_pubkey_hash_Some:
  assumes "extract_pubkey_hash scr = Some h"
  shows "length h = 20" and "scr = p2pkh_script h"
proof -
  from assms have len: "length scr = 25" and pre: "subslice 0 3 scr = [118, 169, 20]"
    and post: "subslice 23 25 scr = [136, 172]" and h: "h = subslice 3 23 scr"
    by (auto simp: extract_pubkey_hash_def split: if_splits)
  show "length h = 20" using len h by (simp add: subslice_def)
  have "scr = subslice 0 3 scr @ subslice 3 23 scr @ subslice 23 25 scr @ drop 25 scr"
    by (simp only: subslice_drop) (simp add: subslice_drop subslice_0)
  then show "scr = p2pkh_script h"
    using pre post h len by (simp add: p2pkh_script_def)
qed

lemma extract_pubkey_hash_iff:
  "extract_pubkey_hash scr = Some h \<longleftrightarrow> length h = 20 \<and> scr = p2pkh_script h"
  using extract_p2pkh extract_pubkey_hash_Some by blast

section \<open>Peering announcements\<close>

lemma length_byte_exact:
  fixes n k :: nat
  assumes "(29 + n) mod 256 = 9 + k + n"
  shows "k = 20" and "n \<le> 226"
proof -
  show "n \<le> 226"
  proof (rule ccontr)
    assume n: "\<not> n \<le> 226"
    have "(29 + n) mod 256 < 256" by simp
    with assms n have "(29 + n) mod 256 = 29 + n - 256"
      by (simp add: le_mod_geq)
    with assms show False by simp
  qed
  with assms show "k = 20" by simp
qed

lemma op_return_fields:
  "op_return_script len k url ! 0 = 106"
  "op_return_script len k url ! 1 = len"
  "op_return_script len k url ! Suc 0 = len"
  "length (op_return_script len k url) = 11 + length k + length url"
  "subslice 2 11 (op_return_script len k url) = KEYSERVER_PREFIX"
  "length k = 20 \<Longrightarrow> subslice 11 31 (op_return_script len k url) = k"
  "length k = 20 \<Longrightarrow> drop 31 (op_return_script len k url) = as_bytes url"
  by (simp_all add: op_return_script_def subslice_def)

lemma add_u8_length:
  "add_u8 checks 29 (word_of_nat n) = Ok len \<Longrightarrow> unat len = (29 + n) mod 256"
  by (auto simp: add_u8_def unat_word_ariths unsigned_of_nat take_bit_eq_mod mod_simps
      split: if_splits)

lemma generate_outputs_Ok:
  "generate_outputs checks h url k = Ok outs \<longleftrightarrow>
     (\<exists>len. add_u8 checks 29 (word_of_nat (length url)) = (Ok len :: (u8, server_error) result) \<and>
        outs = [\<lparr>amount = Some PRICE, out_script = p2pkh_script h\<rparr>,
                \<lparr>amount = Some 0, out_script = op_return_script len k url\<rparr>])"
  by (auto simp: generate_outputs_eq and_then_eq_Ok)

text \<open>The URLs and address bodies an announcement can carry.\<close>

definition announceable :: "settings \<Rightarrow> bytes \<times> string \<Rightarrow> bool" where
  "announceable S = (\<lambda>(k, url). length k = 20 \<and> url \<noteq> [] \<and> length url \<le> 226 \<and>
     url \<noteq> ''http://'' @ bind_addr S)"

lemma extract_op_return_mismatch:
  "length scr \<le> 2 + 9 + 20 \<or> unat (scr ! 1) \<noteq> length scr - 2 \<Longrightarrow>
     extract_op_return S dflt scr = None"
  by (auto simp: extract_op_return_def)

lemma extract_op_return_built:
  assumes len: "unat len = (29 + length url) mod 256" and str: "rust_str url"
  shows "extract_op_return S dflt (op_return_script len k url) =
    (if announceable S (k, url)
     then Some (url, dflt\<lparr>body := k, addr_network := into_bch_network (s_network S)\<rparr>)
     else None)"
proof -
  let ?scr = "op_return_script len k url"
  have n: "length ?scr - 2 = 9 + length k + length url"
    by (simp add: op_return_fields)
  show ?thesis
  proof (cases "length k = 20 \<and> url \<noteq> [] \<and> length url \<le> 226")
    case True
    then have "\<not> length ?scr \<le> 2 + 9 + 20" and "unat (?scr ! 1) = length ?scr - 2"
      using len n by (simp_all add: op_return_fields)
    with True show ?thesis
      unfolding extract_op_return_def Let_def
      by (simp add: op_return_fields from_utf8_as_bytes [OF str] announceable_def)
  next
    case False
    have "length ?scr \<le> 2 + 9 + 20 \<or> unat (?scr ! 1) \<noteq> length ?scr - 2"
    proof (rule ccontr)
      assume "\<not> ?thesis"
      then have "\<not> 11 + length k + length url \<le> 31"
        and "(29 + length url) mod 256 = 9 + length k + length url"
        using len n by (simp_all add: op_return_fields)
      then have "length k = 20 \<and> 0 < length url \<and> length url \<le> 226"
        using length_byte_exact [of "length url" "length k"] by simp
      with False show False by simp
    qed
    from extract_op_return_mismatch [OF this] False show ?thesis
      by (auto simp: announceable_def)
  qed
qed

interpretation announcement: wire_format
    "\<lambda>(k, url). op_return_script (word_of_nat (29 + length url)) k url"
    "\<lambda>scr. map_option (\<lambda>(url, a). (body a, url)) (extract_op_return S dflt scr)"
    "\<lambda>(k, url). announceable S (k, url) \<and> rust_str url" for S dflt
proof (unfold_locales, goal_cases)
  case (1 x)
  obtain k url where x: "x = (k, url)" by fastforce
  have "unat (word_of_nat (29 + length url) :: u8) = (29 + length url) mod 256"
    by (simp only: unsigned_of_nat take_bit_eq_mod) simp
  from extract_op_return_built [OF this, of S dflt k] 1 show ?case
    by (simp add: x del: of_nat_add)
qed

text \<open>
  C27: which announcements reach other servers. Whenever \<open>generate_outputs\<close> returns, in
  either build profile, \<open>extract_op_return\<close> reads the second output back as exactly the URL
  and the address body that went in, on the network of the settings, if the body has 20
  bytes, the URL has between 1 and 226 bytes and is not the reader's own; in every other
  case it reads nothing. No malformed pair is ever extracted.
\<close>

theorem announcement_readable:
  assumes "generate_outputs checks h url k = Ok outs"
    and "rust_str url"
  shows "extract_op_return S dflt (out_script (outs ! 1)) =
    (if length k = 20 \<and> url \<noteq> [] \<and> length url \<le> 226 \<and> url \<noteq> ''http://'' @ bind_addr S
     then Some (url, dflt\<lparr>body := k, addr_network := into_bch_network (s_network S)\<rparr>)
     else None)"
proof -
  from assms(1) obtain len where
    len: "add_u8 checks 29 (word_of_nat (length url)) = (Ok len :: (u8, server_error) result)" and
    outs: "out_script (outs ! 1) = op_return_script len k url"
    by (auto simp: generate_outputs_Ok)
  from extract_op_return_built [OF add_u8_length [OF len] assms(2), of S dflt k] outs
  show ?thesis by (simp add: announceable_def)
qed

end
