(* ===== verification/Wallet.thy ===== *)
theory Wallet
  imports Scripts
begin

text \<open>
  \<open>WalletState\<close> of \<open>src/src/bitcoin/mod.rs\<close>: the set of addresses that invoices were issued
  for and that are not paid yet. First the operations one at a time, with the contract
  \<open>address_pool\<close>; then the same check as the two critical sections that the code really
  runs (a read lock for the membership test, a write lock for the removal), interleaved
  with other threads.
\<close>

type_synonym wallet_state = "bytes set"

definition wallet_add :: "wallet_state \<Rightarrow> bytes \<Rightarrow> wallet_state" where
  "wallet_add w addr = insert addr w"

definition wallet_remove :: "wallet_state \<Rightarrow> bytes \<Rightarrow> wallet_state" where
  "wallet_remove w addr = w - {addr}"

definition check_p2pkh :: "wallet_state \<Rightarrow> txout \<Rightarrow> bool \<times> wallet_state" where
  "check_p2pkh w out =
     (if txo_value out \<noteq> PRICE then (False, w)
      else
        (case extract_pubkey_hash (script_pubkey out) of
           Some pubkey_hash \<Rightarrow>
             if pubkey_hash \<in> w then (True, wallet_remove w pubkey_hash) else (False, w)
         | None \<Rightarrow> (False, w)))"

text \<open>\<open>Iterator::any\<close> stops at the first output that passes, so one address is flushed at most.\<close>

fun any_output :: "wallet_state \<Rightarrow> txout list \<Rightarrow> bool \<times> wallet_state" where
  "any_output w [] = (False, w)"
| "any_output w (out # outs) =
     (case check_p2pkh w out of
        (True, w') \<Rightarrow> (True, w')
      | (False, w') \<Rightarrow> any_output w' outs)"

definition check_outputs :: "wallet_state \<Rightarrow> transaction \<Rightarrow> bool \<times> wallet_state" where
  "check_outputs w tx = any_output w (tx_outputs tx)"

section \<open>Which outputs pay\<close>

definition pays_to :: "txout \<Rightarrow> bytes \<Rightarrow> bool" where
  "pays_to out h \<longleftrightarrow> txo_value out = PRICE \<and> length h = 20 \<and> script_pubkey out = p2pkh_script h"

definition tx_pays :: "transaction \<Rightarrow> bytes \<Rightarrow> bool" where
  "tx_pays tx h \<longleftrightarrow> list_ex (\<lambda>out. pays_to out h) (tx_outputs tx)"

lemma pays_to_unique: "pays_to out g \<Longrightarrow> pays_to out h \<Longrightarrow> g = h"
  unfolding pays_to_def using p2pkh.build_inj by metis

lemma check_p2pkh_True: "h \<in> w \<Longrightarrow> pays_to out h \<Longrightarrow> check_p2pkh w out = (True, w - {h})"
  by (simp add: check_p2pkh_def pays_to_def extract_p2pkh wallet_remove_def)

lemma check_p2pkh_False: "(\<And>h. h \<in> w \<Longrightarrow> \<not> pays_to out h) \<Longrightarrow> check_p2pkh w out = (False, w)"
  by (auto simp: check_p2pkh_def pays_to_def extract_pubkey_hash_iff split: option.splits)

lemma any_output_cases:
  obtains (paid) h out where "any_output w outs = (True, w - {h})" "h \<in> w" "out \<in> set outs"
      "pays_to out h"
  | (unpaid) "any_output w outs = (False, w)" "\<And>out h. out \<in> set outs \<Longrightarrow> h \<in> w \<Longrightarrow> \<not> pays_to out h"
proof (induction outs arbitrary: thesis)
  case Nil
  from Nil(2) show ?case by simp
next
  case (Cons out outs)
  show ?case
  proof (cases "\<exists>h \<in> w. pays_to out h")
    case True
    then obtain h where "h \<in> w" "pays_to out h" by blast
    with Cons.prems(1) [of h out] check_p2pkh_True show ?thesis by simp
  next
    case False
    then have skip: "any_output w (out # outs) = any_output w outs"
      using check_p2pkh_False [of w out] by auto
    show ?thesis
    proof (rule Cons.IH)
      fix h out'
      assume "any_output w outs = (True, w - {h})" "h \<in> w" "out' \<in> set outs" "pays_to out' h"
      with Cons.prems(1) [of h out'] skip show ?thesis by simp
    next
      assume "any_output w outs = (False, w)"
        and "\<And>out h. out \<in> set outs \<Longrightarrow> h \<in> w \<Longrightarrow> \<not> pays_to out h"
      with Cons.prems(2) skip False show ?thesis by (metis set_ConsD)
    qed
  qed
qed

section \<open>The contract of an address pool\<close>

text \<open>
  Adding an address, and claiming one with a payment: a claim that succeeds takes exactly
  one held address that the payment pays, a claim that fails changes nothing and means
  that no held address is paid.
\<close>

datatype ('a, 't) pool_op = Add 'a | Claim 't

fun run_pool :: "('w \<Rightarrow> 'a \<Rightarrow> 'w) \<Rightarrow> ('w \<Rightarrow> 't \<Rightarrow> bool \<times> 'w) \<Rightarrow> 'w \<Rightarrow> ('a, 't) pool_op list \<Rightarrow>
    nat \<times> 'w" where
  "run_pool add claim w [] = (0, w)"
| "run_pool add claim w (Add a # ops) = run_pool add claim (add w a) ops"
| "run_pool add claim w (Claim t # ops) =
     (case claim w t of (ok, w1) \<Rightarrow>
        (case run_pool add claim w1 ops of (n, w2) \<Rightarrow> (if ok then Suc n else n, w2)))"

fun is_add :: "('a, 't) pool_op \<Rightarrow> bool" where
  "is_add (Add _) = True"
| "is_add (Claim _) = False"

definition adds :: "('a, 't) pool_op list \<Rightarrow> nat" where
  "adds ops = length (filter is_add ops)"

lemma adds_simps [simp]:
  "adds [] = 0" "adds (Add a # ops) = Suc (adds ops)" "adds (Claim t # ops) = adds ops"
  by (simp_all add: adds_def)

locale address_pool =
  fixes add :: "'w \<Rightarrow> 'a \<Rightarrow> 'w"
    and claim :: "'w \<Rightarrow> 't \<Rightarrow> bool \<times> 'w"
    and held :: "'w \<Rightarrow> 'a set"
    and pays :: "'t \<Rightarrow> 'a \<Rightarrow> bool"
  assumes held_add: "held (add w a) = insert a (held w)"
    and claim_taken: "claim w t = (True, w') \<Longrightarrow> \<exists>a. a \<in> held w \<and> pays t a \<and> held w' = held w - {a}"
    and claim_kept: "claim w t = (False, w') \<Longrightarrow> w' = w \<and> (\<forall>a. a \<in> held w \<longrightarrow> \<not> pays t a)"
begin

lemma claim_iff: "fst (claim w t) \<longleftrightarrow> (\<exists>a. a \<in> held w \<and> pays t a)"
proof (cases "claim w t")
  case (Pair ok w')
  then show ?thesis
    using claim_taken [of w t w'] claim_kept [of w t w'] by (cases ok) auto
qed

lemma claims_bounded:
  "finite (held w) \<Longrightarrow> run_pool add claim w ops = (n, w') \<Longrightarrow>
     n + card (held w') \<le> card (held w) + adds ops \<and> finite (held w')"
proof (induction ops arbitrary: w n)
  case Nil
  then show ?case by simp
next
  case (Cons op ops)
  show ?case
  proof (cases op)
    case (Add a)
    have "card (insert a (held w)) \<le> Suc (card (held w))" by (rule card_insert_le_m1) auto
    with Cons.IH [of "add w a" n] Cons.prems Add show ?thesis by (simp add: held_add)
  next
    case (Claim t)
    obtain ok w1 where c: "claim w t = (ok, w1)" by fastforce
    obtain m w2 where r: "run_pool add claim w1 ops = (m, w2)" by fastforce
    show ?thesis
    proof (cases ok)
      case True
      then obtain a where a: "a \<in> held w" "held w1 = held w - {a}"
        using claim_taken [of w t w1] c by auto
      have "Suc (card (held w1)) = card (held w)"
        unfolding a(2) using Cons.prems(1) a(1) by (rule card.remove [symmetric])
      moreover have "finite (held w1)" and "n = Suc m" and "w' = w2"
        using a(2) Cons.prems Claim c r True by simp_all
      ultimately show ?thesis using Cons.IH [of w1 m] r Claim by simp
    next
      case False
      then have "w1 = w" using claim_kept [of w t w1] c by simp
      with Cons.IH [of w1 m] Cons.prems Claim c r False show ?thesis by auto
    qed
  qed
qed

end

interpretation wallet: address_pool wallet_add check_outputs "\<lambda>w. w" tx_pays
proof (unfold_locales, goal_cases)
  case (1 w a)
  show ?case by (simp add: wallet_add_def)
next
  case (2 w t w')
  then show ?case
    by (cases rule: any_output_cases [of w "tx_outputs t"])
       (auto simp: check_outputs_def tx_pays_def list_ex_iff)
next
  case (3 w t w')
  then show ?case
    by (cases rule: any_output_cases [of w "tx_outputs t"])
       (auto simp: check_outputs_def tx_pays_def list_ex_iff)
qed

text \<open>
  An invoice address is redeemed once. Run one after the other, whatever invoices are
  issued and whatever transactions are presented, the payments accepted and the addresses
  still waiting are together no more than the addresses that were issued or waiting at the
  start.
\<close>

theorem payments_bounded_by_invoices:
  assumes "finite w" and "run_pool wallet_add check_outputs w ops = (accepted, w')"
  shows "accepted + card w' \<le> card w + adds ops"
  using wallet.claims_bounded [OF assms] by blast

text \<open>
  What \<open>check_outputs\<close> accepts. It accepts a transaction exactly when some output pays
  the price to a waiting address with a plain P2PKH script, and then it forgets one address
  that the transaction pays; otherwise the wallet is unchanged.
\<close>

theorem check_outputs_spec:
  "case check_outputs w tx of (ok, w') \<Rightarrow>
     (ok \<longleftrightarrow> (\<exists>h. h \<in> w \<and> tx_pays tx h)) \<and>
     (if ok then \<exists>h. h \<in> w \<and> tx_pays tx h \<and> w' = w - {h} else w' = w)"
proof -
  obtain ok w' where c: "check_outputs w tx = (ok, w')" by fastforce
  show ?thesis
    using wallet.claim_iff [of w tx] wallet.claim_taken [of w tx w'] wallet.claim_kept [of w tx w'] c
    by (cases ok) auto
qed

section \<open>The two critical sections, interleaved\<close>

text \<open>
  \<open>check_p2pkh\<close> takes the read lock to test membership, releases it, and takes the write lock
  to remove the address; \<open>add\<close> and \<open>remove\<close> take the write lock. Each locked section is one
  step; a thread that handles a payment is at one of its outputs (\<open>Scan\<close>), between the two
  sections (\<open>Seen\<close>) or finished.
\<close>

datatype payer = Scan "txout list" | Seen bytes "txout list" | Done bool

record race =
  pool :: wallet_state
  payer_of :: "nat \<Rightarrow> payer"

definition output_hash :: "txout \<Rightarrow> bytes option" where
  "output_hash out = (if txo_value out \<noteq> PRICE then None else extract_pubkey_hash (script_pubkey out))"

inductive race_step :: "race \<Rightarrow> race \<Rightarrow> bool" where
  skip: "payer_of s i = Scan (out # outs) \<Longrightarrow> output_hash out = None \<Longrightarrow>
    race_step s (s\<lparr>payer_of := (payer_of s)(i := Scan outs)\<rparr>)"
| absent: "payer_of s i = Scan (out # outs) \<Longrightarrow> output_hash out = Some h \<Longrightarrow> h \<notin> pool s \<Longrightarrow>
    race_step s (s\<lparr>payer_of := (payer_of s)(i := Scan outs)\<rparr>)"
| present: "payer_of s i = Scan (out # outs) \<Longrightarrow> output_hash out = Some h \<Longrightarrow> h \<in> pool s \<Longrightarrow>
    race_step s (s\<lparr>payer_of := (payer_of s)(i := Seen h outs)\<rparr>)"
| flush: "payer_of s i = Seen h outs \<Longrightarrow>
    race_step s (s\<lparr>pool := wallet_remove (pool s) h, payer_of := (payer_of s)(i := Done True)\<rparr>)"
| exhausted: "payer_of s i = Scan [] \<Longrightarrow>
    race_step s (s\<lparr>payer_of := (payer_of s)(i := Done False)\<rparr>)"
| issue: "race_step s (s\<lparr>pool := wallet_add (pool s) a\<rparr>)"

inductive_cases race_stepE: "race_step s t"

lemmas race_intros = race_step.intros

lemma check_p2pkh_hash:
  "check_p2pkh w out = (case output_hash out of None \<Rightarrow> (False, w)
     | Some h \<Rightarrow> if h \<in> w then (True, wallet_remove w h) else (False, w))"
  by (simp add: check_p2pkh_def output_hash_def)

lemma alone_runs:
  "payer_of s i = Scan outs \<Longrightarrow> any_output (pool s) outs = (ok, w') \<Longrightarrow>
     race_step\<^sup>*\<^sup>* s (s\<lparr>pool := w', payer_of := (payer_of s)(i := Done ok)\<rparr>)"
proof (induction outs arbitrary: s)
  case Nil
  then have "race_step s (s\<lparr>payer_of := (payer_of s)(i := Done False)\<rparr>)"
    by (intro race_step.exhausted)
  then have "race_step\<^sup>*\<^sup>* s (s\<lparr>payer_of := (payer_of s)(i := Done False)\<rparr>)"
    by (rule r_into_rtranclp)
  moreover have "s\<lparr>pool := pool s, payer_of := f\<rparr> = s\<lparr>payer_of := f\<rparr>" for f by simp
  moreover have "ok = False" and "w' = pool s" using Nil by simp_all
  ultimately show ?case by (simp only:)
next
  case (Cons out outs)
  let ?next = "s\<lparr>payer_of := (payer_of s)(i := Scan outs)\<rparr>"
  let ?fin = "s\<lparr>pool := w', payer_of := (payer_of s)(i := Done ok)\<rparr>"
  have later: "race_step\<^sup>*\<^sup>* s ?fin"
    if "race_step s ?next" and "any_output (pool s) outs = (ok, w')"
  proof -
    have "race_step\<^sup>*\<^sup>* ?next (?next\<lparr>pool := w', payer_of := (payer_of ?next)(i := Done ok)\<rparr>)"
      using that(2) by (intro Cons.IH) simp_all
    also have "?next\<lparr>pool := w', payer_of := (payer_of ?next)(i := Done ok)\<rparr> = ?fin" by simp
    finally show ?thesis using that(1) by (meson converse_rtranclp_into_rtranclp)
  qed
  show ?case
  proof (cases "\<exists>h. output_hash out = Some h \<and> h \<in> pool s")
    case False
    then have "race_step s ?next"
      using Cons.prems race_step.skip race_step.absent by (cases "output_hash out") auto
    moreover have "any_output (pool s) outs = (ok, w')"
      using False Cons.prems by (auto simp: check_p2pkh_hash split: option.splits)
    ultimately show ?thesis by (rule later)
  next
    case True
    then obtain h where h: "output_hash out = Some h" "h \<in> pool s" by blast
    let ?seen = "s\<lparr>payer_of := (payer_of s)(i := Seen h outs)\<rparr>"
    have "race_step s ?seen" using h Cons.prems by (intro race_step.present)
    moreover have "race_step ?seen (?seen\<lparr>pool := wallet_remove (pool ?seen) h,
        payer_of := (payer_of ?seen)(i := Done True)\<rparr>)"
      by (rule race_step.flush) simp
    moreover have "?seen\<lparr>pool := wallet_remove (pool ?seen) h,
        payer_of := (payer_of ?seen)(i := Done True)\<rparr> = ?fin"
      using Cons.prems h by (simp add: check_p2pkh_hash)
    ultimately show ?thesis
      by (metis converse_rtranclp_into_rtranclp r_into_rtranclp)
  qed
qed

text \<open>
  Alone, the two critical sections are the function. A thread that runs through its
  outputs without interference ends with the answer and the wallet of \<open>check_outputs\<close>.
\<close>

theorem alone_refines_check_outputs:
  assumes "payer_of s i = Scan (tx_outputs tx)"
  shows "case check_outputs (pool s) tx of (ok, w') \<Rightarrow>
    race_step\<^sup>*\<^sup>* s (s\<lparr>pool := w', payer_of := (payer_of s)(i := Done ok)\<rparr>)"
  using alone_runs [OF assms]
  by (cases "check_outputs (pool s) tx") (simp add: check_outputs_def)

text \<open>
  A step that issues no address outside \<open>issued\<close>, and what holds of a thread \<open>i\<close> that set
  out to check the outputs \<open>outs0\<close>: whatever it has seen or accepted is an issued address
  that one of these outputs pays.
\<close>

definition quiet_step :: "bytes set \<Rightarrow> race \<Rightarrow> race \<Rightarrow> bool" where
  "quiet_step issued s t \<longleftrightarrow> race_step s t \<and> pool t \<subseteq> pool s \<union> issued"

definition paid_by :: "bytes set \<Rightarrow> txout list \<Rightarrow> bytes \<Rightarrow> bool" where
  "paid_by issued outs0 h \<longleftrightarrow> h \<in> issued \<and> list_ex (\<lambda>out. output_hash out = Some h) outs0"

definition payer_inv :: "bytes set \<Rightarrow> txout list \<Rightarrow> nat \<Rightarrow> race \<Rightarrow> bool" where
  "payer_inv issued outs0 i s \<longleftrightarrow> pool s \<subseteq> issued \<and>
     (case payer_of s i of
        Scan outs \<Rightarrow> set outs \<subseteq> set outs0
      | Seen h _ \<Rightarrow> paid_by issued outs0 h
      | Done ok \<Rightarrow> ok \<longrightarrow> (\<exists>h. paid_by issued outs0 h))"

lemma payer_inv_step:
  assumes inv: "payer_inv issued outs0 i s" and step: "quiet_step issued s t"
  shows "payer_inv issued outs0 i t"
proof -
  have pool: "pool t \<subseteq> issued"
    using assms by (auto simp: quiet_step_def payer_inv_def)
  from step have "race_step s t" by (simp add: quiet_step_def)
  then show ?thesis
  proof cases
    case (present j out outs h)
    with inv pool show ?thesis
      by (auto simp: payer_inv_def paid_by_def list_ex_iff split: payer.splits)
  qed (use inv pool in \<open>auto simp: payer_inv_def split: payer.splits if_splits\<close>)
qed

interpretation payers: safe_steps "quiet_step issued" "payer_inv issued outs0 i" for issued outs0 i
  by unfold_locales (rule payer_inv_step)

lemma output_hash_iff: "output_hash out = Some h \<longleftrightarrow> pays_to out h"
  by (auto simp: output_hash_def pays_to_def extract_pubkey_hash_iff)

text \<open>
  Acceptance is honest under every interleaving. However the critical sections of the
  threads and the issuing of addresses interleave, a thread that accepts a payment had an
  output that pays the price to an address that was issued.
\<close>

theorem accepted_pays_issued:
  assumes run: "(quiet_step issued)\<^sup>*\<^sup>* s t" and start: "pool s \<subseteq> issued"
    and scan: "payer_of s i = Scan outs" and accept: "payer_of t i = Done True"
  shows "\<exists>out h. out \<in> set outs \<and> h \<in> issued \<and> pays_to out h"
proof -
  have "payer_inv issued outs i s" using start scan by (simp add: payer_inv_def)
  from payers.run_inv [OF run this] accept obtain h where "paid_by issued outs h"
    by (auto simp: payer_inv_def)
  then show ?thesis by (auto simp: paid_by_def list_ex_iff output_hash_iff)
qed

text \<open>
  One invoice can be redeemed twice. Because the test and the removal are separate
  critical sections, two threads that check a payment to the same waiting address can both
  accept it, without any address being issued in between.
\<close>

theorem double_redemption:
  assumes pay: "pays_to out h" and wait: "h \<in> pool s" and ij: "i \<noteq> j"
    and i: "payer_of s i = Scan (out # outs)" and j: "payer_of s j = Scan (out # outs')"
  shows "\<exists>t. (quiet_step {})\<^sup>*\<^sup>* s t \<and> payer_of t i = Done True \<and> payer_of t j = Done True \<and>
    pool t = pool s - {h}"
proof -
  note hash = pay [folded output_hash_iff]
  let ?a = "s\<lparr>payer_of := (payer_of s)(i := Seen h outs)\<rparr>"
  let ?b = "?a\<lparr>payer_of := (payer_of ?a)(j := Seen h outs')\<rparr>"
  let ?c = "?b\<lparr>pool := wallet_remove (pool ?b) h, payer_of := (payer_of ?b)(i := Done True)\<rparr>"
  let ?d = "?c\<lparr>pool := wallet_remove (pool ?c) h, payer_of := (payer_of ?c)(j := Done True)\<rparr>"
  have "quiet_step {} s ?a" and "quiet_step {} ?a ?b"
    using race_step.present [OF i hash wait] race_step.present [of ?a j out outs' h] ij j hash wait
    by (simp_all add: quiet_step_def)
  moreover have "quiet_step {} ?b ?c" and "quiet_step {} ?c ?d"
    using race_step.flush [of ?b i h outs] race_step.flush [of ?c j h outs'] ij
    by (auto simp: quiet_step_def wallet_remove_def)
  ultimately have "(quiet_step {})\<^sup>*\<^sup>* s ?d"
    by (meson converse_rtranclp_into_rtranclp rtranclp.rtrancl_refl)
  moreover have "payer_of ?d i = Done True" and "payer_of ?d j = Done True"
    and "pool ?d = pool s - {h}"
    using ij by (auto simp: wallet_remove_def)
  ultimately show ?thesis by blast
qed

end
