(* ===== verification/Bitcoin_Client.thy ===== *)
theory Bitcoin_Client
  imports Handlers
begin

text \<open>
  \<open>src/src/bitcoin/client.rs\<close>: the two JSON-RPC calls to the Bitcoin node. The \<open>json_rpc\<close>
  crate is a parameter; a response is what its three accessors give.
\<close>

record rpc_request =
  rpc_method :: string
  rpc_params :: "string list"

record rpc_response =
  rp_is_error :: bool
  rp_error :: "ext_error option"
  rp_result :: "(ext_error + string) option"

text \<open>
  The network joins the outside world: the request builder and the transport of the RPC
  client, and the HTTP client of the peer code, whose response is represented by what
  receiving its body gives. That client has no timeout, so its request may never complete:
  the answer \<open>None\<close>.
\<close>

record 's net_sys = "'s db_sys" +
  rpc_finish :: "rpc_request \<Rightarrow> ext_error + rpc_request"
  rpc_send :: "rpc_request \<Rightarrow> 's \<Rightarrow> (ext_error + rpc_response) \<times> 's"
  peer_send :: "string \<Rightarrow> 's \<Rightarrow> (ext_error + (ext_error + bytes)) option \<times> 's"
  sleep_secs :: "u64 \<Rightarrow> 's \<Rightarrow> 's"

datatype bitcoin_error =
    Http ext_error
  | Rpc ext_error
  | Json ext_error
  | EmptyResponse

text \<open>The common end of both calls: the error of an error response, or the result it carries.\<close>

definition rpc_outcome :: "rpc_response \<Rightarrow> (string, bitcoin_error) result" where
  "rpc_outcome response =
     (if rp_is_error response then
        and_then (unwrap_opt (rp_error response)) (\<lambda>e. Err (Rpc e))
      else
        and_then (ok_or EmptyResponse (rp_result response)) (\<lambda>res.
          map_err Json (from_sum res)))"

definition get_new_addr :: "('s, 'x) net_sys_scheme \<Rightarrow> ('s, string, bitcoin_error) io" where
  "get_new_addr X =
     try_then (lift (unwrap (from_sum (rpc_finish X
       \<lparr>rpc_method = ''getnewaddress'', rpc_params = []\<rparr>)))) (\<lambda>request.
     try_then (map_err_io Http (from_sum_io (rpc_send X request))) (\<lambda>response.
     lift (rpc_outcome response)))"

definition send_tx ::
  "(bytes \<Rightarrow> string) \<Rightarrow> ('s, 'x) net_sys_scheme \<Rightarrow> bytes \<Rightarrow> ('s, string, bitcoin_error) io" where
  "send_tx hex_encode X raw_tx =
     try_then (lift (unwrap (from_sum (rpc_finish X
       \<lparr>rpc_method = ''sendrawtransaction'', rpc_params = [hex_encode raw_tx]\<rparr>)))) (\<lambda>request.
     try_then (map_err_io Http (from_sum_io (rpc_send X request))) (\<lambda>response.
     lift (rpc_outcome response)))"

text \<open>
  Documented behaviour of the client: a builder with a method succeeds, a response is an
  error response when it carries an error, and the network has no access to the database.
\<close>

definition rpc_ok :: "('s, 'x) net_sys_scheme \<Rightarrow> bool" where
  "rpc_ok X \<longleftrightarrow>
     (\<forall>rq. rpc_finish X rq = Inr rq) \<and>
     (\<forall>rq s resp t. rpc_send X rq s = (Inr resp, t) \<longrightarrow> rp_is_error resp = (rp_error resp \<noteq> None))"

definition net_isolated :: "('s, 'x) net_sys_scheme \<Rightarrow> 's view \<Rightarrow> bool" where
  "net_isolated X view \<longleftrightarrow>
     (\<forall>rq s. view (snd (rpc_send X rq s)) = view s) \<and>
     (\<forall>url s. view (snd (peer_send X url s)) = view s) \<and>
     (\<forall>n s. view (sleep_secs X n s) = view s)"

lemma rpc_send_view: "net_isolated X view \<Longrightarrow> rpc_send X rq s = (r, t) \<Longrightarrow> view t = view s"
  unfolding net_isolated_def by (metis snd_conv)

lemma rpc_call_view:
  assumes "net_isolated X view"
    and "try_then (lift (unwrap (from_sum (rpc_finish X rq)))) (\<lambda>request.
      try_then (map_err_io Http (from_sum_io (rpc_send X request))) (\<lambda>response.
      lift (rpc_outcome response))) s = (r, t)"
  shows "view t = view s"
proof (cases "rpc_finish X rq")
  case (Inr request)
  obtain q u where q: "rpc_send X request s = (q, u)" by fastforce
  have "t = u"
    using assms(2) Inr q by (cases q) (auto simp: try_then_def map_err_io_def from_sum_io_def
      split: result.splits)
  then show ?thesis using rpc_send_view [OF assms(1) q] by simp
qed (use assms(2) in simp)

lemma get_new_addr_view:
  "net_isolated X view \<Longrightarrow> get_new_addr X s = (r, t) \<Longrightarrow> view t = view s"
  unfolding get_new_addr_def by (rule rpc_call_view)

lemma send_tx_view: "net_isolated X view \<Longrightarrow> send_tx h X raw s = (r, t) \<Longrightarrow> view t = view s"
  unfolding send_tx_def by (rule rpc_call_view)

lemma rpc_call_calm:
  assumes "rpc_ok X"
  shows "calm (try_then (lift (unwrap (from_sum (rpc_finish X rq)))) (\<lambda>request.
      try_then (map_err_io Http (from_sum_io (rpc_send X request))) (\<lambda>response.
      lift (rpc_outcome response))))"
proof -
  have "rpc_outcome resp \<noteq> Panic" if "rpc_send X request s = (Inr resp, t)" for request s resp t
  proof -
    from assms that have "rp_is_error resp = (rp_error resp \<noteq> None)" unfolding rpc_ok_def by blast
    then show ?thesis by (auto simp: rpc_outcome_def and_then_eq_Panic)
  qed
  with assms show ?thesis by (auto simp: calm_def io_eqs rpc_ok_def)
qed

lemma get_new_addr_calm: "rpc_ok X \<Longrightarrow> calm (get_new_addr X)"
  unfolding get_new_addr_def by (rule rpc_call_calm)

lemma send_tx_calm: "rpc_ok X \<Longrightarrow> calm (send_tx h X raw)"
  unfolding send_tx_def by (rule rpc_call_calm)

text \<open>
  What a call to the node means. With a client that behaves as documented, \<open>send_tx\<close>
  sends exactly one \<open>sendrawtransaction\<close> with the hexadecimal transaction, never panics, and
  succeeds only on a response without an error that carries a string; every failure is
  told apart as transport, RPC, format or missing result.
\<close>

theorem send_tx_outcome:
  assumes ok: "rpc_ok X"
    and sent: "rpc_send X \<lparr>rpc_method = ''sendrawtransaction'', rpc_params = [hex raw]\<rparr> s = (q, t)"
  shows "send_tx hex X raw s =
    (case q of
       Inl e \<Rightarrow> Err (Http e)
     | Inr resp \<Rightarrow>
        (case (rp_error resp, rp_result resp) of
           (Some e, _) \<Rightarrow> Err (Rpc e)
         | (None, None) \<Rightarrow> Err EmptyResponse
         | (None, Some (Inl e)) \<Rightarrow> Err (Json e)
         | (None, Some (Inr txid)) \<Rightarrow> Ok txid), t)"
proof -
  have fin: "\<And>rq. rpc_finish X rq = Inr rq"
    and err: "\<And>resp. q = Inr resp \<Longrightarrow> rp_is_error resp = (rp_error resp \<noteq> None)"
    using ok sent unfolding rpc_ok_def by blast+
  show ?thesis
  proof (cases q)
    case (Inl e)
    with sent fin show ?thesis
      by (simp add: send_tx_def try_then_def map_err_io_def from_sum_io_def)
  next
    case (Inr resp)
    with sent fin err [OF Inr] show ?thesis
      by (auto simp: send_tx_def try_then_def map_err_io_def from_sum_io_def rpc_outcome_def
          split: option.splits sum.splits)
  qed
qed

end
