(* ===== verification/Payments.thy ===== *)
theory Payments
  imports Bitcoin_Client Wallet
begin

text \<open>
  \<open>src/src/net/payments.rs\<close>: the payment endpoint (\<open>payment_handler\<close>) and the middleware that
  guards uploads (\<open>CheckPaymentMiddleware::call\<close>). Both act on the shared wallet and on the
  outside world.
\<close>

section \<open>Parameters and state\<close>

record ('pk, 'sig, 'msg) pay_lib = "('pk, 'sig, 'msg) net_lib" +
  hex_encode :: "bytes \<Rightarrow> string"
  b64_encode :: "bytes \<Rightarrow> string"
  b64_decode :: "string \<Rightarrow> ext_error + bytes"
  hdr_to_str :: "bytes \<Rightarrow> ext_error + string"
  url_parse :: "string \<Rightarrow> ext_error + string"
  tx_deserialize :: "bytes \<Rightarrow> ext_error + transaction"
  payment_decode :: "bytes \<Rightarrow> ext_error + payment_msg"
  ack_encode :: "payment_ack \<Rightarrow> ext_error + bytes"
  details_encode :: "payment_details \<Rightarrow> ext_error + bytes"
  request_encode :: "payment_request \<Rightarrow> ext_error + bytes"

record 's server =
  wallet :: wallet_state
  world :: 's

definition on_world :: "('s, 'a, 'e) io \<Rightarrow> ('s server, 'a, 'e) io" where
  "on_world m = (\<lambda>st. case m (world st) of (r, t) \<Rightarrow> (r, st\<lparr>world := t\<rparr>))"

definition add_to_wallet :: "bytes \<Rightarrow> ('s server, unit, 'e) io" where
  "add_to_wallet addr = (\<lambda>st. (Ok (), st\<lparr>wallet := wallet_add (wallet st) addr\<rparr>))"

definition claim_payment :: "transaction \<Rightarrow> ('s server, bool, 'e) io" where
  "claim_payment tx = (\<lambda>st. case check_outputs (wallet st) tx of
     (ok, w) \<Rightarrow> (Ok ok, st\<lparr>wallet := w\<rparr>))"

definition PAYMENT_PATH :: string where
  "PAYMENT_PATH = ''/payments''"

definition VALID_DURATION :: u64 where
  "VALID_DURATION = 30"

fun get_first :: "'a list \<Rightarrow> 'a option" where
  "get_first [] = None"
| "get_first (x # xs) = Some x"

section \<open>Payment handler\<close>

definition payment_handler ::
  "('pk, 'sig, 'msg, 'z) pay_lib_scheme \<Rightarrow> ('s, 'x) net_sys_scheme \<Rightarrow> settings \<Rightarrow> request \<Rightarrow>
     ('s server, response, server_error) io" where
  "payment_handler L X S rq =
     (if rq_header rq ''content-type'' \<noteq> Some (as_bytes ''application/bitcoincash-payment'')
      then lift (Err (from_payment_error Accept))
      else if rq_header rq ''accept'' \<noteq> Some (as_bytes ''application/bitcoincash-paymentack'')
      then lift (Err (from_payment_error Content))
      else
     try_then (lift (read_body PayloadDecode [] (rq_chunks rq))) (\<lambda>payment_raw.
     try_then (lift (map_err (\<lambda>_. from_payment_error Decode)
                 (from_sum (payment_decode L payment_raw)))) (\<lambda>payment.
     try_then (lift (ok_or (from_payment_error NoTx) (get_first (transactions payment)))) (\<lambda>tx_raw.
     try_then (lift (map_err (\<lambda>e. from_payment_error (from_tx_error e))
                 (from_sum (tx_deserialize L tx_raw)))) (\<lambda>tx.
     try_then (claim_payment tx) (\<lambda>paid.
     if \<not> paid then lift (Err (Payment InvalidOutputs))
     else
     try_then (map_err_io (\<lambda>_. from_payment_error InvalidTx)
                 (on_world (send_tx (hex_encode L) X tx_raw))) (\<lambda>_.
     let ack = \<lparr>ack_payment = payment, ack_memo = Some ''Thanks for your custom!''\<rparr> in
     try_then (lift (unwrap (from_sum (ack_encode L ack)))) (\<lambda>raw_ack.
     try_then (lift (ok_or (from_payment_error NoMerchantDat) (merchant_data (ack_payment ack))))
       (\<lambda>merchant.
     let token = b64_encode L (generate_token L merchant (as_bytes (secret S))) in
     try_then (lift (ok_or (from_payment_error InvalidMerchantDat) (from_utf8 merchant))) (\<lambda>url_str.
     try_then (lift (map_err (\<lambda>_. from_payment_error InvalidMerchantDat)
                 (from_sum (url_parse L url_str)))) (\<lambda>redirect_url.
     lift (Ok \<lparr>status = 202,
       rs_headers = [(''location'', redirect_url), (''authorization'', ''POP '' @ token),
                     (''pragma'', ''no-cache'')],
       rs_body = raw_ack\<rparr>))))))))))))"

section \<open>Invoices\<close>

definition fetch_address ::
  "('pk, 'sig, 'msg, 'z) pay_lib_scheme \<Rightarrow> ('s, 'x) net_sys_scheme \<Rightarrow> settings \<Rightarrow>
     ('s server, bytes, server_error) io" where
  "fetch_address L X S =
     try_then (map_err_io (\<lambda>_. Payment AddrFetchFailed) (on_world (get_new_addr X))) (\<lambda>addr_str.
     try_then (lift (map_err (\<lambda>(cash_err, base58_err). Address cash_err base58_err)
                 (from_sum (addr_decode L addr_str)))) (\<lambda>addr.
     let net = from_bch_network (addr_network addr) in
     if net \<noteq> s_network S \<or> hash_type addr \<noteq> Key then lift (Err (Payment MismatchedNetwork))
     else
       let addr_raw = body addr in
       try_then (add_to_wallet addr_raw) (\<lambda>_. lift (Ok addr_raw))))"

definition invoice_response ::
  "('pk, 'sig, 'msg, 'z) pay_lib_scheme \<Rightarrow> settings \<Rightarrow> string \<Rightarrow> string \<Rightarrow> int \<Rightarrow> int \<Rightarrow>
     tx_output list \<Rightarrow> (response, server_error) result" where
  "invoice_response L S base_url merchant_url current_time expiry_time outs =
     and_then (unix_secs current_time) (\<lambda>now.
     and_then (unix_secs expiry_time) (\<lambda>until.
     let details = \<lparr>pd_network = Some (network_to_string (s_network S)),
                    time = now, expires = Some until, pd_memo = None,
                    pd_merchant_data = Some (as_bytes merchant_url),
                    outputs = outs, payment_url = Some (base_url @ PAYMENT_PATH)\<rparr> in
     and_then (unwrap (from_sum (details_encode L details))) (\<lambda>serialized.
     let invoice = \<lparr>pki_type = Some ''none'', pki_data = None,
                    payment_details_version = Some 1,
                    serialized_payment_details = serialized, pr_signature = None\<rparr> in
     and_then (unwrap (from_sum (request_encode L invoice))) (\<lambda>invoice_raw.
     Ok \<lparr>status = 402,
         rs_headers = [(''content-type'', ''application/bitcoincash-paymentrequest''),
                       (''content-transfer-encoding'', ''binary'')],
         rs_body = invoice_raw\<rparr>))))"

definition issue_invoice ::
  "('pk, 'sig, 'msg, 'z) pay_lib_scheme \<Rightarrow> ('s, 'x) net_sys_scheme \<Rightarrow> settings \<Rightarrow> request \<Rightarrow>
     ('s server, response, server_error) io" where
  "issue_invoice L X S rq =
     try_then (on_world (read_clock X)) (\<lambda>current_time.
     let expiry_time = current_time + uint VALID_DURATION in
     try_then (lift (str_from (rq_path rq) 6)) (\<lambda>put_addr_str.
     try_then (lift (map_err (\<lambda>(cash_err, base58_err). Address cash_err base58_err)
                 (from_sum (addr_decode L put_addr_str)))) (\<lambda>put_addr.
     let base_url = rq_scheme rq @ ''://'' @ rq_host rq;
         merchant_url = base_url @ rq_path rq in
     try_then (fetch_address L X S) (\<lambda>addr_raw.
     try_then (lift (generate_outputs (overflow_checks L) addr_raw base_url (body put_addr)))
       (\<lambda>outs.
     lift (invoice_response L S base_url merchant_url current_time expiry_time outs))))))"

section \<open>The middleware\<close>

definition pop_token :: "string \<Rightarrow> (string, server_error) result" where
  "pop_token auth_str =
     (if 4 \<le> length auth_str then
        and_then (str_upto auth_str 4) (\<lambda>scheme_part.
          if scheme_part = ''POP '' then str_from auth_str 4
          else Err (Payment InvalidAuth))
      else Err (Payment InvalidAuth))"

type_synonym 's service = "request \<Rightarrow> ('s server, response, server_error) io"

definition check_token ::
  "('pk, 'sig, 'msg, 'z) pay_lib_scheme \<Rightarrow> settings \<Rightarrow> 's service \<Rightarrow> request \<Rightarrow> string \<Rightarrow>
     ('s server, response, server_error) io" where
  "check_token L S service rq token_str =
     (case b64_decode L token_str of
        Inl _ \<Rightarrow> lift (Ok (server_response (Payment InvalidAuth)))
      | Inr token \<Rightarrow>
          let merchant_url = rq_scheme rq @ ''://'' @ rq_host rq @ rq_path rq in
          if \<not> validate_token L (as_bytes merchant_url) (as_bytes (secret S)) token
          then lift (Ok (server_response (Payment InvalidAuth)))
          else service rq)"

definition check_payment ::
  "('pk, 'sig, 'msg, 'z) pay_lib_scheme \<Rightarrow> ('s, 'x) net_sys_scheme \<Rightarrow> settings \<Rightarrow>
     's service \<Rightarrow> 's service" where
  "check_payment L X S service rq =
     (if rq_method rq \<noteq> PUT then service rq
      else
        (case rq_header rq ''authorization'' of
           Some value \<Rightarrow>
             (case hdr_to_str L value of
                Inr auth_str \<Rightarrow>
                  try_then (lift (pop_token auth_str)) (\<lambda>token_str.
                  check_token L S service rq token_str)
              | Inl _ \<Rightarrow> lift (Err (Payment InvalidAuth)))
         | None \<Rightarrow> issue_invoice L X S rq))"

section \<open>What the payment code leaves alone\<close>

lemma on_world_run: "m (world st) = (r, t) \<Longrightarrow> on_world m st = (r, st\<lparr>world := t\<rparr>)"
  by (simp add: on_world_def)

lemma keeps_on_world [keeps_intros]:
  "keeps P m \<Longrightarrow> keeps (\<lambda>st. P (world st)) (on_world m)"
  by (auto simp: keeps_def on_world_def split: prod.splits)

lemma keeps_add_to_wallet [keeps_intros]: "keeps (\<lambda>st. P (world st)) (add_to_wallet a)"
  by (simp add: keeps_def add_to_wallet_def)

lemma keeps_claim_payment [keeps_intros]: "keeps (\<lambda>st. P (world st)) (claim_payment tx)"
  by (auto simp: keeps_def claim_payment_def split: prod.splits)

lemma net_keeps_view:
  assumes "net_isolated X view" and "rocks_ok X view"
  shows "keeps (\<lambda>s. view s = V) (get_new_addr X)" "keeps (\<lambda>s. view s = V) (send_tx h X raw)"
    "keeps (\<lambda>s. view s = V) (read_clock X)"
  using get_new_addr_view [OF assms(1)] send_tx_view [OF assms(1)] sys_nowD [OF assms(2)]
  by (auto simp: keeps_def) (metis prod.collapse)

lemma fetch_address_keeps:
  "net_isolated X view \<Longrightarrow> rocks_ok X view \<Longrightarrow>
     keeps (\<lambda>st. view (world st) = V) (fetch_address L X S)"
  unfolding fetch_address_def Let_def
  by (intro keeps_intros keeps_try_then keeps_on_world [where P = "\<lambda>s. view s = V"]
      keeps_add_to_wallet [where P = "\<lambda>s. view s = V"] net_keeps_view)

lemma issue_invoice_keeps:
  "net_isolated X view \<Longrightarrow> rocks_ok X view \<Longrightarrow>
     keeps (\<lambda>st. view (world st) = V) (issue_invoice L X S rq)"
  unfolding issue_invoice_def Let_def
  by (intro keeps_intros keeps_try_then keeps_on_world [where P = "\<lambda>s. view s = V"]
      net_keeps_view fetch_address_keeps)

lemma payment_handler_keeps:
  "net_isolated X view \<Longrightarrow> rocks_ok X view \<Longrightarrow>
     keeps (\<lambda>st. view (world st) = V) (payment_handler L X S rq)"
  unfolding payment_handler_def Let_def
  by (intro keeps_intros keeps_try_then keeps_on_world [where P = "\<lambda>s. view s = V"]
      keeps_claim_payment [where P = "\<lambda>s. view s = V"] net_keeps_view)

section \<open>Who may upload\<close>

definition merchant_url_of :: "request \<Rightarrow> string" where
  "merchant_url_of rq = rq_scheme rq @ ''://'' @ rq_host rq @ rq_path rq"

definition authorised ::
  "('pk, 'sig, 'msg, 'z) pay_lib_scheme \<Rightarrow> settings \<Rightarrow> request \<Rightarrow> bool" where
  "authorised L S rq =
     (case rq_header rq ''authorization'' of
        None \<Rightarrow> False
      | Some value \<Rightarrow>
          (case hdr_to_str L value of
             Inl _ \<Rightarrow> False
           | Inr auth \<Rightarrow> take 4 auth = ''POP '' \<and>
               b64_decode L (drop 4 auth) =
                 Inr (hmac_sha256 L (as_bytes (secret S)) (as_bytes (merchant_url_of rq)))))"

text \<open>\<open>HeaderValue::to_str\<close> succeeds on visible ASCII only.\<close>

definition headers_ascii :: "('pk, 'sig, 'msg, 'z) pay_lib_scheme \<Rightarrow> bool" where
  "headers_ascii L \<longleftrightarrow> (\<forall>v auth. hdr_to_str L v = Inr auth \<longrightarrow> is_ascii auth)"

lemma pop_token_ascii:
  assumes "is_ascii auth"
  shows "pop_token auth =
    (if take 4 auth = ''POP '' then Ok (drop 4 auth) else Err (Payment InvalidAuth))"
proof (cases "4 \<le> length auth")
  case True
  with assms show ?thesis by (simp add: pop_token_def str_upto_ascii str_from_ascii)
next
  case False
  then have "length (take 4 auth) \<noteq> length ''POP ''" by simp
  then have "take 4 auth \<noteq> ''POP ''" by metis
  with False show ?thesis by (simp add: pop_token_def)
qed

lemma check_token_eq:
  assumes "ct_eq_decides L"
  shows "check_token L S service rq tok =
    (if b64_decode L tok = Inr (hmac_sha256 L (as_bytes (secret S)) (as_bytes (merchant_url_of rq)))
     then service rq else lift (Ok (server_response (Payment InvalidAuth))))"
  using validate_token_iff [OF assms]
  by (cases "b64_decode L tok") (auto simp: check_token_def merchant_url_of_def Let_def)

lemma check_payment_header:
  assumes "ct_eq_decides L" and "headers_ascii L" and "rq_method rq = PUT"
    and "rq_header rq ''authorization'' = Some value"
  shows "check_payment L X S service rq =
    (if authorised L S rq then service rq
     else if \<exists>auth. hdr_to_str L value = Inr auth \<and> take 4 auth = ''POP ''
     then lift (Ok (server_response (Payment InvalidAuth)))
     else lift (Err (Payment InvalidAuth)))"
proof (cases "hdr_to_str L value")
  case (Inl e)
  with assms show ?thesis by (simp add: check_payment_def authorised_def)
next
  case (Inr auth)
  with assms(2) have "is_ascii auth" by (simp add: headers_ascii_def)
  from pop_token_ascii [OF this] Inr assms(3,4) show ?thesis
    by (simp add: check_payment_def authorised_def check_token_eq [OF assms(1)])
qed

text \<open>
  C7: only a paid token opens an upload. A PUT reaches the key handler exactly when its
  \<open>Authorization\<close> header is \<open>POP \<close> followed by the base64 of the HMAC, under the server's
  secret, of this very URL; then the middleware changes nothing. With any other
  \<open>Authorization\<close> header the answer is 402 and nothing happens at all; with none, the
  client gets an invoice.
\<close>

theorem upload_needs_token:
  assumes "ct_eq_decides L" and "headers_ascii L" and put: "rq_method rq = PUT"
  shows "(authorised L S rq \<longrightarrow> check_payment L X S service rq = service rq) \<and>
    (\<not> authorised L S rq \<longrightarrow>
      (if rq_header rq ''authorization'' = None
       then check_payment L X S service rq = issue_invoice L X S rq
       else \<exists>r. check_payment L X S service rq = lift r \<and>
         (r = Err (Payment InvalidAuth) \<or> r = Ok (server_response (Payment InvalidAuth)))))"
proof (cases "rq_header rq ''authorization''")
  case None
  with put show ?thesis by (simp add: check_payment_def authorised_def)
next
  case (Some hv)
  from check_payment_header [OF assms Some, of X S service] Some show ?thesis by auto
qed

text \<open>
  An upload without a token leaves the database alone. Whatever the request holds, if it
  is a PUT and not authorised then every stored value is the same afterwards, however the
  request ends.
\<close>

theorem unauthorised_upload_inert:
  assumes "ct_eq_decides L" and "headers_ascii L" and put: "rq_method rq = PUT"
    and iso: "net_isolated X view" and ok: "rocks_ok X view"
    and no: "\<not> authorised L S rq" and run: "check_payment L X S service rq st = (r, st')"
  shows "view (world st') = view (world st)"
proof (cases "rq_header rq ''authorization''")
  case None
  with put run have "issue_invoice L X S rq st = (r, st')" by (simp add: check_payment_def)
  with keepsD [OF issue_invoice_keeps [OF iso ok]] show ?thesis by blast
next
  case (Some hv)
  with check_payment_header [OF assms(1-3) Some, of X S service] no run show ?thesis
    by (auto split: if_splits)
qed

section \<open>The payment endpoint\<close>

definition well_addressed :: "request \<Rightarrow> bool" where
  "well_addressed rq \<longleftrightarrow>
     rq_header rq ''content-type'' = Some (as_bytes ''application/bitcoincash-payment'') \<and>
     rq_header rq ''accept'' = Some (as_bytes ''application/bitcoincash-paymentack'')"

text \<open>
  The handler in three parts: the checks of the request, the effects (claiming the address,
  broadcasting the transaction) and the receipt.
\<close>

definition screen_payment ::
  "('pk, 'sig, 'msg, 'z) pay_lib_scheme \<Rightarrow> request \<Rightarrow>
     (payment_msg \<times> bytes \<times> transaction, server_error) result" where
  "screen_payment L rq =
     and_then (if rq_header rq ''content-type'' \<noteq> Some (as_bytes ''application/bitcoincash-payment'')
               then Err (Payment Accept)
               else if rq_header rq ''accept'' \<noteq> Some (as_bytes ''application/bitcoincash-paymentack'')
               then Err (Payment Content) else Ok ()) (\<lambda>_.
     and_then (read_body PayloadDecode [] (rq_chunks rq)) (\<lambda>raw.
     and_then (map_err (\<lambda>_. Payment Decode) (from_sum (payment_decode L raw))) (\<lambda>payment.
     and_then (ok_or (Payment NoTx) (get_first (transactions payment))) (\<lambda>tx_raw.
     and_then (map_err (\<lambda>e. Payment (TxDeserialize e)) (from_sum (tx_deserialize L tx_raw))) (\<lambda>tx.
     Ok (payment, tx_raw, tx))))))"

definition receipt ::
  "('pk, 'sig, 'msg, 'z) pay_lib_scheme \<Rightarrow> settings \<Rightarrow> payment_msg \<Rightarrow>
     (response, server_error) result" where
  "receipt L S payment =
     and_then (unwrap (from_sum (ack_encode L
       \<lparr>ack_payment = payment, ack_memo = Some ''Thanks for your custom!''\<rparr>))) (\<lambda>raw_ack.
     and_then (ok_or (Payment NoMerchantDat) (merchant_data payment)) (\<lambda>merchant.
     and_then (ok_or (Payment InvalidMerchantDat) (from_utf8 merchant)) (\<lambda>url.
     and_then (map_err (\<lambda>_. Payment InvalidMerchantDat) (from_sum (url_parse L url))) (\<lambda>loc.
     Ok \<lparr>status = 202,
         rs_headers = [(''location'', loc),
           (''authorization'', ''POP '' @ b64_encode L (generate_token L merchant (as_bytes (secret S)))),
           (''pragma'', ''no-cache'')],
         rs_body = raw_ack\<rparr>))))"

definition settle ::
  "('pk, 'sig, 'msg, 'z) pay_lib_scheme \<Rightarrow> ('s, 'x) net_sys_scheme \<Rightarrow> settings \<Rightarrow> payment_msg \<Rightarrow>
     bytes \<Rightarrow> transaction \<Rightarrow> ('s server, response, server_error) io" where
  "settle L X S payment tx_raw tx =
     try_then (claim_payment tx) (\<lambda>paid.
     if \<not> paid then lift (Err (Payment InvalidOutputs))
     else try_then (map_err_io (\<lambda>_. Payment InvalidTx) (on_world (send_tx (hex_encode L) X tx_raw)))
       (\<lambda>_. lift (receipt L S payment)))"

lemma lift_receipt:
  "lift (receipt L S payment) =
     try_then (lift (unwrap (from_sum (ack_encode L
       \<lparr>ack_payment = payment, ack_memo = Some ''Thanks for your custom!''\<rparr>)))) (\<lambda>raw_ack.
     try_then (lift (ok_or (Payment NoMerchantDat) (merchant_data payment))) (\<lambda>merchant.
     try_then (lift (ok_or (Payment InvalidMerchantDat) (from_utf8 merchant))) (\<lambda>url.
     try_then (lift (map_err (\<lambda>_. Payment InvalidMerchantDat) (from_sum (url_parse L url)))) (\<lambda>loc.
     lift (Ok \<lparr>status = 202,
         rs_headers = [(''location'', loc),
           (''authorization'', ''POP '' @ b64_encode L (generate_token L merchant (as_bytes (secret S)))),
           (''pragma'', ''no-cache'')],
         rs_body = raw_ack\<rparr>)))))"
  by (simp add: receipt_def lift_and_then)

lemma payment_handler_split:
  "payment_handler L X S rq =
     try_then (lift (screen_payment L rq)) (\<lambda>(payment, tx_raw, tx). settle L X S payment tx_raw tx)"
  unfolding payment_handler_def screen_payment_def settle_def lift_receipt
  by (simp add: try_then_lift_and_then from_payment_error_def from_tx_error_def Let_def
      cong: if_cong)

lemma screen_payment_Ok:
  "screen_payment L rq = Ok (payment, tx_raw, tx) \<longleftrightarrow>
     well_addressed rq \<and>
     (\<exists>raw. read_body PayloadDecode [] (rq_chunks rq) = Ok raw \<and> payment_decode L raw = Inr payment) \<and>
     get_first (transactions payment) = Some tx_raw \<and> tx_deserialize L tx_raw = Inr tx"
  by (auto simp: screen_payment_def result_eqs well_addressed_def split: if_splits)

lemma receipt_Ok:
  "receipt L S payment = Ok rs \<longleftrightarrow>
     (\<exists>raw_ack merchant url loc.
        ack_encode L \<lparr>ack_payment = payment, ack_memo = Some ''Thanks for your custom!''\<rparr> = Inr raw_ack \<and>
        merchant_data payment = Some merchant \<and> from_utf8 merchant = Some url \<and>
        url_parse L url = Inr loc \<and>
        rs = \<lparr>status = 202,
              rs_headers = [(''location'', loc),
                (''authorization'', ''POP '' @ b64_encode L (hmac_sha256 L (as_bytes (secret S)) merchant)),
                (''pragma'', ''no-cache'')],
              rs_body = raw_ack\<rparr>)"
  by (auto simp: receipt_def result_eqs generate_token_def)

lemma settle_unpaid:
  "check_outputs (wallet st) tx = (False, w) \<Longrightarrow>
     settle L X S payment tx_raw tx st = (Err (Payment InvalidOutputs), st\<lparr>wallet := w\<rparr>)"
  by (simp add: settle_def try_then_def claim_payment_def)

lemma settle_forgotten:
  "check_outputs (wallet st) tx = (False, wallet st) \<Longrightarrow>
     settle L X S payment tx_raw tx st = (Err (Payment InvalidOutputs), st)"
  by (simp add: settle_unpaid)

lemma settle_paid:
  assumes "check_outputs (wallet st) tx = (True, w)"
    and "send_tx (hex_encode L) X tx_raw (world st) = (q, t)"
  shows "settle L X S payment tx_raw tx st =
    (case q of Ok _ \<Rightarrow> receipt L S payment | Err _ \<Rightarrow> Err (Payment InvalidTx) | Panic \<Rightarrow> Panic,
     st\<lparr>wallet := w, world := t\<rparr>)"
  using assms
  by (cases q) (simp_all add: settle_def try_then_def claim_payment_def map_err_io_def on_world_def)

lemma payment_handler_Ok:
  assumes run: "payment_handler L X S rq st = (Ok rs, st')"
  shows "\<exists>raw payment tx_raw tx h txid merchant url loc raw_ack.
    well_addressed rq \<and>
    read_body PayloadDecode [] (rq_chunks rq) = Ok raw \<and> payment_decode L raw = Inr payment \<and>
    get_first (transactions payment) = Some tx_raw \<and> tx_deserialize L tx_raw = Inr tx \<and>
    h \<in> wallet st \<and> tx_pays tx h \<and> wallet st' = wallet st - {h} \<and>
    send_tx (hex_encode L) X tx_raw (world st) = (Ok txid, world st') \<and>
    merchant_data payment = Some merchant \<and> from_utf8 merchant = Some url \<and>
    url_parse L url = Inr loc \<and>
    rs = \<lparr>status = 202,
          rs_headers = [(''location'', loc),
            (''authorization'', ''POP '' @ b64_encode L (hmac_sha256 L (as_bytes (secret S)) merchant)),
            (''pragma'', ''no-cache'')],
          rs_body = raw_ack\<rparr>"
proof -
  from run obtain payment tx_raw tx where
    scr: "screen_payment L rq = Ok (payment, tx_raw, tx)" and
    st: "settle L X S payment tx_raw tx st = (Ok rs, st')"
    by (auto simp: payment_handler_split io_eqs)
  obtain ok w where claim: "check_outputs (wallet st) tx = (ok, w)" by fastforce
  have ok: "ok = True" using st claim by (cases ok) (auto simp: settle_unpaid)
  note claim = claim [unfolded ok]
  obtain q t where send: "send_tx (hex_encode L) X tx_raw (world st) = (q, t)" by fastforce
  from st settle_paid [OF claim send, of S payment] obtain txid where
    q: "q = Ok txid" and rc: "receipt L S payment = Ok rs" and st': "st' = st\<lparr>wallet := w, world := t\<rparr>"
    by (cases q) auto
  from wallet.claim_taken [OF claim] obtain h where
    h: "h \<in> wallet st" "tx_pays tx h" "w = wallet st - {h}" by blast
  from rc obtain raw_ack merchant url loc where
    r: "merchant_data payment = Some merchant" "from_utf8 merchant = Some url"
      "url_parse L url = Inr loc"
      "rs = \<lparr>status = 202, rs_headers = [(''location'', loc),
        (''authorization'', ''POP '' @ b64_encode L (hmac_sha256 L (as_bytes (secret S)) merchant)),
        (''pragma'', ''no-cache'')], rs_body = raw_ack\<rparr>"
    by (auto simp: receipt_Ok)
  have "wallet st' = wallet st - {h}" and "send_tx (hex_encode L) X tx_raw (world st) = (Ok txid, world st')"
    using h(3) st' send q by simp_all
  with scr [unfolded screen_payment_Ok] h(1,2) r show ?thesis by blast
qed

text \<open>
  C8: what a payment token proves. When the payment endpoint answers 202 the request had the
  BIP70 headers, its first transaction paid the price to a waiting address, that address is
  no longer waiting, the node accepted the transaction, and the token in the answer is the
  base64 of the HMAC of the merchant data of the payment, sent with that data as location.
\<close>

theorem payment_accepted:
  assumes run: "payment_handler L X S rq st = (Ok rs, st')"
  shows "\<exists>raw payment tx_raw tx h txid merchant url loc raw_ack.
    well_addressed rq \<and>
    read_body PayloadDecode [] (rq_chunks rq) = Ok raw \<and> payment_decode L raw = Inr payment \<and>
    get_first (transactions payment) = Some tx_raw \<and> tx_deserialize L tx_raw = Inr tx \<and>
    h \<in> wallet st \<and> tx_pays tx h \<and> wallet st' = wallet st - {h} \<and>
    send_tx (hex_encode L) X tx_raw (world st) = (Ok txid, world st') \<and>
    merchant_data payment = Some merchant \<and> from_utf8 merchant = Some url \<and>
    url_parse L url = Inr loc \<and>
    rs = \<lparr>status = 202,
          rs_headers = [(''location'', loc),
            (''authorization'', ''POP '' @ b64_encode L (hmac_sha256 L (as_bytes (secret S)) merchant)),
            (''pragma'', ''no-cache'')],
          rs_body = raw_ack\<rparr>"
  by (rule payment_handler_Ok [OF run])

text \<open>
  C36: a refused broadcast forfeits the invoice. If the node does not take the transaction the
  client is told the transaction is invalid, but the address was already forgotten: sending
  the same payment again, even once the node would accept it, only yields invalid outputs.
\<close>

theorem refused_broadcast_forfeits:
  assumes scr: "screen_payment L rq = Ok (payment, tx_raw, tx)"
    and paid: "check_outputs (wallet st) tx = (True, w)"
    and refused: "send_tx (hex_encode L) X tx_raw (world st) = (Err e, t)"
    and single: "\<And>g h. g \<in> wallet st \<Longrightarrow> h \<in> wallet st \<Longrightarrow> tx_pays tx g \<Longrightarrow> tx_pays tx h \<Longrightarrow> g = h"
  shows "payment_handler L X S rq st = (Err (Payment InvalidTx), st\<lparr>wallet := w, world := t\<rparr>) \<and>
    payment_handler L X S rq (st\<lparr>wallet := w, world := t'\<rparr>) =
      (Err (Payment InvalidOutputs), st\<lparr>wallet := w, world := t'\<rparr>)"
proof -
  from wallet.claim_taken [OF paid] obtain h where
    h: "h \<in> wallet st" "tx_pays tx h" "w = wallet st - {h}" by blast
  then have "\<not> (\<exists>g. g \<in> w \<and> tx_pays tx g)" using single by blast
  then have unpaid: "check_outputs w tx = (False, w)"
    using wallet.claim_iff [of w tx] wallet.claim_kept [of w tx]
    by (cases "check_outputs w tx") auto
  from settle_paid [OF paid refused, of S payment] scr
  have "payment_handler L X S rq st = (Err (Payment InvalidTx), st\<lparr>wallet := w, world := t\<rparr>)"
    by (simp add: payment_handler_split)
  moreover have "payment_handler L X S rq (st\<lparr>wallet := w, world := t'\<rparr>) =
      (Err (Payment InvalidOutputs), st\<lparr>wallet := w, world := t'\<rparr>)"
    using scr unpaid by (simp add: payment_handler_split settle_forgotten)
  ultimately show ?thesis ..
qed

text \<open>
  The header checks of the payment endpoint. A request without the BIP70 headers changes
  nothing. A wrong content type is answered with 406 and a wrong accept header with 415: the
  two codes are the wrong way round.
\<close>

theorem payment_header_errors:
  assumes "\<not> well_addressed rq"
  shows "\<exists>e. payment_handler L X S rq st = (Err e, st) \<and>
    status (server_response e) =
      (if rq_header rq ''content-type'' \<noteq> Some (as_bytes ''application/bitcoincash-payment'')
       then 406 else 415)"
  using assms by (auto simp: payment_handler_def well_addressed_def from_payment_error_def)

section \<open>Invoices can be paid\<close>

lemma fetch_address_Ok:
  "fetch_address L X S st = (Ok h, st') \<longleftrightarrow>
     (\<exists>addr_str t addr. get_new_addr X (world st) = (Ok addr_str, t) \<and>
        addr_decode L addr_str = Inr addr \<and> hash_type addr = Key \<and>
        from_bch_network (addr_network addr) = s_network S \<and> h = body addr \<and>
        st' = st\<lparr>world := t, wallet := insert h (wallet st)\<rparr>)"
  by (auto simp: fetch_address_def io_eqs Let_def add_to_wallet_def wallet_add_def on_world_def
      split: if_splits prod.splits)

lemma invoice_response_Ok:
  "invoice_response L S base merchant now until outs = Ok rs \<longleftrightarrow>
     0 \<le> now \<and> 0 \<le> until \<and>
     (\<exists>serialized raw.
        details_encode L \<lparr>pd_network = Some (network_to_string (s_network S)),
          time = word_of_int now, expires = Some (word_of_int until), pd_memo = None,
          pd_merchant_data = Some (as_bytes merchant), outputs = outs,
          payment_url = Some (base @ PAYMENT_PATH)\<rparr> = Inr serialized \<and>
        request_encode L \<lparr>pki_type = Some ''none'', pki_data = None,
          payment_details_version = Some 1, serialized_payment_details = serialized,
          pr_signature = None\<rparr> = Inr raw \<and>
        rs = \<lparr>status = 402,
          rs_headers = [(''content-type'', ''application/bitcoincash-paymentrequest''),
            (''content-transfer-encoding'', ''binary'')],
          rs_body = raw\<rparr>)"
  by (auto simp: invoice_response_def unix_secs_def result_eqs Let_def split: if_splits)

lemma issue_invoice_Ok:
  assumes "issue_invoice L X S rq st = (Ok rs, st')"
  obtains now t put_addr_str put_addr h outs where
    "sys_now X (world st) = (now, t)"
    "str_from (rq_path rq) 6 = (Ok put_addr_str :: (string, server_error) result)"
    "addr_decode L put_addr_str = Inr put_addr"
    "fetch_address L X S (st\<lparr>world := t\<rparr>) = (Ok h, st')"
    "generate_outputs (overflow_checks L) h (rq_scheme rq @ ''://'' @ rq_host rq) (body put_addr) = Ok outs"
    "invoice_response L S (rq_scheme rq @ ''://'' @ rq_host rq) (merchant_url_of rq) now (now + 30) outs = Ok rs"
proof -
  obtain now t where clk: "sys_now X (world st) = (now, t)" by fastforce
  from assms show ?thesis
    by (auto simp: issue_invoice_def io_eqs Let_def on_world_def read_clock_def clk
        VALID_DURATION_def merchant_url_of_def intro: that [OF clk])
qed

text \<open>
  C19: an invoice can be paid. A 402 with an invoice in it was made for the address that the
  node answered to a \<open>getnewaddress\<close> of this very request, one of a public key hash on the
  configured network, which now waits in the wallet; it is dated by the clock of the request and
  expires 30 seconds later, carries the URL of the upload as merchant data and the payment
  path of this server, and asks for the price in a P2PKH output to that address and for an
  announcement of the uploaded key. If the node's address has 20 bytes, any transaction that
  contains the first output is accepted by the wallet. That the node's addresses are new is up
  to the node: the code does not check it.
\<close>

theorem invoice_payable:
  assumes run: "issue_invoice L X S rq st = (Ok rs, st')"
  shows "\<exists>now t addr_str addr details serialized put_addr len.
    sys_now X (world st) = (now, t) \<and> get_new_addr X t = (Ok addr_str, world st') \<and>
    addr_decode L addr_str = Inr addr \<and> hash_type addr = Key \<and>
    from_bch_network (addr_network addr) = s_network S \<and>
    wallet st' = insert (body addr) (wallet st) \<and>
    details_encode L details = Inr serialized \<and>
    request_encode L \<lparr>pki_type = Some ''none'', pki_data = None,
      payment_details_version = Some 1, serialized_payment_details = serialized,
      pr_signature = None\<rparr> = Inr (rs_body rs) \<and> status rs = 402 \<and>
    0 \<le> now \<and> time details = word_of_int now \<and> expires details = Some (time details + VALID_DURATION) \<and>
    pd_network details = Some (network_to_string (s_network S)) \<and>
    pd_merchant_data details = Some (as_bytes (merchant_url_of rq)) \<and>
    payment_url details = Some (rq_scheme rq @ ''://'' @ rq_host rq @ PAYMENT_PATH) \<and>
    addr_decode L (drop 6 (rq_path rq)) = Inr put_addr \<and>
    outputs details = [\<lparr>amount = Some PRICE, out_script = p2pkh_script (body addr)\<rparr>,
      \<lparr>amount = Some 0,
       out_script = op_return_script len (body put_addr) (rq_scheme rq @ ''://'' @ rq_host rq)\<rparr>] \<and>
    (length (body addr) = 20 \<longrightarrow>
      (\<forall>tx. \<lparr>txo_value = PRICE, script_pubkey = p2pkh_script (body addr)\<rparr> \<in> set (tx_outputs tx) \<longrightarrow>
        fst (check_outputs (wallet st') tx)))"
proof -
  from run show ?thesis
  proof (rule issue_invoice_Ok)
    fix now t put_addr_str put_addr h outs
    assume clk: "sys_now X (world st) = (now, t)"
      and "str_from (rq_path rq) 6 = (Ok put_addr_str :: (string, server_error) result)"
      and put: "addr_decode L put_addr_str = Inr put_addr"
      and fetch: "fetch_address L X S (st\<lparr>world := t\<rparr>) = (Ok h, st')"
      and gen: "generate_outputs (overflow_checks L) h (rq_scheme rq @ ''://'' @ rq_host rq)
        (body put_addr) = Ok outs"
      and resp: "invoice_response L S (rq_scheme rq @ ''://'' @ rq_host rq) (merchant_url_of rq)
        now (now + 30) outs = Ok rs"
    then have path: "put_addr_str = drop 6 (rq_path rq)" by (simp add: str_from_def split: if_splits)
    from fetch [unfolded fetch_address_Ok] obtain addr_str addr where
      node: "get_new_addr X t = (Ok addr_str, world st')" "addr_decode L addr_str = Inr addr"
        "hash_type addr = Key" "from_bch_network (addr_network addr) = s_network S" and h: "h = body addr"
      and w: "wallet st' = insert (body addr) (wallet st)" by auto
    have payable: "fst (check_outputs (wallet st') tx)" if "length (body addr) = 20"
      "\<lparr>txo_value = PRICE, script_pubkey = p2pkh_script (body addr)\<rparr> \<in> set (tx_outputs tx)" for tx
    proof -
      have "tx_pays tx (body addr)" using that by (force simp: tx_pays_def pays_to_def list_ex_iff)
      with w show ?thesis using wallet.claim_iff by blast
    qed
    have exp: "word_of_int (now + 30) = (word_of_int now :: u64) + VALID_DURATION"
      by (simp add: VALID_DURATION_def)
    from gen [unfolded generate_outputs_Ok] obtain len where
      outs: "outs = [\<lparr>amount = Some PRICE, out_script = p2pkh_script (body addr)\<rparr>,
        \<lparr>amount = Some 0, out_script = op_return_script len (body put_addr)
          (rq_scheme rq @ ''://'' @ rq_host rq)\<rparr>]" unfolding h by blast
    from resp [unfolded invoice_response_Ok exp] obtain serialized where
      enc: "details_encode L \<lparr>pd_network = Some (network_to_string (s_network S)),
          time = word_of_int now, expires = Some (word_of_int now + VALID_DURATION), pd_memo = None,
          pd_merchant_data = Some (as_bytes (merchant_url_of rq)), outputs = outs,
          payment_url = Some ((rq_scheme rq @ ''://'' @ rq_host rq) @ PAYMENT_PATH)\<rparr> = Inr serialized"
      and raw: "request_encode L \<lparr>pki_type = Some ''none'', pki_data = None,
          payment_details_version = Some 1, serialized_payment_details = serialized,
          pr_signature = None\<rparr> = Inr (rs_body rs)" and st: "status rs = 402" and now: "0 \<le> now"
      by auto
    show ?thesis
      by (intro exI conjI, rule clk, rule node, rule node, rule node, rule node, rule w, rule enc, rule raw, rule st)
         (use now outs path put payable in auto)
  qed
qed

end
