(* ===== verification/Tx_Stream.thy ===== *)
theory Tx_Stream
  imports Scripts
begin

text \<open>
  \<open>src/src/bitcoin/tx_stream.rs\<close>: the stream of transactions from the node's ZMQ socket and
  the peering announcements found in it. A stream is modelled by the list of the items it has
  produced so far; an item is a value or an error that is passed on.
\<close>

datatype stream_error = Subscription ext_error | Deserialization ext_error

definition from_subscription_error :: "ext_error \<Rightarrow> stream_error" where
  "from_subscription_error err = Subscription err"

text \<open>
  \<open>bind\<close> is \<open>ZMQListener::bind\<close> with \<open>stream()\<close>: an error, or the raw transactions and
  subscription errors that arrive.
\<close>

definition get_tx_stream ::
  "(string \<Rightarrow> ext_error + (ext_error + bytes) list) \<Rightarrow> (bytes \<Rightarrow> ext_error + transaction) \<Rightarrow>
     string \<Rightarrow> ext_error + (stream_error + transaction) list" where
  "get_tx_stream bind deserialize node_addr =
     map_sum id (map (\<lambda>item.
       case item of
         Inl e \<Rightarrow> Inl (Subscription e)
       | Inr raw_tx \<Rightarrow> map_sum Deserialization id (deserialize raw_tx))) (bind node_addr)"

fun find_map :: "('a \<Rightarrow> 'b option) \<Rightarrow> 'a list \<Rightarrow> 'b option" where
  "find_map f [] = None"
| "find_map f (x # xs) = (case f x of Some y \<Rightarrow> Some y | None \<Rightarrow> find_map f xs)"

definition announced_by :: "settings \<Rightarrow> address \<Rightarrow> transaction \<Rightarrow> (string \<times> address) option" where
  "announced_by S dflt tx = find_map (extract_op_return S dflt) (map script_pubkey (tx_outputs tx))"

fun extract_details ::
  "settings \<Rightarrow> address \<Rightarrow> (stream_error + transaction) list \<Rightarrow>
     (stream_error + string \<times> address) list" where
  "extract_details S dflt [] = []"
| "extract_details S dflt (Inl e # stream) = Inl e # extract_details S dflt stream"
| "extract_details S dflt (Inr tx # stream) =
    (case announced_by S dflt tx of
       None \<Rightarrow> extract_details S dflt stream
     | Some details \<Rightarrow> Inr details # extract_details S dflt stream)"

section \<open>What comes out of the stream\<close>

lemma find_map_SomeD: "find_map f xs = Some y \<Longrightarrow> \<exists>x\<in>set xs. f x = Some y"
  by (induction xs) (auto split: option.splits)

lemma find_map_None: "find_map f xs = None \<longleftrightarrow> (\<forall>x\<in>set xs. f x = None)"
  by (induction xs) (auto split: option.splits)

lemma extract_op_return_Some:
  assumes "extract_op_return S dflt scr = Some (url, addr)"
  shows "\<exists>len. scr = op_return_script len (body addr) url \<and> unat len = 29 + length url"
    and "length (body addr) = 20"
    and "addr_network addr = into_bch_network (s_network S)"
    and "url \<noteq> ''http://'' @ bind_addr S"
proof -
  from assms have long: "31 < length scr" and op: "scr ! 0 = 106"
    and len: "unat (scr ! 1) = length scr - 2" and pre: "subslice 2 11 scr = KEYSERVER_PREFIX"
    and url: "from_utf8 (drop 31 scr) = Some url"
    and addr: "addr = dflt\<lparr>body := subslice 11 31 scr, addr_network := into_bch_network (s_network S)\<rparr>"
    and own: "url \<noteq> ''http://'' @ bind_addr S"
    by (auto simp: extract_op_return_def Let_def split: if_splits option.splits)
  show "length (body addr) = 20" using long addr by simp
  show "addr_network addr = into_bch_network (s_network S)" using addr by simp
  show "url \<noteq> ''http://'' @ bind_addr S" by (rule own)
  have u: "as_bytes url = drop 31 scr"
    using url by (auto simp: from_utf8_def as_bytes_def comp_def split: if_splits)
  have n: "length url = length scr - 31"
    using u length_as_bytes [of url] by simp
  have two: "subslice 0 2 scr = [scr ! 0, scr ! 1]"
    using long by (cases scr; cases "tl scr") (auto simp: subslice_def)
  have "scr = subslice 0 2 scr @ subslice 2 11 scr @ subslice 11 31 scr @ drop 31 scr"
    by (simp only: subslice_drop) (simp add: subslice_drop subslice_0)
  then have "scr = op_return_script (scr ! 1) (body addr) url"
    using two op pre addr u by (simp add: op_return_script_def)
  moreover have "unat (scr ! 1) = 29 + length url" using len n long by simp
  ultimately show "\<exists>len. scr = op_return_script len (body addr) url \<and> unat len = 29 + length url"
    by blast
qed

lemma details_of_stream:
  "Inr d \<in> set (extract_details S dflt stream) \<longleftrightarrow>
     (\<exists>tx. Inr tx \<in> set stream \<and> announced_by S dflt tx = Some d)"
  by (induction S dflt stream rule: extract_details.induct) (auto split: option.splits)

lemma errors_of_stream: "filter isl (extract_details S dflt stream) = map Inl (map projl (filter isl stream))"
  by (induction S dflt stream rule: extract_details.induct) (auto split: option.splits)

lemma extract_details_append:
  "extract_details S dflt (xs @ ys) = extract_details S dflt xs @ extract_details S dflt ys"
  by (induction S dflt xs rule: extract_details.induct) (auto split: option.splits)

text \<open>
  C28: only well-formed announcements leave the stream. Every address the peer client is told
  to poll comes from an output of a transaction of the stream that is exactly an announcement
  of that address and URL with a correct length byte; the address body has 20 bytes, is on
  the network of the settings, and the URL is not the server's own.
\<close>

theorem details_are_announced:
  assumes "Inr (url, addr) \<in> set (extract_details S dflt stream)"
  shows "\<exists>tx out len. Inr tx \<in> set stream \<and> out \<in> set (tx_outputs tx) \<and>
    script_pubkey out = op_return_script len (body addr) url \<and> unat len = 29 + length url \<and>
    length (body addr) = 20 \<and> addr_network addr = into_bch_network (s_network S) \<and>
    url \<noteq> ''http://'' @ bind_addr S"
proof -
  from assms obtain tx where tx: "Inr tx \<in> set stream"
    and "find_map (extract_op_return S dflt) (map script_pubkey (tx_outputs tx)) = Some (url, addr)"
    by (auto simp: details_of_stream announced_by_def)
  from find_map_SomeD [OF this(2)] obtain out where out: "out \<in> set (tx_outputs tx)"
    and scr: "extract_op_return S dflt (script_pubkey out) = Some (url, addr)"
    by auto
  from extract_op_return_Some(1) [OF scr] obtain len where
    "script_pubkey out = op_return_script len (body addr) url \<and> unat len = 29 + length url" ..
  with tx out extract_op_return_Some(2-4) [OF scr] show ?thesis by iprover
qed

text \<open>
  A paid invoice announces the upload. A transaction whose outputs are the two outputs of
  an invoice, in order, is turned into exactly one item for the peer client, the URL of the
  server and the address the client paid for, provided the pair can be announced at all; the
  items before and after it in the stream are not affected.
\<close>

theorem invoice_announces:
  assumes gen: "generate_outputs checks h url k = Ok outs" and h: "length h = 20"
    and tx: "map script_pubkey (tx_outputs tx) = map out_script outs"
    and str: "rust_str url"
    and fits: "length k = 20" "url \<noteq> []" "length url \<le> 226" "url \<noteq> ''http://'' @ bind_addr S"
  shows "extract_details S dflt (before @ Inr tx # after) =
    extract_details S dflt before @
    Inr (url, dflt\<lparr>body := k, addr_network := into_bch_network (s_network S)\<rparr>) #
    extract_details S dflt after"
proof -
  from gen obtain len where
    len: "add_u8 checks 29 (word_of_nat (length url)) = (Ok len :: (u8, server_error) result)"
    and outs: "map out_script outs = [p2pkh_script h, op_return_script len k url]"
    by (auto simp: generate_outputs_Ok)
  have "extract_op_return S dflt (p2pkh_script h) = None"
    using h by (simp add: extract_op_return_def p2pkh_script_def)
  moreover have "extract_op_return S dflt (op_return_script len k url) =
      Some (url, dflt\<lparr>body := k, addr_network := into_bch_network (s_network S)\<rparr>)"
    using extract_op_return_built [OF add_u8_length [OF len] str] fits by (simp add: announceable_def)
  ultimately have "announced_by S dflt tx =
      Some (url, dflt\<lparr>body := k, addr_network := into_bch_network (s_network S)\<rparr>)"
    by (simp add: announced_by_def tx outs)
  then show ?thesis by (simp add: extract_details_append)
qed

end
