(* ===== verification/Peer.thy ===== *)
theory Peer
  imports Payments Tx_Stream
begin

text \<open>
  \<open>src/src/net/peer.rs\<close>: the client that follows the announcements of other servers, waits,
  fetches the announced metadata and stores it after the checks of an upload. Each \<open>return\<close>
  of the closure ends the treatment of one item; a panic ends the whole task. The HTTP client
  is made without a timeout, so the \<open>await\<close> of a request may never be over: then nothing that
  follows it in the task ever runs, which is the outcome \<open>Panic\<close> as well, the one of a
  computation that does not come back.
\<close>

datatype peer_error = UrlError ext_error | ResponseError ext_error | PeerDecode

definition from_parse_error :: "ext_error \<Rightarrow> peer_error" where
  "from_parse_error err = UrlError err"

definition await :: "('s \<Rightarrow> 'a option \<times> 's) \<Rightarrow> ('s, 'a, 'e) io" where
  "await m = (\<lambda>s. case m s of (r, t) \<Rightarrow> (unwrap_opt r, t))"

definition get_metadata ::
  "('pk, 'sig, 'msg, 'z) pay_lib_scheme \<Rightarrow> ('s, 'x) net_sys_scheme \<Rightarrow> string \<Rightarrow> string \<Rightarrow>
     ('s, bytes, peer_error) io" where
  "get_metadata L X peer_url bitcoin_addr =
     (let url_str = peer_url @ ''/keys/'' @ bitcoin_addr in
      try_then (lift (map_err from_parse_error (from_sum (url_parse L url_str)))) (\<lambda>url.
      try_then (await (peer_send X url)) (\<lambda>sent.
      try_then (lift (map_err ResponseError (from_sum sent))) (\<lambda>response.
      lift (map_err ResponseError (from_sum response))))))"

definition delay_for :: "('s, 'x) net_sys_scheme \<Rightarrow> u64 \<Rightarrow> ('s, unit, unit) io" where
  "delay_for X secs = (\<lambda>s. (Ok (), sleep_secs X secs s))"

text \<open>The closure from the decoding of the received bytes on.\<close>

definition pull_metadata ::
  "('pk, 'sig, 'msg, 'z) pay_lib_scheme \<Rightarrow> ('s, 'x) net_sys_scheme \<Rightarrow> address \<Rightarrow> bytes \<Rightarrow>
     ('s, unit, unit) io" where
  "pull_metadata L X bitcoin_addr metadata_raw =
     (case md_decode L metadata_raw of
        Inl _ \<Rightarrow> lift (Ok ())
      | Inr metadata \<Rightarrow>
          try_then (lift (unwrap (from_sum (md_encode L metadata)))) (\<lambda>_.
          try_then (attempt (lift (validate L (secp256k1 L) bitcoin_addr metadata))) (\<lambda>valid.
          case valid of
            Inl _ \<Rightarrow> lift (Ok ())
          | Inr _ \<Rightarrow>
              (case payload_decode L (serialized_payload metadata) of
                 Inl _ \<Rightarrow> lift (Ok ())
               | Inr p \<Rightarrow>
                   try_then (attempt (check_timestamp L X bitcoin_addr p)) (\<lambda>checked.
                   case checked of
                     Inl _ \<Rightarrow> lift (Ok ())
                   | Inr verdict \<Rightarrow>
                       (case verdict of
                          Inl _ \<Rightarrow> lift (Ok ())
                        | Inr _ \<Rightarrow>
                            try_then (attempt (kdb_put L X bitcoin_addr metadata)) (\<lambda>_.
                            lift (Ok ()))))))))"

definition poll_item ::
  "('pk, 'sig, 'msg, 'z) pay_lib_scheme \<Rightarrow> ('s, 'x) net_sys_scheme \<Rightarrow>
     stream_error + string \<times> address \<Rightarrow> ('s, unit, unit) io" where
  "poll_item L X res =
     (case res of
        Inl _ \<Rightarrow> lift (Ok ())
      | Inr (peer_addr, bitcoin_addr) \<Rightarrow>
          (case addr_encode L bitcoin_addr of
             Inl _ \<Rightarrow> lift (Ok ())
           | Inr bitcoin_addr_str \<Rightarrow>
               try_then (delay_for X VALID_DURATION) (\<lambda>_.
               try_then (attempt (get_metadata L X peer_addr bitcoin_addr_str)) (\<lambda>got.
               case got of
                 Inl _ \<Rightarrow> lift (Ok ())
               | Inr metadata_raw \<Rightarrow> pull_metadata L X bitcoin_addr metadata_raw))))"

primrec peer_polling ::
  "('pk, 'sig, 'msg, 'z) pay_lib_scheme \<Rightarrow> ('s, 'x) net_sys_scheme \<Rightarrow>
     (stream_error + string \<times> address) list \<Rightarrow> ('s, unit, unit) io" where
  "peer_polling L X [] = lift (Ok ())"
| "peer_polling L X (res # key_stream) =
     try_then (poll_item L X res) (\<lambda>_. peer_polling L X key_stream)"

section \<open>One item\<close>

text \<open>
  An answered request ends \<open>get_metadata\<close> with the bytes or an error; one that is never
  answered is the only thing that keeps it from coming back.
\<close>

lemma get_metadata_answered:
  assumes "url_parse L (peer @ ''/keys/'' @ str) = Inr url" and "peer_send X url s = (Some sent, t)"
  shows "get_metadata L X peer str s =
    (map_err ResponseError (and_then (from_sum sent) from_sum), t)"
  using assms by (cases sent) (auto simp: get_metadata_def try_then_def await_def split: sum.splits)

lemma get_metadata_unanswered:
  "get_metadata L X peer str s = (Panic, t) \<longleftrightarrow>
     (\<exists>url. url_parse L (peer @ ''/keys/'' @ str) = Inr url \<and> peer_send X url s = (None, t))"
proof (cases "url_parse L (peer @ ''/keys/'' @ str)")
  case (Inr url)
  obtain q w where q: "peer_send X url s = (q, w)" by fastforce
  show ?thesis
  proof (cases q)
    case (Some sent)
    with get_metadata_answered [OF Inr, of X s sent w] Inr q show ?thesis
      by (auto simp: and_then_eq_Panic)
  qed (use Inr q in \<open>auto simp: get_metadata_def try_then_def await_def\<close>)
qed (simp add: get_metadata_def)

lemma get_metadata_view:
  assumes iso: "net_isolated X view" and run: "get_metadata L X url a s = (r, t)"
  shows "view t = view s"
proof (cases "url_parse L (url @ ''/keys/'' @ a)")
  case (Inr u)
  obtain q w where q: "peer_send X u s = (q, w)" by fastforce
  have "t = w"
    using run Inr q get_metadata_answered [OF Inr, of X s _ w] get_metadata_unanswered [of L X url a s w]
    by (cases q) auto
  then show ?thesis using iso q unfolding net_isolated_def by (metis snd_conv)
qed (use run in \<open>simp add: get_metadata_def\<close>)

lemma kdb_ready_view: "view t = view s \<Longrightarrow> kdb_ready L X view s \<Longrightarrow> kdb_ready L X view t"
  by (simp add: kdb_ready_def kdb_inv_def)

lemma get_metadata_keeps [keeps_intros]:
  "net_isolated X view \<Longrightarrow> keeps (kdb_ready L' X view) (get_metadata L X url a)"
  by (rule keepsI) (metis get_metadata_view kdb_ready_view)

lemma delay_view: "net_isolated X view \<Longrightarrow> view (sleep_secs X n s) = view s"
  by (simp add: net_isolated_def)

lemma delay_keeps [keeps_intros]:
  "net_isolated X view \<Longrightarrow> keeps (kdb_ready L X view) (delay_for X n)"
  by (rule keepsI) (auto simp: delay_for_def intro: kdb_ready_view [OF delay_view])

lemma pull_metadata_valid:
  assumes "md_decode L raw = Inr md" and "md_encode L md = Inr raw'"
    and "validate L (secp256k1 L) addr md = Ok ()"
    and "payload_decode L (serialized_payload md) = Inr p"
  shows "pull_metadata L X addr raw =
    try_then (attempt (check_timestamp L X addr p)) (\<lambda>checked.
      case checked of Inl _ \<Rightarrow> lift (Ok ()) | Inr (Inl _) \<Rightarrow> lift (Ok ())
      | Inr (Inr _) \<Rightarrow> try_then (attempt (kdb_put L X addr md)) (\<lambda>_. lift (Ok ())))"
  using assms by (simp add: pull_metadata_def try_then_def attempt_def cong: sum.case_cong)

text \<open>
  Either the treatment of fetched bytes leaves the database alone (up to the expired entry
  of the address), or it stores metadata that passed every check of an upload but the one of
  the scheme.
\<close>

lemma pull_metadata_cases:
  assumes ready: "kdb_ready L X view s" and run: "pull_metadata L X addr raw s = (r, u)"
  obtains
    (kept) "view u = view s \<or> view u = (view s)(body addr := None)" "kdb_ready L X view u"
  | (pulled) md p t q where "md_decode L raw = Inr md" "authentic L (body addr) md"
      "payload_decode L (serialized_payload md) = Inr p"
      "check_timestamp L X addr p s = (Ok (Inr ()), t)" "kdb_put L X addr md t = (q, u)"
      "kdb_ready L X view u"
proof (cases "\<exists>md p. md_decode L raw = Inr md \<and> validate L (secp256k1 L) addr md = Ok () \<and>
    payload_decode L (serialized_payload md) = Inr p")
  case False
  then have "u = s"
    using run by (cases "md_decode L raw")
      (auto simp: pull_metadata_def try_then_def attempt_def split: sum.splits result.splits)
  with ready kept show thesis by blast
next
  case True
  then obtain md p where md: "md_decode L raw = Inr md" "validate L (secp256k1 L) addr md = Ok ()"
    "payload_decode L (serialized_payload md) = Inr p" by blast
  obtain raw' where enc: "md_encode L md = Inr raw'"
    using md_roundtripD [OF kdb_readyD(2) [OF ready]] by blast
  note run = run [unfolded pull_metadata_valid [OF md(1) enc md(2,3)]]
  obtain c t where c: "check_timestamp L X addr p s = (c, t)" by fastforce
  have t: "kdb_ready L X view t" using kdb.check_ready [OF ready c] .
  show thesis
  proof (cases "c = Ok (Inr ())")
    case False
    then have "u = t"
      using run c by (cases c) (auto simp: try_then_def attempt_def split: sum.splits)
    with t check_timestamp_view [OF kdb_readyD(1) [OF ready] c] kept show thesis by blast
  next
    case True
    obtain q w where q: "kdb_put L X addr md t = (q, w)" by fastforce
    have "u = w"
      using run c True q by (cases q) (auto simp: try_then_def attempt_def)
    with True c q md admissibleI [OF md(2,3)] kdb.put_ready [OF t _ q] validate_Ok_iff pulled
    show thesis by metis
  qed
qed

text \<open>
  \<open>unanswered L X res s\<close>: the item \<open>res\<close>, treated from the state \<open>s\<close>, sends a request that the
  peer never answers.
\<close>

definition unanswered ::
  "('pk, 'sig, 'msg, 'z) pay_lib_scheme \<Rightarrow> ('s, 'x) net_sys_scheme \<Rightarrow>
     stream_error + string \<times> address \<Rightarrow> 's \<Rightarrow> bool" where
  "unanswered L X res s \<longleftrightarrow>
     (\<exists>peer addr str url. res = Inr (peer, addr) \<and> addr_encode L addr = Inr str \<and>
        url_parse L (peer @ ''/keys/'' @ str) = Inr url \<and>
        fst (peer_send X url (sleep_secs X VALID_DURATION s)) = None)"

lemma poll_item_cases:
  assumes ready: "kdb_ready L X view s" and iso: "net_isolated X view"
    and run: "poll_item L X res s = (r, u)"
  obtains
    (ignored) "view u = view s" "kdb_ready L X view u" "r = Ok ()" "\<not> unanswered L X res s"
  | (silent) "view u = view s" "kdb_ready L X view u" "r = Panic" "unanswered L X res s"
  | (fetched) peer addr str raw t where "res = Inr (peer, addr)" "addr_encode L addr = Inr str"
      "get_metadata L X peer str (sleep_secs X VALID_DURATION s) = (Ok raw, t)"
      "view t = view s" "kdb_ready L X view t" "pull_metadata L X addr raw t = (r, u)"
      "\<not> unanswered L X res s"
proof -
  consider "u = s" "r = Ok ()" "\<not> unanswered L X res s" | peer addr str where "res = Inr (peer, addr)" "addr_encode L addr = Inr str"
    using run by (auto simp: poll_item_def unanswered_def split: sum.splits prod.splits)
  then show thesis
  proof cases
    case 1
    with ready ignored show thesis by simp
  next
    case (2 peer addr str)
    let ?s = "sleep_secs X VALID_DURATION s"
    obtain g t where g: "get_metadata L X peer str ?s = (g, t)" by fastforce
    have t: "view t = view s"
      using get_metadata_view [OF iso g] delay_view [OF iso] by simp
    have ready_t: "kdb_ready L X view t" by (rule kdb_ready_view [OF t ready])
    have stuck: "unanswered L X res s \<longleftrightarrow> g = Panic"
      using get_metadata_unanswered [of L X peer str ?s] g 2
      by (auto simp: unanswered_def) (metis fst_conv prod.collapse)+
    show thesis
    proof (cases g)
      case (Ok raw)
      with 2 stuck run g t ready_t fetched show thesis
        by (simp add: poll_item_def delay_for_def try_then_def attempt_def)
    next
      case (Err e)
      with 2 stuck run g t ready_t ignored show thesis
        by (simp add: poll_item_def delay_for_def try_then_def attempt_def)
    next
      case Panic
      with 2 stuck run g t ready_t silent show thesis
        by (simp add: poll_item_def delay_for_def try_then_def attempt_def)
    qed
  qed
qed

text \<open>What one item can change: its own entry only, and not backwards in time.\<close>

definition replaced_in_order ::
  "('pk, 'sig, 'msg, 'z) pay_lib_scheme \<Rightarrow> ('s, 'x) net_sys_scheme \<Rightarrow> bytes \<Rightarrow> 's \<Rightarrow>
     address_metadata \<Rightarrow> address_metadata \<Rightarrow> bool" where
  "replaced_in_order L X k t old new \<longleftrightarrow> stamp_of L old \<le> stamp_of L new \<or>
     lapsed L X k old t"

lemma pull_metadata_effect:
  assumes ready: "kdb_ready L X view s" and run: "pull_metadata L X addr raw s = (r, u)"
  shows "kdb_ready L X view u \<and>
    (kdb_lookup L view u = kdb_lookup L view s \<or>
     kdb_lookup L view u = (kdb_lookup L view s)(body addr := None) \<or>
     (\<exists>md. md_decode L raw = Inr md \<and> authentic L (body addr) md \<and>
        kdb_lookup L view u = (kdb_lookup L view s)(body addr \<mapsto> md) \<and>
        (\<forall>old. kdb_lookup L view s (body addr) = Some old \<longrightarrow> replaced_in_order L X (body addr) s old md)))"
  using assms
proof (cases rule: pull_metadata_cases)
  case kept
  then show ?thesis using kdb_lookup_frame [OF kept(1)] by blast
next
  case (pulled md p t q)
  note ok = kdb_readyD(1) [OF ready] and t = kdb.check_ready [OF ready pulled(4)]
  note frame = kdb.check_frame [OF ready pulled(4)]
  have order: "replaced_in_order L X (body addr) s old md" if old: "kdb_lookup L view s (body addr) = Some old" for old
  proof (cases "kdb_lookup L view t (body addr)")
    case None
    from check_timestamp_dropped [OF ok pulled(4) old None] show ?thesis
      by (simp add: replaced_in_order_def)
  next
    case (Some m)
    with frame old have "m = old" by auto
    with kdb.check_newer [OF ready pulled(4) Some] pulled(3) show ?thesis
      by (simp add: replaced_in_order_def stamp_of_def)
  qed
  have "kdb_lookup L view u = kdb_lookup L view t \<or>
      kdb_lookup L view u = (kdb_lookup L view t)(body addr \<mapsto> md)"
    using kdb.put_stored [OF t] kdb.put_failed [OF t] kdb.put_returns [OF t] pulled(5)
    by (cases q) auto
  then have "kdb_lookup L view u = kdb_lookup L view s \<or>
     kdb_lookup L view u = (kdb_lookup L view s)(body addr := None) \<or>
     kdb_lookup L view u = (kdb_lookup L view s)(body addr \<mapsto> md)"
    using frame by (metis fun_upd_upd)
  with order pulled(1,2,6) show ?thesis by blast
qed

lemma poll_item_effect:
  assumes ready: "kdb_ready L X view s" and iso: "net_isolated X view"
    and run: "poll_item L X res s = (r, u)"
  shows "kdb_ready L X view u \<and>
    (kdb_lookup L view u = kdb_lookup L view s \<or>
     (\<exists>peer addr str raw t. res = Inr (peer, addr) \<and> addr_encode L addr = Inr str \<and>
       get_metadata L X peer str (sleep_secs X VALID_DURATION s) = (Ok raw, t) \<and>
       (kdb_lookup L view u = (kdb_lookup L view s)(body addr := None) \<or>
        (\<exists>md. md_decode L raw = Inr md \<and> authentic L (body addr) md \<and>
          kdb_lookup L view u = (kdb_lookup L view s)(body addr \<mapsto> md) \<and>
          (\<forall>old. kdb_lookup L view s (body addr) = Some old \<longrightarrow> replaced_in_order L X (body addr) t old md)))))"
  using assms
proof (cases rule: poll_item_cases)
  case ignored
  then show ?thesis using kdb_lookup_cong [OF ignored(1)] by blast
next
  case silent
  then show ?thesis using kdb_lookup_cong [OF silent(1)] by blast
next
  case (fetched peer addr str raw t)
  from pull_metadata_effect [OF fetched(5,6)] show ?thesis
    unfolding kdb_lookup_cong [OF fetched(4)] using fetched(1-3) by blast
qed

lemma poll_item_keeps: "net_isolated X view \<Longrightarrow> keeps (kdb_ready L X view) (poll_item L X res)"
  by (rule keepsI) (drule (2) poll_item_effect [rotated, THEN conjunct1])

text \<open>
  Peers cannot plant entries. Whatever other servers answer to the items of a stream, the
  database stays ready, and every entry that was not there before is authentic for its key
  and belongs to an address that the stream announced.
\<close>

theorem peers_cannot_forge:
  assumes ready: "kdb_ready L X view s" and iso: "net_isolated X view"
    and run: "peer_polling L X stream s = (r, u)"
  shows "kdb_ready L X view u \<and>
    (\<forall>k md. kdb_lookup L view u k = Some md \<longrightarrow> kdb_lookup L view s k = Some md \<or>
       authentic L k md \<and> (\<exists>peer addr. Inr (peer, addr) \<in> set stream \<and> body addr = k))"
  using ready run
proof (induction stream arbitrary: s)
  case (Cons res stream)
  obtain q t where q: "poll_item L X res s = (q, t)" by fastforce
  note eff = poll_item_effect [OF Cons.prems(1) iso q]
  then have t: "kdb_ready L X view t" by blast
  have new: "kdb_lookup L view s k = Some md \<or> authentic L k md \<and>
      (\<exists>peer addr. Inr (peer, addr) \<in> set (res # stream) \<and> body addr = k)"
    if "kdb_lookup L view t k = Some md" for k md
    using eff that by (auto split: if_splits) blast
  show ?case
  proof (cases "q = Ok ()")
    case True
    with Cons.prems(2) q have "peer_polling L X stream t = (r, u)" by (simp add: try_then_def)
    from Cons.IH [OF t this] new show ?thesis by (meson list.set_intros(2))
  next
    case False
    then have "u = t" using Cons.prems(2) q by (cases q) (auto simp: try_then_def)
    with t new show ?thesis by blast
  qed
qed simp

text \<open>
  C22: a pull never goes back in time. When the treatment of an announcement changes what is
  stored under a key, the key is the one announced, the new metadata is authentic for it and
  is what the announced peer answered, and it is not older than the old one, unless the old
  one has passed its time to live by the clock reading that this pull makes once it has the
  answer of the peer.
\<close>

theorem pull_in_order:
  assumes ready: "kdb_ready L X view s" and iso: "net_isolated X view"
    and run: "poll_item L X res s = (r, u)"
    and old: "kdb_lookup L view s k = Some old" and new: "kdb_lookup L view u k = Some new"
    and changed: "new \<noteq> old"
  shows "\<exists>peer addr str raw t. res = Inr (peer, addr) \<and> body addr = k \<and> addr_encode L addr = Inr str \<and>
    get_metadata L X peer str (sleep_secs X VALID_DURATION s) = (Ok raw, t) \<and>
    md_decode L raw = Inr new \<and> authentic L k new \<and>
    (stamp_of L old \<le> stamp_of L new \<or> lapsed L X k old t)"
  using poll_item_effect [OF ready iso run] old new changed
  by (auto simp: replaced_in_order_def split: if_splits)

section \<open>The task goes on\<close>

lemma pull_metadata_returns:
  assumes ready: "kdb_ready L X view s" and dig: "digests_accepted L"
    and release: "\<not> overflow_checks L" and clock: "\<And>u. 0 \<le> fst (sys_now X u)"
  shows "\<exists>u. pull_metadata L X addr raw s = (Ok (), u)"
proof (cases "\<exists>md p. md_decode L raw = Inr md \<and> validate L (secp256k1 L) addr md = Ok () \<and>
    payload_decode L (serialized_payload md) = Inr p")
  case False
  then show ?thesis
    using md_roundtripD [OF kdb_readyD(2) [OF ready]] validate_neq_Panic [OF dig, of addr]
    by (cases "md_decode L raw")
       (auto simp: pull_metadata_def try_then_def attempt_def split: sum.splits result.splits)
next
  case True
  then obtain md p where md: "md_decode L raw = Inr md" "validate L (secp256k1 L) addr md = Ok ()"
    "payload_decode L (serialized_payload md) = Inr p" by blast
  obtain raw' where enc: "md_encode L md = Inr raw'"
    using md_roundtripD [OF kdb_readyD(2) [OF ready]] by blast
  obtain c t where c: "check_timestamp L X addr p s = (c, t)" by fastforce
  have cP: "c \<noteq> Panic"
    using checks_never_panic [OF ready clock, of p addr] release c by simp
  obtain q w where q: "kdb_put L X addr md t = (q, w)" by fastforce
  have "q \<noteq> Panic" using kdb.put_returns [OF kdb.check_ready [OF ready c]] q by auto
  then show ?thesis unfolding pull_metadata_valid [OF md(1) enc md(2,3)]
    using c q cP by (cases c; cases q) (auto simp: try_then_def attempt_def split: sum.splits)
qed

lemma poll_item_returns:
  assumes ready: "kdb_ready L X view s" and iso: "net_isolated X view" and dig: "digests_accepted L"
    and release: "\<not> overflow_checks L" and clock: "\<And>u. 0 \<le> fst (sys_now X u)"
  obtains (over) u where "poll_item L X res s = (Ok (), u)" "kdb_ready L X view u" "\<not> unanswered L X res s"
    | (stuck) u where "poll_item L X res s = (Panic, u)" "view u = view s" "unanswered L X res s"
proof -
  obtain r u where run: "poll_item L X res s = (r, u)" by fastforce
  note ready_u = poll_item_effect [OF ready iso run, THEN conjunct1]
  from ready iso run show thesis
  proof (cases rule: poll_item_cases)
    case (fetched peer addr str raw t)
    from pull_metadata_returns [OF fetched(5) dig release clock, of addr raw] fetched(6)
    have "r = Ok ()" by auto
    with over run ready_u fetched(7) show thesis by blast
  qed (use run over stuck in blast)+
qed

text \<open>
  C23: the polling task survives everything but silence. In a release build with a clock past
  the epoch, the task treats the items one after the other, whatever they are and whatever
  errors, bytes or metadata the peers answer, and is over exactly when the stream is, unless a
  peer takes a request and never answers it. At the first such item the task stops for good:
  it waits without a timeout, stores nothing, and no item after it is ever treated.
\<close>

theorem polling_until_silence:
  assumes "kdb_ready L X view s" and "net_isolated X view" and "digests_accepted L"
    and "\<not> overflow_checks L" and "\<And>u. 0 \<le> fst (sys_now X u)"
  shows "(\<exists>t. peer_polling L X stream s = (Ok (), t) \<and>
      (\<forall>before item after. stream = before @ item # after \<longrightarrow>
        (\<exists>w. peer_polling L X before s = (Ok (), w) \<and> \<not> unanswered L X item w))) \<or>
    (\<exists>before item after w u. stream = before @ item # after \<and>
      peer_polling L X before s = (Ok (), w) \<and> unanswered L X item w \<and> view u = view w \<and>
      (\<forall>later. peer_polling L X (before @ item # later) s = (Panic, u)))"
  using assms(1)
proof (induction stream arbitrary: s)
  case Nil
  show ?case by simp
next
  case (Cons item stream)
  from Cons.prems assms(2-5) show ?case
  proof (cases rule: poll_item_returns [where res = item])
    case (over u)
    have first: "peer_polling L X (item # items) s = peer_polling L X items u" for items
      using over(1) by (simp add: try_then_def)
    from Cons.IH [OF over(2)] show ?thesis
    proof (elim disjE exE conjE)
      fix t
      assume "peer_polling L X stream u = (Ok (), t)" and
        "\<forall>before item after. stream = before @ item # after \<longrightarrow>
          (\<exists>w. peer_polling L X before u = (Ok (), w) \<and> \<not> unanswered L X item w)"
      with first over(3) show ?thesis
        by (intro disjI1 exI [of _ t]) (auto simp: Cons_eq_append_conv simp del: peer_polling.simps(2))
    next
      fix before stop after w v
      assume "stream = before @ stop # after" and "peer_polling L X before u = (Ok (), w)"
        and "unanswered L X stop w" and "view v = view w"
        and "\<forall>later. peer_polling L X (before @ stop # later) u = (Panic, v)"
      with first show ?thesis
        by (intro disjI2 exI [of _ "item # before"] exI [of _ stop] exI [of _ after] exI [of _ w] exI [of _ v])
           (simp del: peer_polling.simps(2))
    qed
  next
    case (stuck u)
    have "peer_polling L X (item # later) s = (Panic, u)" for later
      using stuck(1) by (simp add: try_then_def)
    with stuck(2,3) show ?thesis
      by (intro disjI2 exI [of _ "[]"] exI [of _ item] exI [of _ stream] exI [of _ s] exI [of _ u])
         (simp del: peer_polling.simps(2))
  qed
qed

section \<open>Replication\<close>

lemma pull_first:
  assumes md: "md_decode L raw = Inr md" "md_encode L md = Inr raw'" "authentic L (body addr) md"
      "payload_decode L (serialized_payload md) = Inr p"
    and absent: "rocks_get X (body addr) s = (Inr None, s1)"
    and stored: "rocks_put X (body addr) raw' s1 = (Inr (), s2)"
  shows "pull_metadata L X addr raw s = (Ok (), s2)"
proof -
  have "validate L (secp256k1 L) addr md = Ok ()" using md(3) by (simp add: validate_Ok_iff)
  note pull = pull_metadata_valid [OF md(1,2) this md(4)]
  have "check_timestamp L X addr p s = (Ok (Inr ()), s1)"
    using kdb_get_absent [OF absent, of L] by (simp add: check_timestamp_def try_then_def)
  moreover have "kdb_put L X addr md s1 = (Ok (), s2)"
    using md(2) stored by (simp add: kdb_put_def from_sum_io_def)
  ultimately show ?thesis unfolding pull by (simp add: try_then_def attempt_def)
qed

text \<open>Polling an instance that holds the entry, down to the write that ends it.\<close>

lemma poll_fetched:
  assumes ready_a: "kdb_ready L XA view_a sa" and ready_b: "kdb_ready L XB view_b sb"
    and served: "get_key L XA rq sa = (Ok rs, sa')" "addr_decode L (rq_addr rq) = Inr addr_a"
    and same: "body addr = body addr_a"
    and enc: "addr_encode L addr = Inr str"
    and url: "url_parse L (peer @ ''/keys/'' @ str) = Inr url"
    and answer: "peer_send XB url (sleep_secs XB VALID_DURATION sb) = (Some (Inr (Inr (rs_body rs))), s1)"
    and absent: "rocks_get XB (body addr) s1 = (Inr None, s2)"
    and healthy: "\<And>raw. isl (fst (rocks_put XB (body addr) raw s2)) = False"
    and iso: "net_isolated XB view_b"
  obtains md u where "poll_item L XB (Inr (peer, addr)) sb = (Ok (), u)"
    and "rocks_put XB (body addr) (rs_body rs) s2 = (Inr (), u)"
    and "kdb_lookup L view_a sa (body addr) = Some md"
    and "kdb_lookup L view_b u = (kdb_lookup L view_b sb)(body addr \<mapsto> md)"
proof -
  from served obtain md where get: "kdb_get L XA addr_a sa = (Ok (Some md), sa')"
    and raw: "md_encode L md = Inr (rs_body rs)"
    by (auto simp: get_key_def io_eqs)
  have lk: "kdb_lookup L view_a sa (body addr) = Some md" and adm: "admissible L (body addr) md"
    using kdb.get_found [OF ready_a get] kdb.get_admissible [OF ready_a get] same by auto
  from adm obtain p where p: "payload_decode L (serialized_payload md) = Inr p"
    and auth: "authentic L (body addr) md" by (auto simp: admissible_def not_isl_iff)
  have dec: "md_decode L (rs_body rs) = Inr md"
    using md_roundtripD [OF kdb_readyD(2) [OF ready_a], of md] raw by auto
  obtain u where put: "rocks_put XB (body addr) (rs_body rs) s2 = (Inr (), u)"
    using healthy [of "rs_body rs"] by (cases "rocks_put XB (body addr) (rs_body rs) s2")
      (auto simp: not_isl_iff)
  have pull: "pull_metadata L XB addr (rs_body rs) s1 = (Ok (), u)"
    by (rule pull_first [OF dec raw auth p absent put])
  have poll: "poll_item L XB (Inr (peer, addr)) sb = (Ok (), u)"
    using enc get_metadata_answered [OF url answer] pull
    by (simp add: poll_item_def delay_for_def try_then_def attempt_def)
  note ok = kdb_readyD(1) [OF ready_b]
  have "view_b s2 = view_b sb"
    using rocks_getD(1) [OF ok absent] iso answer delay_view [OF iso]
    unfolding net_isolated_def by (metis snd_conv)
  moreover have "view_b u = (view_b s2)(body addr \<mapsto> rs_body rs)"
    using rocks_putD [OF ok put] by simp
  ultimately have "kdb_lookup L view_b u = (kdb_lookup L view_b sb)(body addr \<mapsto> md)"
    using kdb_lookup_store [OF _ dec, of view_b u sb "body addr"] by simp
  with poll put lk that show ?thesis by blast
qed

text \<open>
  Entries replicate. When a peer's URL is served by another instance of this program, so
  that the answer to the polling request is the body of that instance's \<open>GET\<close>, an instance
  without an entry for the announced address ends up with exactly the entry of the other.
\<close>

theorem polling_replicates:
  assumes ready_a: "kdb_ready L XA view_a sa" and ready_b: "kdb_ready L XB view_b sb"
    and served: "get_key L XA rq sa = (Ok rs, sa')" "addr_decode L (rq_addr rq) = Inr addr_a"
    and same: "body addr = body addr_a"
    and enc: "addr_encode L addr = Inr str"
    and url: "url_parse L (peer @ ''/keys/'' @ str) = Inr url"
    and answer: "peer_send XB url (sleep_secs XB VALID_DURATION sb) = (Some (Inr (Inr (rs_body rs))), s1)"
    and absent: "rocks_get XB (body addr) s1 = (Inr None, s2)"
    and healthy: "\<And>raw. isl (fst (rocks_put XB (body addr) raw s2)) = False"
    and iso: "net_isolated XB view_b"
  shows "\<exists>md u. poll_item L XB (Inr (peer, addr)) sb = (Ok (), u) \<and>
    kdb_lookup L view_a sa (body addr) = Some md \<and>
    kdb_lookup L view_b u = (kdb_lookup L view_b sb)(body addr \<mapsto> md)"
  by (rule poll_fetched [OF assms]) blast

text \<open>
  C39: the scheme is checked on uploads only. Authentic metadata with another signature scheme
  than ECDSA is refused by \<open>put_key\<close>, without any effect, and stored when a peer serves it.
\<close>

theorem scheme_checked_on_upload_only:
  assumes md: "md_decode L raw = Inr md" "md_encode L md = Inr raw'" "authentic L (body addr) md"
      "payload_decode L (serialized_payload md) = Inr p"
    and scheme: "scheme md \<noteq> 1"
    and rq: "rq_chunks rq = [Inr raw]" "addr_decode L (rq_addr rq) = Inr addr"
    and absent: "rocks_get X (body addr) s = (Inr None, s1)"
    and stored: "rocks_put X (body addr) raw' s1 = (Inr (), s2)"
  shows "put_key L X rq s = (Err UnsupportedSigScheme, s) \<and>
    pull_metadata L X addr raw s = (Ok (), s2)"
  using pull_first [OF md absent stored] md(1) scheme rq
  by (simp add: put_key_split screen_put_def)

end
