(* ===== verification/Interleaving.thy ===== *)
theory Interleaving
  imports Handlers
begin

text \<open>
  The database operations of \<open>src/src/db.rs\<close> under concurrency. Every worker thread and the
  polling task share one \<open>KeyDB\<close> without a lock, so the RocksDB calls inside one \<open>get\<close>, or
  between the check and the write of one upload, interleave with those of other threads and
  with compaction. Here the handlers of \<open>GET\<close> and of a screened \<open>PUT\<close> are cut at these calls
  and run as threads of a step relation.
\<close>

section \<open>A read, up to the deletion of an expired entry\<close>

definition kdb_peek ::
  "('pk, 'sig, 'msg, 'z) model_lib_scheme \<Rightarrow> ('s, 'x) db_sys_scheme \<Rightarrow> address \<Rightarrow>
     ('s, (address_metadata \<times> bool) option, ext_error) io" where
  "kdb_peek L X addr =
     try_then (from_sum_io (rocks_get X (body addr))) (\<lambda>opt_dat.
     case opt_dat of
       None \<Rightarrow> lift (Ok None)
     | Some dat \<Rightarrow>
         try_then (lift (unwrap (from_sum (md_decode L dat)))) (\<lambda>metadata.
         try_then (lift (unwrap (from_sum (payload_decode L (serialized_payload metadata))))) (\<lambda>p.
         try_then (expired L X p) (\<lambda>e. lift (Ok (Some (metadata, e)))))))"

definition finish_get ::
  "('s, 'x) db_sys_scheme \<Rightarrow> address \<Rightarrow> (address_metadata \<times> bool) option \<Rightarrow>
     ('s, address_metadata option, ext_error) io" where
  "finish_get X addr seen =
     (case seen of
        None \<Rightarrow> lift (Ok None)
      | Some (metadata, e) \<Rightarrow>
          if e then try_then (from_sum_io (rocks_delete X (body addr))) (\<lambda>_. lift (Ok None))
          else lift (Ok (Some metadata)))"

lemma try_then_assoc: "try_then (try_then m f) g = try_then m (\<lambda>a. try_then (f a) g)"
  by (auto simp: try_then_def fun_eq_iff split: prod.splits result.splits)

lemma try_then_cong: "(\<And>a. f a = g a) \<Longrightarrow> try_then m f = try_then m g"
  by (rule arg_cong [where f = "try_then m"], rule ext)

lemma kdb_get_peek: "kdb_get L X addr = try_then (kdb_peek L X addr) (finish_get X addr)"
  unfolding kdb_get_def kdb_peek_def try_then_assoc
  by (intro try_then_cong) (auto simp: try_then_assoc finish_get_def split: option.split
      intro!: try_then_cong)

section \<open>Threads\<close>

datatype job =
    Get address
  | Put address address_metadata payload

datatype thread =
    Begin
  | Stale
  | Passed
  | Over "(response, server_error) result"

record 's shared =
  db :: 's
  thread_of :: "nat \<Rightarrow> thread"

definition serve :: "('pk, 'sig, 'msg, 'z) model_lib_scheme \<Rightarrow> address_metadata \<Rightarrow>
    (response, server_error) result" where
  "serve L md = and_then (unwrap (from_sum (md_encode L md))) (\<lambda>raw.
     Ok \<lparr>status = 200, rs_headers = [], rs_body = raw\<rparr>)"

text \<open>
  What a thread does with what it saw: nothing there, an expired entry that it must delete
  first, or a live one that it serves, or compares with the payload it wants to store.
\<close>

fun absent_next :: "job \<Rightarrow> thread" where
  "absent_next (Get addr) = Over (Err NotFound)"
| "absent_next (Put addr md p) = Passed"

fun job_addr :: "job \<Rightarrow> address" where
  "job_addr (Get addr) = addr"
| "job_addr (Put addr md p) = addr"

fun live_next ::
  "('pk, 'sig, 'msg, 'z) model_lib_scheme \<Rightarrow> ('s, 'x) db_sys_scheme \<Rightarrow> job \<Rightarrow>
     address_metadata \<Rightarrow> 's \<Rightarrow> thread \<times> 's" where
  "live_next L X (Get addr) old d = (Over (serve L old), d)"
| "live_next L X (Put addr md new) old d =
    (case payload_decode L (serialized_payload old) of
       Inl _ \<Rightarrow> (Over Panic, d)
     | Inr old_payload \<Rightarrow>
         if sint (timestamp new) < sint (timestamp old_payload)
         then (Over (Err (Validation Outdated)), d)
         else (case expired L X new d of
             (Ok e, d') \<Rightarrow> (if e then Over (Err (Validation ExpiredTTL)) else Passed, d')
           | (Err e, d') \<Rightarrow> (Over (Err (DB e)), d')
           | (Panic, d') \<Rightarrow> (Over Panic, d')))"

definition look ::
  "('pk, 'sig, 'msg, 'z) model_lib_scheme \<Rightarrow> ('s, 'x) db_sys_scheme \<Rightarrow> job \<Rightarrow> 's \<Rightarrow> thread \<times> 's" where
  "look L X j d =
     (case kdb_peek L X (job_addr j) d of
        (Ok None, d') \<Rightarrow> (absent_next j, d')
      | (Ok (Some (old, True)), d') \<Rightarrow> (Stale, d')
      | (Ok (Some (old, False)), d') \<Rightarrow> live_next L X j old d'
      | (Err e, d') \<Rightarrow> (Over (Err (DB e)), d')
      | (Panic, d') \<Rightarrow> (Over Panic, d'))"

definition drop_stale :: "('s, 'x) db_sys_scheme \<Rightarrow> job \<Rightarrow> 's \<Rightarrow> thread \<times> 's" where
  "drop_stale X j d =
     (case rocks_delete X (body (job_addr j)) d of
        (Inr _, d') \<Rightarrow> (absent_next j, d')
      | (Inl e, d') \<Rightarrow> (Over (Err (DB e)), d'))"

definition commit ::
  "('pk, 'sig, 'msg, 'z) model_lib_scheme \<Rightarrow> ('s, 'x) db_sys_scheme \<Rightarrow> address \<Rightarrow>
     address_metadata \<Rightarrow> 's \<Rightarrow> thread \<times> 's" where
  "commit L X addr md d =
     (case kdb_put L X addr md d of
        (Ok _, d') \<Rightarrow> (Over (Ok \<lparr>status = 200, rs_headers = [], rs_body = []\<rparr>), d')
      | (Err e, d') \<Rightarrow> (Over (Err (DB e)), d')
      | (Panic, d') \<Rightarrow> (Over Panic, d'))"

inductive db_step ::
  "('pk, 'sig, 'msg, 'z) model_lib_scheme \<Rightarrow> ('s, 'x) db_sys_scheme \<Rightarrow> 's view \<Rightarrow>
     (nat \<Rightarrow> job) \<Rightarrow> 's shared \<Rightarrow> 's shared \<Rightarrow> bool"
  for L X view jobs where
  look: "thread_of s i = Begin \<Longrightarrow> look L X (jobs i) (db s) = (th, d) \<Longrightarrow>
    db_step L X view jobs s (s\<lparr>db := d, thread_of := (thread_of s)(i := th)\<rparr>)"
| drop: "thread_of s i = Stale \<Longrightarrow> drop_stale X (jobs i) (db s) = (th, d) \<Longrightarrow>
    db_step L X view jobs s (s\<lparr>db := d, thread_of := (thread_of s)(i := th)\<rparr>)"
| commit: "thread_of s i = Passed \<Longrightarrow> jobs i = Put addr md p \<Longrightarrow>
    commit L X addr md (db s) = (th, d) \<Longrightarrow>
    db_step L X view jobs s (s\<lparr>db := d, thread_of := (thread_of s)(i := th)\<rparr>)"
| compact: "view (db s) k = Some v \<Longrightarrow> ttl_filter L X level k v (db s) = (Ok Remove, d0) \<Longrightarrow>
    view d = (view (db s))(k := None) \<Longrightarrow>
    db_step L X view jobs s (s\<lparr>db := d\<rparr>)"

inductive_cases db_stepE: "db_step L X view jobs s t"

section \<open>A thread alone is its handler\<close>

fun handler ::
  "('pk, 'sig, 'msg, 'z) net_lib_scheme \<Rightarrow> ('s, 'x) db_sys_scheme \<Rightarrow> job \<Rightarrow>
     ('s, response, server_error) io" where
  "handler L X (Get addr) =
     try_then (map_err_io from_rocks_error (kdb_get L X addr)) (\<lambda>found.
     try_then (lift (ok_or NotFound found)) (\<lambda>metadata. lift (serve L metadata)))"
| "handler L X (Put addr md p) = store_put L X addr md p"

lemma get_key_handler:
  "get_key L X rq =
     try_then (lift (map_err from_address_errors (from_sum (addr_decode L (rq_addr rq)))))
       (\<lambda>addr. handler L X (Get addr))"
  unfolding get_key_def handler.simps serve_def lift_and_then ..

text \<open>\<open>rest\<close> is what a thread still has to do, as one uninterrupted computation.\<close>

fun commit_rest ::
  "('pk, 'sig, 'msg, 'z) model_lib_scheme \<Rightarrow> ('s, 'x) db_sys_scheme \<Rightarrow> job \<Rightarrow>
     ('s, response, server_error) io" where
  "commit_rest L X (Get addr) = lift (Err NotFound)"
| "commit_rest L X (Put addr md p) =
     try_then (map_err_io from_rocks_error (kdb_put L X addr md)) (\<lambda>_.
     lift (Ok \<lparr>status = 200, rs_headers = [], rs_body = []\<rparr>))"

fun rest ::
  "('pk, 'sig, 'msg, 'z) net_lib_scheme \<Rightarrow> ('s, 'x) db_sys_scheme \<Rightarrow> job \<Rightarrow> thread \<Rightarrow>
     ('s, response, server_error) io" where
  "rest L X j Begin = handler L X j"
| "rest L X j Stale =
     try_then (map_err_io from_rocks_error (from_sum_io (rocks_delete X (body (job_addr j)))))
       (\<lambda>_. commit_rest L X j)"
| "rest L X j Passed = commit_rest L X j"
| "rest L X j (Over r) = lift r"

lemma absent_rest [simp]: "rest L X j (absent_next j) = commit_rest L X j"
  by (cases j) simp_all

lemma drop_rest:
  "drop_stale X j d = (th, d') \<Longrightarrow> rest L X j Stale d = rest L X j th d'"
  by (auto simp: drop_stale_def try_then_def map_err_io_def from_sum_io_def from_rocks_error_def
      split: prod.splits sum.splits)

lemma commit_rest_done:
  "commit L X addr md d = (th, d') \<Longrightarrow> rest L X (Put addr md p) Passed d = rest L X (Put addr md p) th d'"
  by (auto simp: commit_def try_then_def map_err_io_def from_rocks_error_def
      split: prod.splits result.splits)

text \<open>The handler, by what the first look finds.\<close>

lemma handler_absent:
  "kdb_peek L X (job_addr j) d = (Ok None, d') \<Longrightarrow> handler L X j d = commit_rest L X j d'"
  by (cases j) (simp_all add: kdb_get_peek finish_get_def try_then_def map_err_io_def
      store_put_def check_timestamp_def)

lemma handler_stale:
  "kdb_peek L X (job_addr j) d = (Ok (Some (old, True)), d') \<Longrightarrow> handler L X j d = rest L X j Stale d'"
  by (cases j; cases "rocks_delete X (body (job_addr j)) d'"; cases "fst (rocks_delete X (body (job_addr j)) d')")
     (simp_all add: kdb_get_peek finish_get_def try_then_def map_err_io_def from_sum_io_def
      store_put_def check_timestamp_def)

lemma handler_live:
  assumes peek: "kdb_peek L X (job_addr j) d = (Ok (Some (old, False)), d1)"
    and live: "live_next L X j old d1 = (th, d')"
  shows "handler L X j d = rest L X j th d'"
proof (cases j)
  case (Get addr)
  with assms show ?thesis
    by (auto simp: kdb_get_peek finish_get_def try_then_def map_err_io_def)
next
  case (Put addr md p)
  have get: "kdb_get L X addr d = (Ok (Some old), d1)"
    using peek Put by (simp add: kdb_get_peek finish_get_def try_then_def)
  show ?thesis
  proof (cases "payload_decode L (serialized_payload old)")
    case (Inl e)
    with Put get live show ?thesis
      by (auto simp: store_put_def check_timestamp_def try_then_def map_err_io_def)
  next
    case (Inr q)
    obtain r d2 where e: "expired L X p d1 = (r, d2)" by fastforce
    have "r \<noteq> Err x" for x using e expired_neq_Err by metis
    with Put get live Inr e show ?thesis
      by (cases r) (auto simp: store_put_def check_timestamp_def try_then_def map_err_io_def
          from_validation_error_def split: if_splits)
  qed
qed

lemma look_rest:
  assumes "look L X j d = (th, d')"
  shows "rest L X j Begin d = rest L X j th d'"
proof -
  obtain r d1 where peek: "kdb_peek L X (job_addr j) d = (r, d1)" by fastforce
  consider "r = Ok None" | old where "r = Ok (Some (old, True))" | old where "r = Ok (Some (old, False))"
    | e where "r = Err e" | "r = Panic"
    by (cases r) (auto, metis (full_types) not_None_eq old.prod.exhaust)
  then show ?thesis
  proof cases
    case 1
    with assms peek handler_absent [of L X j d d1] show ?thesis by (auto simp: look_def)
  next
    case (2 old)
    with assms peek handler_stale [of L X j d old d1] show ?thesis by (auto simp: look_def)
  next
    case (3 old)
    with assms peek handler_live [of L X j d old d1 th d'] show ?thesis by (auto simp: look_def)
  next
    case (4 e)
    with assms peek show ?thesis
      by (cases j) (auto simp: look_def kdb_get_peek try_then_def map_err_io_def store_put_def
          check_timestamp_def from_rocks_error_def)
  next
    case 5
    with assms peek show ?thesis
      by (cases j) (auto simp: look_def kdb_get_peek try_then_def map_err_io_def store_put_def
          check_timestamp_def)
  qed
qed

definition upd :: "'s shared \<Rightarrow> nat \<Rightarrow> thread \<Rightarrow> 's \<Rightarrow> 's shared" where
  "upd s i th d = s\<lparr>db := d, thread_of := (thread_of s)(i := th)\<rparr>"

lemma upd_sel [simp]: "db (upd s i th d) = d" "thread_of (upd s i th d) = (thread_of s)(i := th)"
  by (simp_all add: upd_def)

lemma upd_upd [simp]: "upd (upd s i th d) i th' d' = upd s i th' d'"
  by (simp add: upd_def)

lemma upd_self: "thread_of s i = th \<Longrightarrow> upd s i th (db s) = s"
  by (simp add: upd_def fun_upd_idem)

lemmas db_steps = db_step.intros(1-3) [folded upd_def]

lemma runs_from_passed:
  assumes "thread_of s i = Passed" and "jobs i = Put addr md p"
    and "rest L X (jobs i) Passed (db s) = (r, d)"
  shows "(db_step L X view jobs)\<^sup>*\<^sup>* s (upd s i (Over r) d)"
proof -
  obtain th d' where c: "commit L X addr md (db s) = (th, d')" by fastforce
  obtain q where th: "th = Over q" using c by (auto simp: commit_def split: prod.splits result.splits)
  have "(q, d') = (r, d)"
    using commit_rest_done [OF c, of p] assms th by simp
  with db_steps(3) [where view = view and jobs = jobs and s = s and i = i, OF assms(1,2) c] th show ?thesis by auto
qed

lemma absent_next_job: "absent_next j = Passed \<Longrightarrow> \<exists>addr md p. j = Put addr md p"
  by (cases j) simp_all

lemma runs_from:
  assumes "th = Passed \<longrightarrow> (\<exists>addr md p. jobs i = Put addr md p)" and "th \<noteq> Begin" "th \<noteq> Stale"
    and "thread_of s i = th" and "rest L X (jobs i) th (db s) = (r, d)"
  shows "(db_step L X view jobs)\<^sup>*\<^sup>* s (upd s i (Over r) d)"
proof (cases th)
  case Passed
  with assms(1) obtain addr md p where "jobs i = Put addr md p" by blast
  with Passed assms(4,5) show ?thesis using runs_from_passed by metis
next
  case (Over q)
  with assms(4,5) upd_self [of s i] show ?thesis by simp
qed (use assms in simp_all)

lemma absent_next_cases: "absent_next j \<noteq> Begin" "absent_next j \<noteq> Stale"
  by (cases j; simp)+

lemma drop_next:
  assumes "drop_stale X j d = (th, d')"
  shows "th \<noteq> Begin \<and> th \<noteq> Stale \<and> (th = Passed \<longrightarrow> (\<exists>addr md p. j = Put addr md p))"
  using assms absent_next_cases [of j] absent_next_job [of j]
  by (auto simp: drop_stale_def split: prod.splits sum.splits)

lemma runs_from_stale:
  assumes st: "thread_of s i = Stale" and rest: "rest L X (jobs i) Stale (db s) = (r, d)"
  shows "(db_step L X view jobs)\<^sup>*\<^sup>* s (upd s i (Over r) d)"
proof -
  obtain th d' where dr: "drop_stale X (jobs i) (db s) = (th, d')" by fastforce
  have "rest L X (jobs i) th d' = (r, d)" using drop_rest [OF dr, of L] rest by (simp only:)
  with drop_next [OF dr] have "(db_step L X view jobs)\<^sup>*\<^sup>* (upd s i th d') (upd (upd s i th d') i (Over r) d)"
    by (intro runs_from) simp_all
  with db_steps(2) [where view = view and jobs = jobs and s = s and i = i, OF st dr] show ?thesis
    unfolding upd_upd by (meson converse_rtranclp_into_rtranclp)
qed

lemma live_next_cases:
  "live_next L X j old d = (th, d') \<Longrightarrow>
     th \<noteq> Begin \<and> th \<noteq> Stale \<and> (th = Passed \<longrightarrow> (\<exists>addr md p. j = Put addr md p))"
  by (cases j) (auto split: sum.splits if_splits prod.splits result.splits)

lemma look_next:
  "look L X j d = (th, d') \<Longrightarrow> th \<noteq> Begin \<and> (th = Passed \<longrightarrow> (\<exists>addr md p. j = Put addr md p))"
  using absent_next_cases absent_next_job live_next_cases [of L X j _ _ th d']
  by (auto simp: look_def split: prod.splits result.splits option.splits bool.splits)

text \<open>
  Alone, the interleaved calls are the handler. A thread that runs without interference
  ends with the answer and the database of the uninterrupted handler, on every path: entry
  absent, live, expired, outdated, database errors and panics included.
\<close>

theorem alone_refines_handler:
  assumes idle: "thread_of s i = Begin" and run: "handler L X (jobs i) (db s) = (r, d)"
  shows "(db_step L X view jobs)\<^sup>*\<^sup>* s (s\<lparr>db := d, thread_of := (thread_of s)(i := Over r)\<rparr>)"
proof -
  obtain th d' where lk: "look L X (jobs i) (db s) = (th, d')" by fastforce
  have rest: "rest L X (jobs i) th d' = (r, d)" using look_rest [OF lk, of] run by simp
  have "(db_step L X view jobs)\<^sup>*\<^sup>* (upd s i th d') (upd (upd s i th d') i (Over r) d)"
    using rest look_next [OF lk] runs_from [of th jobs i "upd s i th d'"]
      runs_from_stale [of "upd s i th d'" i] by (cases "th = Stale") simp_all
  with db_steps(1) [where view = view and jobs = jobs and s = s and i = i, OF idle lk] show ?thesis
    unfolding upd_upd upd_def [symmetric] by (meson converse_rtranclp_into_rtranclp)
qed

section \<open>What every interleaving keeps\<close>

definition answer_ok ::
  "('pk, 'sig, 'msg, 'z) model_lib_scheme \<Rightarrow> job \<Rightarrow> thread \<Rightarrow> bool" where
  "answer_ok L j th = (case (j, th) of
      (Get addr, Over (Ok rs)) \<Rightarrow>
        (\<exists>md. authentic L (body addr) md \<and> md_encode L md = Inr (rs_body rs))
    | _ \<Rightarrow> True)"

definition shared_inv ::
  "('pk, 'sig, 'msg, 'z) model_lib_scheme \<Rightarrow> ('s, 'x) db_sys_scheme \<Rightarrow> 's view \<Rightarrow>
     (nat \<Rightarrow> job) \<Rightarrow> 's shared \<Rightarrow> bool" where
  "shared_inv L X view jobs s \<longleftrightarrow> kdb_ready L X view (db s) \<and>
     (\<forall>i addr md p. jobs i = Put addr md p \<longrightarrow> admissible L (body addr) md) \<and>
     (\<forall>i. answer_ok L (jobs i) (thread_of s i))"

lemma kdb_peek_ready:
  assumes ready: "kdb_ready L X view d" and run: "kdb_peek L X addr d = (r, d')"
  shows "kdb_ready L X view d'" and "r = Ok (Some (md, e)) \<Longrightarrow> authentic L (body addr) md"
proof -
  note ok = kdb_readyD(1) [OF ready]
  obtain g d1 where g: "rocks_get X (body addr) d = (g, d1)" by fastforce
  have v1: "view d1 = view d" using rocks_getD(1) [OF ok g] .
  have "view d' = view d1"
    using run g expired_view [OF ok]
    by (auto simp: kdb_peek_def try_then_def from_sum_io_def split: sum.splits option.splits
        result.splits prod.splits)
  with v1 show "kdb_ready L X view d'" using kdb_ready_keep [OF ready] by simp
  show "authentic L (body addr) md" if "r = Ok (Some (md, e))"
  proof -
    from that run g obtain v where v: "g = Inr (Some v)" and dec: "md_decode L v = Inr md"
      by (auto simp: kdb_peek_def io_eqs split: option.splits)
    have "view d (body addr) = Some v" using rocks_getD(2) [OF ok g] v by simp
    with stored_okD [OF kdb_readyD(3) [OF ready]] dec show ?thesis
      by (fastforce simp: admissible_def)
  qed
qed

lemma live_next_ready:
  assumes ready: "kdb_ready L X view d" and auth: "authentic L (body (job_addr j)) old"
    and run: "live_next L X j old d = (th, d')"
  shows "kdb_ready L X view d'" and "answer_ok L j th"
proof -
  have "view d' = view d"
    using run expired_view [OF kdb_readyD(1) [OF ready]]
    by (cases j) (auto split: sum.splits if_splits prod.splits result.splits)
  then show "kdb_ready L X view d'" using kdb_ready_keep [OF ready] by simp
  show "answer_ok L j th"
    using run auth
    by (cases j) (fastforce simp: answer_ok_def serve_def and_then_eq_Ok
        split: thread.splits result.splits)+
qed

lemma answer_ok_absent [simp]: "answer_ok L j (absent_next j)"
  by (cases j) (simp_all add: answer_ok_def)

lemma answer_ok_plain [simp]:
  "answer_ok L j Begin" "answer_ok L j Stale" "answer_ok L j Passed"
  "answer_ok L j (Over (Err e))" "answer_ok L j (Over Panic)" "answer_ok L (Put a md p) th"
  by (cases j; simp add: answer_ok_def)+

lemma look_ready:
  assumes ready: "kdb_ready L X view d" and run: "look L X j d = (th, d')"
  shows "kdb_ready L X view d' \<and> answer_ok L j th"
proof -
  obtain r d1 where peek: "kdb_peek L X (job_addr j) d = (r, d1)" by fastforce
  note pr = kdb_peek_ready [OF ready peek]
  show ?thesis
    using run peek pr live_next_ready [OF pr(1), of j]
    by (auto simp: look_def split: result.splits option.splits bool.splits)
qed

lemma drop_stale_ready:
  assumes ready: "kdb_ready L X view d" and run: "drop_stale X j d = (th, d')"
  shows "kdb_ready L X view d' \<and> answer_ok L j th"
proof -
  obtain r d1 where "rocks_delete X (body (job_addr j)) d = (r, d1)" by fastforce
  with rocks_deleteD [OF kdb_readyD(1) [OF ready] this] run kdb_ready_keep [OF ready, of d1]
  show ?thesis by (auto simp: drop_stale_def split: sum.splits)
qed

lemma commit_ready:
  assumes ready: "kdb_ready L X view d" and adm: "admissible L (body addr) md"
    and run: "commit L X addr md d = (th, d')"
  shows "kdb_ready L X view d'"
proof -
  obtain r d1 where "kdb_put L X addr md d = (r, d1)" by fastforce
  with kdb.put_ready [OF ready adm this] run show ?thesis
    by (auto simp: commit_def split: result.splits)
qed

lemma shared_inv_step:
  assumes inv: "shared_inv L X view jobs s" and step: "db_step L X view jobs s t"
  shows "shared_inv L X view jobs t"
proof -
  from inv have ready: "kdb_ready L X view (db s)"
    and adm: "\<And>i addr md p. jobs i = Put addr md p \<Longrightarrow> admissible L (body addr) md"
    and ans: "\<And>i. answer_ok L (jobs i) (thread_of s i)" by (auto simp: shared_inv_def)
  from step show ?thesis
  proof cases
    case (look i th d)
    with look_ready [OF ready look(3)] adm ans show ?thesis by (auto simp: shared_inv_def)
  next
    case (drop i th d)
    with drop_stale_ready [OF ready drop(3)] adm ans show ?thesis by (auto simp: shared_inv_def)
  next
    case (commit i addr md p th d)
    with commit_ready [OF ready adm [OF commit(3)] commit(4)] adm ans
    show ?thesis by (auto simp: shared_inv_def)
  next
    case (compact k v level d0 d)
    with kdb_ready_keep [OF ready, of d k] adm ans show ?thesis by (auto simp: shared_inv_def)
  qed
qed

interpretation shared_db: safe_steps "db_step L X view jobs" "shared_inv L X view jobs"
  for L X view jobs
  by unfold_locales (rule shared_inv_step)

text \<open>
  Authenticity under every interleaving. However the database calls of concurrent reads,
  screened uploads, pulls and compaction interleave, every stored entry stays authentic for
  its key, and every successful read answers with the encoding of authentic metadata.
\<close>

theorem interleaving_authentic:
  assumes run: "(db_step L X view jobs)\<^sup>*\<^sup>* s t"
    and ready: "kdb_ready L X view (db s)" and idle: "\<And>i. thread_of s i = Begin"
    and screened: "\<And>i addr md p. jobs i = Put addr md p \<Longrightarrow>
      \<exists>rq. screen_put L rq = Ok (addr, md, p)"
  shows "(\<forall>k md. kdb_lookup L view (db t) k = Some md \<longrightarrow> authentic L k md) \<and>
    (\<forall>i addr rs. jobs i = Get addr \<longrightarrow> thread_of t i = Over (Ok rs) \<longrightarrow>
       (\<exists>md. authentic L (body addr) md \<and> md_encode L md = Inr (rs_body rs)))"
proof -
  have "shared_inv L X view jobs s"
    using ready idle screened screen_put_admissible by (fastforce simp: shared_inv_def)
  from shared_db.run_inv [OF run this] have inv: "kdb_ready L X view (db t)"
    and ans: "\<And>i. answer_ok L (jobs i) (thread_of t i)" by (auto simp: shared_inv_def)
  from kdb.ready_adm [OF inv] have "\<forall>k md. kdb_lookup L view (db t) k = Some md \<longrightarrow> authentic L k md"
    by (simp add: admissible_def)
  moreover have "\<exists>md. authentic L (body addr) md \<and> md_encode L md = Inr (rs_body rs)"
    if "jobs i = Get addr" "thread_of t i = Over (Ok rs)" for i addr rs
    using ans [of i] that by (simp add: answer_ok_def)
  ultimately show ?thesis by blast
qed

section \<open>Two races\<close>

text \<open>A database whose calls do not fail, to show that the races need no failure.\<close>

definition healthy :: "('s, 'x) db_sys_scheme \<Rightarrow> bool" where
  "healthy X \<longleftrightarrow> (\<forall>k s. \<not> isl (fst (rocks_get X k s))) \<and>
     (\<forall>k v s. \<not> isl (fst (rocks_put X k v s))) \<and> (\<forall>k s. \<not> isl (fst (rocks_delete X k s)))"

lemma healthy_get: "healthy X \<Longrightarrow> \<exists>v t. rocks_get X k s = (Inr v, t)"
  unfolding healthy_def not_isl_iff by (metis prod.collapse)

lemma healthy_put: "healthy X \<Longrightarrow> \<exists>t. rocks_put X k w s = (Inr (), t)"
  unfolding healthy_def not_isl_iff by (metis old.unit.exhaust prod.collapse)

lemma healthy_delete: "healthy X \<Longrightarrow> \<exists>t. rocks_delete X k s = (Inr (), t)"
  unfolding healthy_def not_isl_iff by (metis old.unit.exhaust prod.collapse)

lemma look_absent:
  assumes ok: "rocks_ok X view" and h: "healthy X" and none: "view d (body (job_addr j)) = None"
  obtains d' where "look L X j d = (absent_next j, d')" and "view d' = view d"
proof -
  obtain v t where g: "rocks_get X (body (job_addr j)) d = (Inr v, t)" using healthy_get [OF h] by blast
  from rocks_getD [OF ok g] none have "v = None" and t: "view t = view d" by auto
  with g have "kdb_peek L X (job_addr j) d = (Ok None, t)"
    by (simp add: kdb_peek_def try_then_def from_sum_io_def)
  with t that show thesis by (simp add: look_def)
qed

lemma look_stale:
  assumes ok: "rocks_ok X view" and h: "healthy X" and some: "view d (body (job_addr j)) = Some v"
    and dec: "md_decode L v = Inr md" "payload_decode L (serialized_payload md) = Inr q"
    and old: "\<And>u. fst (expired L X q u) = Ok True"
  obtains d' where "look L X j d = (Stale, d')" and "view d' = view d"
proof -
  obtain w t where g: "rocks_get X (body (job_addr j)) d = (Inr w, t)" using healthy_get [OF h] by blast
  from rocks_getD [OF ok g] some have "w = Some v" and t: "view t = view d" by auto
  obtain e where e: "expired L X q t = (Ok True, e)" using old [of t] by (metis prod.collapse)
  with g \<open>w = Some v\<close> dec have "kdb_peek L X (job_addr j) d = (Ok (Some (md, True)), e)"
    by (simp add: kdb_peek_def try_then_def from_sum_io_def)
  with t that expired_view [OF ok e] show thesis by (simp add: look_def)
qed

lemma drop_healthy:
  assumes ok: "rocks_ok X view" and h: "healthy X"
  obtains d' where "drop_stale X j d = (absent_next j, d')"
    and "view d' = (view d)(body (job_addr j) := None)"
proof -
  obtain t where del: "rocks_delete X (body (job_addr j)) d = (Inr (), t)"
    using healthy_delete [OF h] by blast
  with rocks_deleteD [OF ok del] that show thesis by (simp add: drop_stale_def)
qed

lemma commit_healthy:
  assumes ok: "rocks_ok X view" and h: "healthy X" and rt: "md_roundtrip L"
  obtains d' raw where
    "commit L X addr md d = (Over (Ok \<lparr>status = 200, rs_headers = [], rs_body = []\<rparr>), d')"
    and "view d' = (view d)(body addr \<mapsto> raw)" and "md_decode L raw = Inr md"
proof -
  obtain raw where raw: "md_encode L md = Inr raw" "md_decode L raw = Inr md"
    using md_roundtripD [OF rt] by blast
  obtain t where put: "rocks_put X (body addr) raw d = (Inr (), t)" using healthy_put [OF h] by blast
  with rocks_putD [OF ok put] raw that show thesis
    by (simp add: commit_def kdb_put_def from_sum_io_def)
qed

text \<open>
  C34: an older upload can replace a newer one. When nothing is stored under an address yet,
  two uploads for it, whatever their timestamps, can both be answered with 200 and the one
  that was made first, or is older, can be what remains: the check and the write of an
  upload are not one atomic action.
\<close>

theorem older_overwrites_newer:
  assumes ok: "rocks_ok X view" and h: "healthy X" and rt: "md_roundtrip L"
    and ij: "i \<noteq> j" and idle: "thread_of s i = Begin" "thread_of s j = Begin"
    and jobs: "jobs i = Put a newer p" "jobs j = Put b older q" and same: "body b = body a"
    and none: "view (db s) (body a) = None"
  shows "\<exists>t. (db_step L X view jobs)\<^sup>*\<^sup>* s t \<and>
    thread_of t i = Over (Ok \<lparr>status = 200, rs_headers = [], rs_body = []\<rparr>) \<and>
    thread_of t j = Over (Ok \<lparr>status = 200, rs_headers = [], rs_body = []\<rparr>) \<and>
    kdb_lookup L view (db t) (body a) = Some older"
proof -
  let ?ok = "Over (Ok \<lparr>status = 200, rs_headers = [], rs_body = []\<rparr>)"
  let ?step = "db_step L X view jobs"
  obtain d1 where 1: "look L X (jobs i) (db s) = (Passed, d1)" "view d1 = view (db s)"
    by (rule look_absent [OF ok h, of "db s" "jobs i" L]) (use jobs none in auto)
  obtain d2 where 2: "look L X (jobs j) d1 = (Passed, d2)"
    by (rule look_absent [OF ok h, of d1 "jobs j" L]) (use jobs none same 1 in auto)
  obtain d3 where 3: "commit L X a newer d2 = (?ok, d3)"
    by (rule commit_healthy [OF ok h rt])
  obtain d4 raw where 4: "commit L X b older d3 = (?ok, d4)"
      "view d4 = (view d3)(body b \<mapsto> raw)" "md_decode L raw = Inr older"
    by (rule commit_healthy [OF ok h rt])
  let ?s1 = "upd s i Passed d1" let ?s2 = "upd ?s1 j Passed d2"
  let ?s3 = "upd ?s2 i ?ok d3" let ?s4 = "upd ?s3 j ?ok d4"
  have "?step s ?s1" using db_steps(1) [where s = s and i = i and jobs = jobs] idle 1 by blast
  moreover have "?step ?s1 ?s2"
    using db_steps(1) [where s = ?s1 and i = j and jobs = jobs] idle ij 2 by simp
  moreover have "?step ?s2 ?s3"
    using db_steps(3) [where s = ?s2 and view = view and i = i and jobs = jobs, OF _ jobs(1)] ij 3 by simp
  moreover have "?step ?s3 ?s4"
    using db_steps(3) [where s = ?s3 and view = view and i = j and jobs = jobs, OF _ jobs(2)] ij 4 by simp
  ultimately have "?step\<^sup>*\<^sup>* s ?s4"
    by (meson converse_rtranclp_into_rtranclp rtranclp.rtrancl_refl)
  moreover have "kdb_lookup L view d4 (body a) = Some older"
    using 4(2,3) same by (simp add: kdb_lookup_Some)
  ultimately show ?thesis using ij by (intro exI [of _ ?s4]) simp
qed

text \<open>
  C35: a read can delete a fresh upload. When the stored entry has expired, a \<open>GET\<close> that has
  seen it may delete the entry only after an upload of fresh metadata under the same address
  was stored and answered with 200; nothing remains.
\<close>

theorem fresh_upload_lost:
  assumes ok: "rocks_ok X view" and h: "healthy X" and rt: "md_roundtrip L"
    and ij: "i \<noteq> j" and idle: "thread_of s i = Begin" "thread_of s j = Begin"
    and jobs: "jobs i = Get a" "jobs j = Put b fresh p" and same: "body b = body a"
    and some: "view (db s) (body a) = Some v"
    and dec: "md_decode L v = Inr md" "payload_decode L (serialized_payload md) = Inr q"
    and old: "\<And>u. fst (expired L X q u) = Ok True"
  shows "\<exists>t. (db_step L X view jobs)\<^sup>*\<^sup>* s t \<and> thread_of t i = Over (Err NotFound) \<and>
    thread_of t j = Over (Ok \<lparr>status = 200, rs_headers = [], rs_body = []\<rparr>) \<and>
    kdb_lookup L view (db t) (body a) = None"
proof -
  let ?ok = "Over (Ok \<lparr>status = 200, rs_headers = [], rs_body = []\<rparr>)"
  let ?none = "Over (Err NotFound)" and ?step = "db_step L X view jobs"
  obtain d1 where 1: "look L X (jobs i) (db s) = (Stale, d1)" "view d1 = view (db s)"
    by (rule look_stale [OF ok h, of "db s" "jobs i" v L md q]) (use jobs some dec old in auto)
  obtain d2 where 2: "look L X (jobs j) d1 = (Stale, d2)"
    by (rule look_stale [OF ok h, of d1 "jobs j" v L md q]) (use jobs some dec old same 1 in auto)
  obtain d3 where 3: "drop_stale X (jobs j) d2 = (Passed, d3)"
    by (rule drop_healthy [OF ok h, of "jobs j" d2]) (use jobs in auto)
  obtain d4 where 4: "commit L X b fresh d3 = (?ok, d4)"
    by (rule commit_healthy [OF ok h rt])
  obtain d5 where 5: "drop_stale X (jobs i) d4 = (?none, d5)" "view d5 (body a) = None"
    by (rule drop_healthy [OF ok h, of "jobs i" d4]) (use jobs in auto)
  let ?s1 = "upd s i Stale d1" let ?s2 = "upd ?s1 j Stale d2" let ?s3 = "upd ?s2 j Passed d3"
  let ?s4 = "upd ?s3 j ?ok d4" let ?s5 = "upd ?s4 i ?none d5"
  have "?step s ?s1" using db_steps(1) [where s = s and i = i and jobs = jobs] idle 1 by blast
  moreover have "?step ?s1 ?s2"
    using db_steps(1) [where s = ?s1 and i = j and jobs = jobs] idle ij 2 by simp
  moreover have "?step ?s2 ?s3"
    using db_steps(2) [where s = ?s2 and i = j and jobs = jobs] ij 3 by simp
  moreover have "?step ?s3 ?s4"
    using db_steps(3) [where s = ?s3 and view = view and i = j and jobs = jobs, OF _ jobs(2)] ij 4 by simp
  moreover have "?step ?s4 ?s5"
    using db_steps(2) [where s = ?s4 and i = i and jobs = jobs] ij 5 by simp
  ultimately have "?step\<^sup>*\<^sup>* s ?s5"
    by (meson converse_rtranclp_into_rtranclp rtranclp.rtrancl_refl)
  moreover have "kdb_lookup L view d5 (body a) = None" using 5(2) by (simp add: kdb_lookup_def)
  ultimately show ?thesis using ij by (intro exI [of _ ?s5]) simp
qed

end
