(* ===== verification/Expiring_Map.thy ===== *)
theory Expiring_Map
  imports Interleaving
begin

text \<open>
  What the key database promises, without RocksDB, encodings and the moments at which
  expired entries are really removed: a map from key hashes to metadata in which an entry
  stops existing when the clock passes its deadline. The handlers of \<open>src/src/net/mod.rs\<close>
  over \<open>src/src/db.rs\<close> refine it, with compaction running in between.
\<close>

section \<open>The specification\<close>

type_synonym store = "bytes \<rightharpoonup> address_metadata"

definition deadline_of ::
  "('pk, 'sig, 'msg, 'z) model_lib_scheme \<Rightarrow> address_metadata \<Rightarrow> int" where
  "deadline_of L md = (case payload_decode L (serialized_payload md) of
      Inr p \<Rightarrow> sint (timestamp p) + sint (ttl p) | Inl _ \<Rightarrow> 0)"

definition live_at ::
  "('pk, 'sig, 'msg, 'z) model_lib_scheme \<Rightarrow> int \<Rightarrow> store \<Rightarrow> bytes \<Rightarrow> address_metadata option" where
  "live_at L n m k = (case m k of
      None \<Rightarrow> None
    | Some md \<Rightarrow> if n \<le> deadline_of L md then Some md else None)"

definition accepted :: response where
  "accepted = \<lparr>status = 200, rs_headers = [], rs_body = []\<rparr>"

text \<open>One request at clock reading \<open>n\<close>.\<close>

fun spec_job ::
  "('pk, 'sig, 'msg, 'z) model_lib_scheme \<Rightarrow> int \<Rightarrow> job \<Rightarrow> store \<Rightarrow>
     (response, server_error) result \<times> store" where
  "spec_job L n (Get a) m =
     (case live_at L n m (body a) of
        None \<Rightarrow> (Err NotFound, m(body a := None))
      | Some md \<Rightarrow> (serve L md, m))"
| "spec_job L n (Put a md p) m =
     (case live_at L n m (body a) of
        None \<Rightarrow> (Ok accepted, m(body a \<mapsto> md))
      | Some old \<Rightarrow>
          if stamp_of L md < stamp_of L old then (Err (Validation Outdated), m)
          else if deadline_of L md < n then (Err (Validation ExpiredTTL), m)
          else (Ok accepted, m(body a \<mapsto> md)))"

fun spec_run ::
  "('pk, 'sig, 'msg, 'z) model_lib_scheme \<Rightarrow> (int \<times> job) list \<Rightarrow> store \<Rightarrow>
     (response, server_error) result list \<times> store" where
  "spec_run L [] m = ([], m)"
| "spec_run L ((n, j) # h) m =
     (case spec_job L n j m of (r, m1) \<Rightarrow>
      case spec_run L h m1 of (rs, m2) \<Rightarrow> (r # rs, m2))"

section \<open>The implementation, request by request\<close>

text \<open>
  Before each request the world may have moved on by some \<open>e\<close>: time passes and compaction
  removes entries. \<open>clk\<close> is the reading of the clock, which stands still during a request.
\<close>

fun run_jobs ::
  "('pk, 'sig, 'msg, 'z) net_lib_scheme \<Rightarrow> ('s, 'x) db_sys_scheme \<Rightarrow> (('s \<Rightarrow> 's) \<times> job) list \<Rightarrow> 's \<Rightarrow>
     (response, server_error) result list \<times> 's" where
  "run_jobs L X [] s = ([], s)"
| "run_jobs L X ((e, j) # h) s =
     (case handler L X j (e s) of (r, t) \<Rightarrow>
      case run_jobs L X h t of (rs, u) \<Rightarrow> (r # rs, u))"

fun timed_jobs ::
  "('pk, 'sig, 'msg, 'z) net_lib_scheme \<Rightarrow> ('s, 'x) db_sys_scheme \<Rightarrow> ('s \<Rightarrow> int) \<Rightarrow>
     (('s \<Rightarrow> 's) \<times> job) list \<Rightarrow> 's \<Rightarrow> (int \<times> job) list" where
  "timed_jobs L X clk [] s = []"
| "timed_jobs L X clk ((e, j) # h) s =
     (clk (e s), j) # timed_jobs L X clk h (snd (handler L X j (e s)))"

definition steady :: "('s, 'x) db_sys_scheme \<Rightarrow> ('s \<Rightarrow> int) \<Rightarrow> bool" where
  "steady X clk \<longleftrightarrow>
     (\<forall>s. sys_now X s = (clk s, s)) \<and> (\<forall>s. clock_in_range (clk s)) \<and>
     (\<forall>k s. clk (snd (rocks_get X k s)) = clk s) \<and>
     (\<forall>k v s. clk (snd (rocks_put X k v s)) = clk s) \<and>
     (\<forall>k s. clk (snd (rocks_delete X k s)) = clk s)"

definition drifts ::
  "('pk, 'sig, 'msg, 'z) model_lib_scheme \<Rightarrow> 's view \<Rightarrow> ('s \<Rightarrow> int) \<Rightarrow> ('s \<Rightarrow> 's) \<Rightarrow> bool" where
  "drifts L view clk e \<longleftrightarrow> (\<forall>s. clk s \<le> clk (e s) \<and>
     (\<forall>k. view (e s) k = view s k \<or>
        (view (e s) k = None \<and>
         (\<forall>md. kdb_lookup L view s k = Some md \<longrightarrow> deadline_of L md < clk (e s)))))"

definition ranged :: "('pk, 'sig, 'msg, 'z) model_lib_scheme \<Rightarrow> address_metadata \<Rightarrow> bool" where
  "ranged L md \<longleftrightarrow> (\<exists>p. payload_decode L (serialized_payload md) = Inr p \<and> sum_in_range p)"

definition sound_job :: "('pk, 'sig, 'msg, 'z) model_lib_scheme \<Rightarrow> job \<Rightarrow> bool" where
  "sound_job L j = (case j of
      Get a \<Rightarrow> True
    | Put a md p \<Rightarrow> authentic L (body a) md \<and> payload_decode L (serialized_payload md) = Inr p \<and>
        sum_in_range p)"

definition good_db ::
  "('pk, 'sig, 'msg, 'z) model_lib_scheme \<Rightarrow> ('s, 'x) db_sys_scheme \<Rightarrow> 's view \<Rightarrow> 's \<Rightarrow> bool" where
  "good_db L X view s \<longleftrightarrow> kdb_ready L X view s \<and>
     (\<forall>k md. kdb_lookup L view s k = Some md \<longrightarrow> ranged L md)"

section \<open>One request\<close>

lemma steadyD:
  assumes "steady X clk"
  shows "sys_now X s = (clk s, s)" and "clock_in_range (clk s)"
    and "rocks_get X k s = (r, t) \<Longrightarrow> clk t = clk s"
    and "rocks_put X k v s = (q, t) \<Longrightarrow> clk t = clk s"
    and "rocks_delete X k s = (q, t) \<Longrightarrow> clk t = clk s"
  using assms unfolding steady_def by (blast, blast, (metis snd_conv)+)

lemma good_dbD:
  assumes "good_db L X view s"
  shows "kdb_ready L X view s" and "kdb_lookup L view s k = Some md \<Longrightarrow> ranged L md"
  using assms unfolding good_db_def by blast+

lemma good_db_update:
  assumes "good_db L X view s" and "kdb_ready L X view t"
    and "kdb_lookup L view t = (kdb_lookup L view s)(k := x)" and "\<And>md. x = Some md \<Longrightarrow> ranged L md"
  shows "good_db L X view t"
  using assms by (auto simp: good_db_def split: if_splits)

lemma steady_expired:
  assumes "steady X clk" and "sum_in_range p"
  shows "expired L X p s = (Ok (sint (timestamp p) + sint (ttl p) < clk s), s)"
  using expired_exact [OF steadyD(1,2) [OF assms(1)] assms(2)] .

text \<open>A read is the lookup of the live entry.\<close>

lemma kdb_get_spec:
  assumes good: "good_db L X view s" and h: "healthy X" and st: "steady X clk"
  obtains t where "kdb_get L X a s = (Ok (live_at L (clk s) (kdb_lookup L view s) (body a)), t)"
    and "kdb_lookup L view t =
      (kdb_lookup L view s)(body a := live_at L (clk s) (kdb_lookup L view s) (body a))"
    and "clk t = clk s" and "good_db L X view t"
proof -
  let ?m = "kdb_lookup L view s" and ?k = "body a"
  note ready = good_dbD(1) [OF good] and ok = kdb_readyD(1) [OF good_dbD(1) [OF good]]
  obtain w s1 where g: "rocks_get X ?k s = (Inr w, s1)" using healthy_get [OF h] by blast
  have c1: "clk s1 = clk s" by (rule steadyD(3) [OF st g])
  have w: "w = view s ?k" and v1: "view s1 = view s" using rocks_getD [OF ok g] by auto
  show thesis
  proof (cases w)
    case None
    have get: "kdb_get L X a s = (Ok None, s1)" by (rule kdb_get_absent [OF g [unfolded None]])
    have m: "?m ?k = None" using w None by (simp add: kdb_lookup_def)
    then have live: "live_at L (clk s) ?m ?k = None" by (simp add: live_at_def)
    have same: "kdb_lookup L view s1 = ?m(?k := live_at L (clk s) ?m ?k)"
      unfolding live kdb_lookup_cong [OF v1] using m by (simp add: fun_upd_idem)
    show thesis
      by (rule that [OF _ same c1 good_db_update [OF good kdb.get_ready [OF ready get] same]])
         (simp_all add: get live)
  next
    case (Some v)
    then have stored: "view s ?k = Some v" using w by simp
    obtain md where dec: "md_decode L v = Inr md" using stored_okD [OF kdb_readyD(3) [OF ready] stored] by blast
    have m: "?m ?k = Some md" using stored dec by (simp add: kdb_lookup_Some)
    obtain p where pl: "payload_decode L (serialized_payload md) = Inr p" and rng: "sum_in_range p"
      using good_dbD(2) [OF good m] by (auto simp: ranged_def)
    have dl: "deadline_of L md = sint (timestamp p) + sint (ttl p)" by (simp add: deadline_of_def pl)
    note run = kdb_get_stored [OF g [unfolded Some] dec pl]
    have e: "expired L X p s1 = (Ok (deadline_of L md < clk s), s1)"
      using steady_expired [OF st rng, of L s1] c1 dl by simp
    show thesis
    proof (cases "deadline_of L md < clk s")
      case False
      then have live: "live_at L (clk s) ?m ?k = Some md" by (simp add: live_at_def m)
      have get: "kdb_get L X a s = (Ok (Some md), s1)" using run e False by (simp add: try_then_def)
      have same: "kdb_lookup L view s1 = ?m(?k := live_at L (clk s) ?m ?k)"
        unfolding live kdb_lookup_cong [OF v1] using m by (simp add: fun_upd_idem)
      have "ranged L d" if "live_at L (clk s) ?m ?k = Some d" for d
        using that live good_dbD(2) [OF good m] by simp
      then show thesis
        by (intro that [OF _ same c1 good_db_update [OF good kdb.get_ready [OF ready get] same]])
           (simp_all add: get live)
    next
      case True
      then have live: "live_at L (clk s) ?m ?k = None" by (simp add: live_at_def m)
      obtain t where del: "rocks_delete X ?k s1 = (Inr (), t)" using healthy_delete [OF h] by blast
      have get: "kdb_get L X a s = (Ok None, t)"
        using run e True del by (simp add: try_then_def from_sum_io_def)
      have "view t = (view s)(?k := None)" using rocks_deleteD [OF ok del] v1 by simp
      from kdb_lookup_remove [OF this] have same:
        "kdb_lookup L view t = ?m(?k := live_at L (clk s) ?m ?k)" by (simp add: live)
      have "clk t = clk s" using steadyD(5) [OF st del] c1 by simp
      then show thesis
        by (intro that [OF _ same _ good_db_update [OF good kdb.get_ready [OF ready get] same]])
           (simp_all add: get live)
    qed
  qed
qed

lemma healthy_kdb_put:
  assumes good: "good_db L X view s" and h: "healthy X" and st: "steady X clk"
    and adm: "authentic L (body a) md" and pl: "payload_decode L (serialized_payload md) = Inr p"
    and rng: "sum_in_range p"
  obtains t where "kdb_put L X a md s = (Ok (), t)" and "good_db L X view t" and "clk t = clk s"
    and "kdb_lookup L view t = (kdb_lookup L view s)(body a \<mapsto> md)"
proof -
  note ready = good_dbD(1) [OF good]
  obtain raw where raw: "md_encode L md = Inr raw" using md_roundtripD [OF kdb_readyD(2) [OF ready]] by blast
  obtain t where t: "rocks_put X (body a) raw s = (Inr (), t)" using healthy_put [OF h] by blast
  have put: "kdb_put L X a md s = (Ok (), t)" using raw t by (simp add: kdb_put_def from_sum_io_def)
  note lk = kdb.put_stored [OF ready put]
  have "admissible L (body a) md" using adm pl by (simp add: admissible_def)
  from kdb.put_ready [OF ready this put] have "good_db L X view t"
    using good_db_update [OF good _ lk] pl rng by (simp add: ranged_def)
  with put lk steadyD(4) [OF st t] that show thesis by blast
qed

lemma get_spec:
  assumes good: "good_db L X view s" and h: "healthy X" and st: "steady X clk"
  shows "\<exists>r t. handler L X (Get a) s = (r, t) \<and> good_db L X view t \<and> clk t = clk s \<and>
    spec_job L (clk s) (Get a) (kdb_lookup L view s) = (r, kdb_lookup L view t)"
proof -
  let ?live = "live_at L (clk s) (kdb_lookup L view s) (body a)"
  obtain t where t: "kdb_get L X a s = (Ok ?live, t)" "clk t = clk s" "good_db L X view t"
    and lk: "kdb_lookup L view t = (kdb_lookup L view s)(body a := ?live)"
    by (rule kdb_get_spec [OF good h st])
  show ?thesis
  proof (cases ?live)
    case None
    with t lk show ?thesis by (simp add: try_then_def map_err_io_def)
  next
    case (Some md)
    then have "kdb_lookup L view s (body a) = Some md"
      by (simp add: live_at_def split: option.splits if_splits)
    with t lk Some show ?thesis by (simp add: try_then_def map_err_io_def fun_upd_idem)
  qed
qed

lemma put_spec:
  assumes good: "good_db L X view s" and h: "healthy X" and st: "steady X clk"
    and auth: "authentic L (body a) md" and pl: "payload_decode L (serialized_payload md) = Inr p"
    and rng: "sum_in_range p"
  shows "\<exists>r t. handler L X (Put a md p) s = (r, t) \<and> good_db L X view t \<and> clk t = clk s \<and>
    spec_job L (clk s) (Put a md p) (kdb_lookup L view s) = (r, kdb_lookup L view t)"
proof -
  let ?m = "kdb_lookup L view s"
  let ?live = "live_at L (clk s) ?m (body a)"
  obtain t where t: "kdb_get L X a s = (Ok ?live, t)" "clk t = clk s" and good_t: "good_db L X view t"
    and lk: "kdb_lookup L view t = ?m(body a := ?live)"
    by (rule kdb_get_spec [OF good h st])
  obtain u where u: "kdb_put L X a md t = (Ok (), u)" "good_db L X view u" "clk u = clk t"
    and lu: "kdb_lookup L view u = (kdb_lookup L view t)(body a \<mapsto> md)"
    by (rule healthy_kdb_put [OF good_t h st auth pl rng])
  note unfolds = store_put_def check_timestamp_def try_then_def map_err_io_def from_validation_error_def
    accepted_def
  show ?thesis
  proof (cases ?live)
    case None
    with t u lk lu show ?thesis by (simp add: unfolds)
  next
    case (Some old)
    then have m: "?m (body a) = Some old" by (simp add: live_at_def split: option.splits if_splits)
    obtain q where q: "payload_decode L (serialized_payload old) = Inr q"
      using good_dbD(2) [OF good m] by (auto simp: ranged_def)
    have e: "expired L X p t = (Ok (deadline_of L md < clk s), t)"
      using steady_expired [OF st rng, of L t] t(2) by (simp add: deadline_of_def pl)
    have same: "kdb_lookup L view t = ?m" using lk Some m by (simp add: fun_upd_idem)
    from t u e q pl Some same lu good_t show ?thesis
      by (cases "sint (timestamp p) < sint (timestamp q)"; cases "deadline_of L md < clk s")
         (simp_all add: unfolds stamp_of_def)
  qed
qed

lemma handler_spec:
  assumes good: "good_db L X view s" and h: "healthy X" and st: "steady X clk" and j: "sound_job L j"
  obtains r t where "handler L X j s = (r, t)" and "good_db L X view t" and "clk t = clk s"
    and "spec_job L (clk s) j (kdb_lookup L view s) = (r, kdb_lookup L view t)"
proof (cases j)
  case (Get a)
  from get_spec [OF good h st, of a] Get that show thesis by blast
next
  case (Put a md p)
  with j have "authentic L (body a) md" "payload_decode L (serialized_payload md) = Inr p" "sum_in_range p"
    by (simp_all add: sound_job_def)
  from put_spec [OF good h st this] Put that show thesis by blast
qed

section \<open>Removal of expired entries cannot be seen\<close>

text \<open>
  The specification's map may still hold entries whose deadline has passed and that the
  database has dropped, on a read or by compaction.
\<close>

definition holds_up_to ::
  "('pk, 'sig, 'msg, 'z) model_lib_scheme \<Rightarrow> int \<Rightarrow> store \<Rightarrow> store \<Rightarrow> bool" where
  "holds_up_to L n m c \<longleftrightarrow>
     (\<forall>k. c k = m k \<or> (c k = None \<and> (\<forall>md. m k = Some md \<longrightarrow> deadline_of L md < n)))"

lemma holds_up_to_refl [simp]: "holds_up_to L n m m"
  by (simp add: holds_up_to_def)

lemma holds_up_to_live:
  assumes "holds_up_to L n m c"
  shows "live_at L n c k = live_at L n m k"
proof -
  from assms have "c k = m k \<or> (c k = None \<and> (\<forall>md. m k = Some md \<longrightarrow> deadline_of L md < n))"
    unfolding holds_up_to_def by blast
  then show ?thesis by (cases "m k"; cases "c k") (auto simp: live_at_def)
qed

lemma holds_up_to_upd:
  "holds_up_to L n m c \<Longrightarrow> holds_up_to L n (m(k := x)) (c(k := x))"
  by (auto simp: holds_up_to_def)

lemma holds_up_to_later:
  assumes "holds_up_to L n m c" and "n \<le> n'"
  shows "holds_up_to L n' m c"
  using assms unfolding holds_up_to_def by (meson order_less_le_trans)

lemma driftsD:
  assumes "drifts L view clk e"
  shows "clk s \<le> clk (e s)"
    and "view (e s) k = view s k \<or> (view (e s) k = None \<and>
      (\<forall>md. kdb_lookup L view s k = Some md \<longrightarrow> deadline_of L md < clk (e s)))"
  using assms [unfolded drifts_def, THEN spec, of s] by simp_all

lemma holds_up_to_drift:
  assumes R: "holds_up_to L (clk s) m (kdb_lookup L view s)" and e: "drifts L view clk e"
  shows "holds_up_to L (clk (e s)) m (kdb_lookup L view (e s))"
  unfolding holds_up_to_def
proof
  fix k
  have later: "holds_up_to L (clk (e s)) m (kdb_lookup L view s)"
    by (rule holds_up_to_later [OF R driftsD(1) [OF e]])
  consider "view (e s) k = view s k"
    | "view (e s) k = None" "\<forall>md. kdb_lookup L view s k = Some md \<longrightarrow> deadline_of L md < clk (e s)"
    using driftsD(2) [OF e, of s k] by argo
  then show "kdb_lookup L view (e s) k = m k \<or> (kdb_lookup L view (e s) k = None \<and>
      (\<forall>md. m k = Some md \<longrightarrow> deadline_of L md < clk (e s)))"
  proof cases
    case 1
    then have "kdb_lookup L view (e s) k = kdb_lookup L view s k" by (simp add: kdb_lookup_def)
    with later show ?thesis unfolding holds_up_to_def by simp
  next
    case 2
    then have "kdb_lookup L view (e s) k = None" by (simp add: kdb_lookup_def)
    with 2(2) later show ?thesis unfolding holds_up_to_def by metis
  qed
qed

lemma spec_job_up_to:
  assumes R: "holds_up_to L n m c" and run: "spec_job L n j c = (r, c')"
  obtains m' where "spec_job L n j m = (r, m')" and "holds_up_to L n m' c'"
proof (cases j)
  case (Get a)
  then show thesis
    using run R holds_up_to_live [OF R, of "body a"] holds_up_to_upd [OF R, of "body a" None] that
    by (auto split: option.splits)
next
  case (Put a md p)
  then show thesis
    using run R holds_up_to_live [OF R, of "body a"] holds_up_to_upd [OF R, of "body a" "Some md"] that
    by (auto split: option.splits if_splits)
qed

lemma good_db_drift:
  assumes good: "good_db L X view s" and e: "drifts L view clk e"
  shows "good_db L X view (e s)"
proof -
  have sub: "view (e s) k = view s k \<or> view (e s) k = None" for k
    using driftsD(2) [OF e, of s k] by argo
  then have "kdb_inv L view (e s)"
    using kdb_readyD(3) [OF good_dbD(1) [OF good]] unfolding kdb_inv_def by (metis option.discI)
  moreover have "kdb_lookup L view s k = Some md" if "kdb_lookup L view (e s) k = Some md" for k md
    using sub [of k] that by (auto simp: kdb_lookup_def)
  ultimately show ?thesis using good unfolding good_db_def kdb_ready_def by blast
qed

text \<open>
  C2: the database is an expiring map. Whatever reads and uploads arrive, in whatever order,
  and however time passes and compaction removes expired entries in between, the answers are
  exactly those of the specification run at the same clock readings, and what is stored at
  the end is the specification's map up to entries that have expired.
\<close>

theorem kdb_refines_expiring_map:
  assumes good: "good_db L X view s" and h: "healthy X" and st: "steady X clk"
    and jobs: "\<forall>(e, j) \<in> set history. drifts L view clk e \<and> sound_job L j"
    and start: "holds_up_to L (clk s) m (kdb_lookup L view s)"
    and run: "run_jobs L X history s = (answers, t)"
  shows "\<exists>m'. spec_run L (timed_jobs L X clk history s) m = (answers, m') \<and>
    holds_up_to L (clk t) m' (kdb_lookup L view t)"
  using good jobs start run
proof (induction history arbitrary: s m answers)
  case (Cons ej history)
  obtain e j where ej: "ej = (e, j)" by fastforce
  with Cons.prems have e: "drifts L view clk e" and j: "sound_job L j" by simp_all
  note R = holds_up_to_drift [OF Cons.prems(3) e]
  obtain r u where u: "handler L X j (e s) = (r, u)" and good_u: "good_db L X view u"
    and clk_u: "clk u = clk (e s)"
    and spec: "spec_job L (clk (e s)) j (kdb_lookup L view (e s)) = (r, kdb_lookup L view u)"
    by (rule handler_spec [OF good_db_drift [OF Cons.prems(1) e] h st j])
  obtain m1 where m1: "spec_job L (clk (e s)) j m = (r, m1)"
    and R1: "holds_up_to L (clk (e s)) m1 (kdb_lookup L view u)"
    by (rule spec_job_up_to [OF R spec])
  obtain rs where rs: "run_jobs L X history u = (rs, t)" and answers: "answers = r # rs"
    using Cons.prems(4) u ej by (auto split: prod.splits)
  from Cons.IH [OF good_u _ R1 [folded clk_u] rs] Cons.prems(2) obtain m2 where
    "spec_run L (timed_jobs L X clk history u) m1 = (rs, m2)"
    and "holds_up_to L (clk t) m2 (kdb_lookup L view t)" by auto
  with ej u m1 answers show ?case by simp
qed simp

section \<open>Single operations at a known time\<close>

text \<open>A read of a stored entry, and of an entry that is there or gone, at a known time.\<close>

lemma get_before_deadline:
  assumes ok: "rocks_ok X view" and h: "healthy X" and st: "steady X clk"
    and v: "view s (body a) = Some v" and md: "md_decode L v = Inr md"
    and p: "payload_decode L (serialized_payload md) = Inr p" "sum_in_range p"
    and time: "clk s \<le> sint (timestamp p) + sint (ttl p)"
  obtains t where "kdb_get L X a s = (Ok (Some md), t)" and "view t = view s" and "clk t = clk s"
proof -
  obtain w t where g: "rocks_get X (body a) s = (Inr w, t)" using healthy_get [OF h] by blast
  with rocks_getD [OF ok g] v have w: "w = Some v" and vt: "view t = view s" by auto
  have c: "clk t = clk s" by (rule steadyD(3) [OF st g])
  have "expired L X p t = (Ok False, t)"
    using steady_expired [OF st p(2), of L t] c time by simp
  with kdb_get_stored [OF g [unfolded w] md p(1)] have "kdb_get L X a s = (Ok (Some md), t)"
    by (simp add: try_then_def)
  with vt c that show thesis by blast
qed

lemma get_after_deadline:
  assumes ok: "rocks_ok X view" and h: "healthy X" and st: "steady X clk"
    and v: "view s (body a) = Some v \<or> view s (body a) = None" and md: "md_decode L v = Inr md"
    and p: "payload_decode L (serialized_payload md) = Inr p" "sum_in_range p"
    and time: "sint (timestamp p) + sint (ttl p) < clk s"
  obtains t where "kdb_get L X a s = (Ok None, t)"
proof -
  obtain w t where g: "rocks_get X (body a) s = (Inr w, t)" using healthy_get [OF h] by blast
  have c: "clk t = clk s" by (rule steadyD(3) [OF st g])
  show thesis
  proof (cases w)
    case None
    from that kdb_get_absent [OF g [unfolded None]] show thesis .
  next
    case (Some v')
    with rocks_getD [OF ok g] v have w: "w = Some v" by auto
    obtain u where u: "rocks_delete X (body a) t = (Inr (), u)" using healthy_delete [OF h] by blast
    have "expired L X p t = (Ok True, t)"
      using steady_expired [OF st p(2), of L t] c time by simp
    with kdb_get_stored [OF g [unfolded w] md p(1)] u have "kdb_get L X a s = (Ok None, u)"
      by (simp add: try_then_def from_sum_io_def)
    with that show thesis .
  qed
qed

lemma put_healthy:
  assumes ok: "rocks_ok X view" and h: "healthy X" and st: "steady X clk" and rt: "md_roundtrip L"
  obtains t v where "kdb_put L X a md s = (Ok (), t)" and "view t = (view s)(body a \<mapsto> v)"
    and "md_encode L md = Inr v" and "md_decode L v = Inr md" and "clk t = clk s"
proof -
  obtain v where v: "md_encode L md = Inr v" "md_decode L v = Inr md"
    using md_roundtripD [OF rt] by blast
  obtain t where t: "rocks_put X (body a) v s = (Inr (), t)" using healthy_put [OF h] by blast
  from rocks_putD [OF ok t] steadyD(4) [OF st t] v t that show thesis
    by (simp add: kdb_put_def from_sum_io_def)
qed

end
