(* ===== verification/Scheduling.thy ===== *)
theory Scheduling
  imports Interleaving
begin

text \<open>
  Progress of the threads of \<open>Interleaving\<close>: a request makes at most three database steps,
  no thread ever waits for another, and no step of a thread undoes the progress of others.
\<close>

section \<open>Runs that count the steps of threads\<close>

text \<open>A step that leaves every thread where it was is compaction and is not counted.\<close>

inductive db_run ::
  "('pk, 'sig, 'msg, 'z) model_lib_scheme \<Rightarrow> ('s, 'x) db_sys_scheme \<Rightarrow> 's view \<Rightarrow>
     (nat \<Rightarrow> job) \<Rightarrow> nat \<Rightarrow> 's shared \<Rightarrow> 's shared \<Rightarrow> bool"
  for L X view jobs where
  still: "db_run L X view jobs 0 s s"
| background: "db_run L X view jobs k s t \<Longrightarrow> db_step L X view jobs t u \<Longrightarrow>
    thread_of u = thread_of t \<Longrightarrow> db_run L X view jobs k s u"
| thread: "db_run L X view jobs k s t \<Longrightarrow> db_step L X view jobs t u \<Longrightarrow>
    thread_of u \<noteq> thread_of t \<Longrightarrow> db_run L X view jobs (Suc k) s u"

lemma db_run_steps: "db_run L X view jobs k s t \<Longrightarrow> (db_step L X view jobs)\<^sup>*\<^sup>* s t"
  by (induction rule: db_run.induct) (auto intro: rtranclp.rtrancl_into_rtrancl)

section \<open>The work that is left\<close>

fun steps_left :: "thread \<Rightarrow> nat" where
  "steps_left Begin = 3"
| "steps_left Stale = 2"
| "steps_left Passed = 1"
| "steps_left (Over r) = 0"

definition work :: "nat \<Rightarrow> (nat \<Rightarrow> thread) \<Rightarrow> nat" where
  "work n ths = (\<Sum>i<n. steps_left (ths i))"

lemma steps_left_0: "steps_left th = 0 \<longleftrightarrow> (\<exists>r. th = Over r)"
  by (cases th) simp_all

lemma work_upd:
  assumes "i < n" and "steps_left th < steps_left (ths i)"
  shows "work n (ths(i := th)) < work n ths"
  unfolding work_def by (rule sum_strict_mono_ex1) (use assms in auto)

lemma commit_Over: "commit L X addr md d = (th, d') \<Longrightarrow> \<exists>r. th = Over r"
  by (auto simp: commit_def split: prod.splits result.splits)

text \<open>Only uploads can be past the check of their time stamp.\<close>

definition puts_only :: "(nat \<Rightarrow> job) \<Rightarrow> nat \<Rightarrow> (nat \<Rightarrow> thread) \<Rightarrow> bool" where
  "puts_only jobs n ths \<longleftrightarrow>
     (\<forall>i. ths i = Passed \<longrightarrow> (\<exists>addr md p. jobs i = Put addr md p)) \<and>
     (\<forall>i\<ge>n. \<exists>r. ths i = Over r)"

lemma puts_only_upd:
  assumes "puts_only jobs n ths" and "i < n"
    and "th = Passed \<longrightarrow> (\<exists>addr md p. jobs i = Put addr md p)"
  shows "puts_only jobs n (ths(i := th))"
  using assms unfolding puts_only_def by simp

lemma active_thread: "puts_only jobs n ths \<Longrightarrow> \<nexists>r. ths i = Over r \<Longrightarrow> i < n"
  unfolding puts_only_def by (meson not_le)

lemma step_work:
  assumes step: "db_step L X view jobs s t" and inv: "puts_only jobs n (thread_of s)"
  shows "puts_only jobs n (thread_of t) \<and>
    (thread_of t = thread_of s \<or> work n (thread_of t) < work n (thread_of s))"
  using step
proof cases
  case (look i th d)
  have i: "i < n" by (rule active_thread [OF inv]) (simp add: look)
  from look_next [OF look(3)] have "steps_left th < steps_left (thread_of s i)"
    by (cases th) (simp_all add: look)
  from work_upd [OF i, where ths = "thread_of s", OF this] puts_only_upd [OF inv i, of th] look_next [OF look(3)] look(1)
  show ?thesis by simp
next
  case (drop i th d)
  have i: "i < n" by (rule active_thread [OF inv]) (simp add: drop)
  from drop_next [OF drop(3)] have "steps_left th < steps_left (thread_of s i)"
    by (cases th) (simp_all add: drop)
  from work_upd [OF i, where ths = "thread_of s", OF this] puts_only_upd [OF inv i, of th] drop_next [OF drop(3)] drop(1)
  show ?thesis by simp
next
  case (commit i addr md p th d)
  have i: "i < n" by (rule active_thread [OF inv]) (simp add: commit)
  from commit_Over [OF commit(4)] obtain r where th: "th = Over r" ..
  then have "steps_left th < steps_left (thread_of s i)" by (simp add: commit)
  from work_upd [OF i, where ths = "thread_of s", OF this] puts_only_upd [OF inv i, of th] th commit(1) show ?thesis by simp
next
  case (compact k v level d0 d)
  with inv show ?thesis by simp
qed

lemma run_work:
  assumes "db_run L X view jobs k s t" and "puts_only jobs n (thread_of s)"
  shows "puts_only jobs n (thread_of t) \<and> k + work n (thread_of t) \<le> work n (thread_of s)"
  using assms
proof (induction rule: db_run.induct)
  case (background k s t u)
  with step_work [OF background.hyps(2), of n] show ?case by auto
next
  case (thread k s t u)
  with step_work [OF thread.hyps(2), of n] show ?case by auto
qed simp

lemma thread_can_step:
  assumes inv: "puts_only jobs n (thread_of s)" and busy: "\<nexists>r. thread_of s i = Over r"
  shows "\<exists>t. db_step L X view jobs s t \<and> thread_of t i \<noteq> thread_of s i"
proof (cases "thread_of s i")
  case Begin
  obtain th d where lk: "look L X (jobs i) (db s) = (th, d)" by fastforce
  from db_step.look [where view = view and jobs = jobs and s = s and i = i, OF Begin lk]
    look_next [OF lk] Begin show ?thesis by (intro exI conjI) auto
next
  case Stale
  obtain th d where dr: "drop_stale X (jobs i) (db s) = (th, d)" by fastforce
  from db_step.drop [where view = view and jobs = jobs and s = s and i = i, OF Stale dr]
    drop_next [OF dr] Stale show ?thesis by (intro exI conjI) auto
next
  case Passed
  with inv obtain addr md p where put: "jobs i = Put addr md p" unfolding puts_only_def by blast
  obtain th d where cm: "commit L X addr md (db s) = (th, d)" by fastforce
  from db_step.commit [where view = view and jobs = jobs and s = s and i = i, OF Passed put cm]
    commit_Over [OF cm] Passed show ?thesis by (intro exI conjI) auto
qed (use busy in simp)

text \<open>
  Every request finishes. Under every schedule, with \<open>n\<close> requests in flight and any
  amount of compaction in between, the threads make at most three steps each before all of
  them are over, and a thread that is not over can always make its next step, whatever the
  others do.
\<close>

theorem threads_finish:
  assumes run: "db_run L X view jobs k s t"
    and start: "\<And>i. i < n \<Longrightarrow> thread_of s i = Begin"
    and idle: "\<And>i. n \<le> i \<Longrightarrow> \<exists>r. thread_of s i = Over r"
  shows "k \<le> 3 * n \<and> (k = 3 * n \<longrightarrow> (\<forall>i. \<exists>r. thread_of t i = Over r)) \<and>
    (\<forall>i. (\<exists>r. thread_of t i = Over r) \<or>
         (\<exists>u. db_step L X view jobs t u \<and> thread_of u i \<noteq> thread_of t i))"
proof -
  have "thread_of s i \<noteq> Passed" for i
    by (cases "i < n") (use start [of i] idle [of i] in auto)
  with idle have inv: "puts_only jobs n (thread_of s)" unfolding puts_only_def by blast
  have "work n (thread_of s) = 3 * n" using start by (simp add: work_def)
  with run_work [OF run inv] have inv_t: "puts_only jobs n (thread_of t)"
    and k: "k + work n (thread_of t) \<le> 3 * n" by simp_all
  have "\<exists>r. thread_of t i = Over r" if "k = 3 * n" for i
  proof (cases "i < n")
    case True
    from k that have "work n (thread_of t) = 0" by simp
    with True show ?thesis by (simp add: work_def steps_left_0)
  next
    case False
    with inv_t show ?thesis unfolding puts_only_def by simp
  qed
  with k thread_can_step [OF inv_t] show ?thesis by (metis add_leD1)
qed

end
