(* ===== verification/Server.thy ===== *)
theory Server
  imports Peer
begin

text \<open>
  \<open>src/src/main.rs\<close>: the application. The router, what actix-web answers itself (a static file,
  404, the answer to an unsupported method) are parameters; the composition of the program's
  own handlers is modelled, with the conversion of their errors, and the server as a transition
  system of requests, polling and compaction over the wallet and the database. The endpoint
  \<open>Elsewhere\<close> is every path that reaches neither of the two resources.
\<close>

section \<open>The application\<close>

datatype endpoint = KeyResource | PaymentResource | Elsewhere

record 's web =
  route :: "request \<Rightarrow> endpoint"
  elsewhere :: "'s service"
  no_method :: "'s service"

definition key_resource ::
  "('pk, 'sig, 'msg, 'z) pay_lib_scheme \<Rightarrow> ('s, 'x) net_sys_scheme \<Rightarrow> 's web \<Rightarrow> 's service" where
  "key_resource L X W rq =
     (case rq_method rq of
        GET \<Rightarrow> on_world (get_key L X rq)
      | PUT \<Rightarrow> on_world (put_key L X rq)
      | _ \<Rightarrow> no_method W rq)"

definition payment_resource ::
  "('pk, 'sig, 'msg, 'z) pay_lib_scheme \<Rightarrow> ('s, 'x) net_sys_scheme \<Rightarrow> settings \<Rightarrow> 's web \<Rightarrow>
     's service" where
  "payment_resource L X S W rq =
     (if rq_method rq = POST then payment_handler L X S rq else no_method W rq)"

definition app ::
  "('pk, 'sig, 'msg, 'z) pay_lib_scheme \<Rightarrow> ('s, 'x) net_sys_scheme \<Rightarrow> settings \<Rightarrow> 's web \<Rightarrow>
     's service" where
  "app L X S W rq =
     (case route W rq of
        KeyResource \<Rightarrow> check_payment L X S (key_resource L X W) rq
      | PaymentResource \<Rightarrow> payment_resource L X S W rq
      | Elsewhere \<Rightarrow> elsewhere W rq)"

text \<open>
  What goes over the wire: the response of the handler, the response of its error, or, when
  the worker panics, nothing.
\<close>

fun respond :: "(response, server_error) result \<Rightarrow> response option" where
  "respond (Ok rs) = Some rs"
| "respond (Err e) = Some (server_response e)"
| "respond Panic = None"

definition default_wallet :: wallet_state where
  "default_wallet = {}"

definition start_server :: "'s \<Rightarrow> 's server" where
  "start_server w = \<lparr>wallet = default_wallet, world = w\<rparr>"

text \<open>Actix-web's own services have no access to the database.\<close>

definition web_isolated :: "'s web \<Rightarrow> 's view \<Rightarrow> bool" where
  "web_isolated W view \<longleftrightarrow>
     (\<forall>rq st. view (world (snd (elsewhere W rq st))) = view (world st)) \<and>
     (\<forall>rq st. view (world (snd (no_method W rq st))) = view (world st))"

section \<open>The server as a transition system\<close>

inductive server_step ::
  "('pk, 'sig, 'msg, 'z) pay_lib_scheme \<Rightarrow> ('s, 'x) net_sys_scheme \<Rightarrow> settings \<Rightarrow> 's web \<Rightarrow>
     's view \<Rightarrow> 's server \<Rightarrow> 's server \<Rightarrow> bool"
  for L X S W view where
  request: "app L X S W rq st = (r, st') \<Longrightarrow> server_step L X S W view st st'"
| pull: "poll_item L X item (world st) = (r, w) \<Longrightarrow>
    server_step L X S W view st (st\<lparr>world := w\<rparr>)"
| compaction: "view (world st) k = Some v \<Longrightarrow>
    ttl_filter L X level k v (world st) = (Ok Remove, w0) \<Longrightarrow>
    view w = (view (world st))(k := None) \<Longrightarrow>
    server_step L X S W view st (st\<lparr>world := w\<rparr>)"
| idle: "view w = view (world st) \<Longrightarrow> server_step L X S W view st (st\<lparr>world := w\<rparr>)"

inductive_cases server_stepE: "server_step L X S W view st st'"

lemmas server_intros = server_step.intros

lemma keeps_ready_of_view:
  assumes "\<And>V. keeps (\<lambda>st. view (world st) = V) m"
  shows "keeps (\<lambda>st. kdb_ready L X view (world st)) m"
proof (rule keepsI)
  fix s r t
  assume ready: "kdb_ready L X view (world s)" and run: "m s = (r, t)"
  have "view (world t) = view (world s)"
    by (rule keepsD [OF assms [of "view (world s)"] refl run])
  from kdb_ready_view [OF this ready] show "kdb_ready L X view (world t)" .
qed

lemma no_method_keeps:
  "web_isolated W view \<Longrightarrow> keeps (\<lambda>st. view (world st) = V) (no_method W rq)"
  unfolding keeps_def web_isolated_def by (metis snd_conv)

lemma elsewhere_keeps:
  "web_isolated W view \<Longrightarrow> keeps (\<lambda>st. view (world st) = V) (elsewhere W rq)"
  unfolding keeps_def web_isolated_def by (metis snd_conv)

lemma key_resource_keeps:
  assumes "web_isolated W view"
  shows "keeps (\<lambda>st. kdb_ready L X view (world st)) (key_resource L X W rq)"
  unfolding key_resource_def
  by (cases "rq_method rq")
     (simp_all add: keeps_on_world get_key_keeps put_key_keeps keeps_ready_of_view [OF no_method_keeps [OF assms]])

lemma check_token_keeps:
  "keeps P (service rq) \<Longrightarrow> keeps P (check_token L S service rq tok)"
  unfolding check_token_def Let_def by (intro keeps_intros) simp_all

lemma check_payment_keeps:
  assumes "keeps P (service rq)" and "keeps P (issue_invoice L X S rq)"
  shows "keeps P (check_payment L X S service rq)"
proof (cases "rq_header rq ''authorization''")
  case (Some hv)
  then show ?thesis unfolding check_payment_def
    by (auto intro!: keeps_intros check_token_keeps assms)
qed (use assms in \<open>simp add: check_payment_def\<close>)

lemma app_keeps:
  assumes iso: "net_isolated X view" and web: "web_isolated W view" and ok: "rocks_ok X view"
  shows "keeps (\<lambda>st. kdb_ready L X view (world st)) (app L X S W rq)"
proof (cases "route W rq")
  case KeyResource
  then show ?thesis
    by (simp add: app_def)
       (rule check_payment_keeps [OF key_resource_keeps [OF web]
          keeps_ready_of_view [OF issue_invoice_keeps [OF iso ok]]])
next
  case PaymentResource
  then show ?thesis
    by (simp add: app_def payment_resource_def keeps_ready_of_view [OF no_method_keeps [OF web]]
        keeps_ready_of_view [OF payment_handler_keeps [OF iso ok]])
next
  case Elsewhere
  then show ?thesis by (simp add: app_def keeps_ready_of_view [OF elsewhere_keeps [OF web]])
qed

definition server_inv ::
  "('pk, 'sig, 'msg, 'z) pay_lib_scheme \<Rightarrow> ('s, 'x) net_sys_scheme \<Rightarrow> 's web \<Rightarrow> 's view \<Rightarrow>
     's server \<Rightarrow> bool" where
  "server_inv L X W view st \<longleftrightarrow>
     net_isolated X view \<and> web_isolated W view \<and> kdb_ready L X view (world st)"

lemma server_inv_step:
  assumes inv: "server_inv L X W view st" and step: "server_step L X S W view st st'"
  shows "server_inv L X W view st'"
proof -
  from inv have iso: "net_isolated X view" and web: "web_isolated W view"
    and ready: "kdb_ready L X view (world st)" by (simp_all add: server_inv_def)
  from step have "kdb_ready L X view (world st')"
  proof cases
    case (request rq r)
    from keepsD [OF app_keeps [OF iso web kdb_readyD(1) [OF ready]] ready request] show ?thesis .
  next
    case (pull item r w)
    with keepsD [OF poll_item_keeps [OF iso] ready pull(2)] show ?thesis by simp
  next
    case (compaction k v level w0 w)
    with kdb_ready_keep [OF ready, of w k] show ?thesis by simp
  next
    case (idle w)
    with kdb_ready_keep [OF ready, of w] show ?thesis by simp
  qed
  with iso web show ?thesis by (simp add: server_inv_def)
qed

interpretation server: safe_steps "server_step L X S W view" "server_inv L X W view" for L X S W view
  by unfold_locales (rule server_inv_step)

text \<open>
  The server only ever stores and serves what key owners signed. From a start on an empty
  database, after any sequence of requests, pulls from peers and compactions, every stored
  entry is authentic for its key, and any \<open>GET\<close> that is answered with 200 returns the
  encoding of authentic metadata for the address of its path.
\<close>

theorem server_serves_authentic:
  assumes run: "(server_step L X S W view)\<^sup>*\<^sup>* (start_server w) st"
    and empty: "view w = Map.empty"
    and params: "rocks_ok X view" "md_roundtrip L" "net_isolated X view" "web_isolated W view"
  shows "(\<forall>k md. kdb_lookup L view (world st) k = Some md \<longrightarrow> authentic L k md) \<and>
    (\<forall>rq rs st'. route W rq = KeyResource \<longrightarrow> rq_method rq = GET \<longrightarrow>
       app L X S W rq st = (Ok rs, st') \<longrightarrow>
       (\<exists>addr md. addr_decode L (rq_addr rq) = Inr addr \<and> authentic L (body addr) md \<and>
          md_encode L md = Inr (rs_body rs) \<and> status rs = 200))"
proof -
  have "server_inv L X W view (start_server w)"
    using empty params by (simp add: server_inv_def kdb_ready_def kdb_inv_def start_server_def)
  from server.run_inv [OF run this] have ready: "kdb_ready L X view (world st)"
    by (simp add: server_inv_def)
  have "\<exists>addr md. addr_decode L (rq_addr rq) = Inr addr \<and> authentic L (body addr) md \<and>
      md_encode L md = Inr (rs_body rs) \<and> status rs = 200"
    if rq: "route W rq = KeyResource" "rq_method rq = GET" "app L X S W rq st = (Ok rs, st')"
    for rq rs st'
  proof -
    from rq obtain u where "get_key L X rq (world st) = (Ok rs, u)"
      by (auto simp: app_def check_payment_def key_resource_def on_world_def split: prod.splits)
    from get_key_stored [OF ready this] show ?thesis by auto
  qed
  moreover have "authentic L k md" if "kdb_lookup L view (world st) k = Some md" for k md
    using kdb.ready_adm [OF ready that] by (simp add: admissible_def)
  ultimately show ?thesis by blast
qed

section \<open>Paying for an upload\<close>

text \<open>
  Documented behaviour of the base64 engine and of header values: encoding then decoding
  gives the bytes back, and a header set from visible ASCII text reads back as that text.
\<close>

definition headers_roundtrip :: "('pk, 'sig, 'msg, 'z) pay_lib_scheme \<Rightarrow> bool" where
  "headers_roundtrip L \<longleftrightarrow>
     (\<forall>b. b64_decode L (b64_encode L b) = Inr b \<and>
          hdr_to_str L (as_bytes (''POP '' @ b64_encode L b)) = Inr (''POP '' @ b64_encode L b))"

definition pop_header :: "('pk, 'sig, 'msg, 'z) pay_lib_scheme \<Rightarrow> bytes \<Rightarrow> string" where
  "pop_header L tok = ''POP '' @ b64_encode L tok"

lemma pop_header_read:
  assumes "headers_roundtrip L"
  shows "hdr_to_str L (as_bytes (pop_header L tok)) = Inr (pop_header L tok)"
    and "take 4 (pop_header L tok) = ''POP ''"
    and "b64_decode L (drop 4 (pop_header L tok)) = Inr tok"
  using assms unfolding headers_roundtrip_def pop_header_def by (blast, simp_all)

lemma authorised_pop:
  assumes "headers_roundtrip L" and "rq_header up ''authorization'' = Some (as_bytes (pop_header L tok))"
  shows "authorised L S up \<longleftrightarrow> tok = hmac_sha256 L (as_bytes (secret S)) (as_bytes (merchant_url_of up))"
  using pop_header_read [OF assms(1), of tok] assms(2) by (simp add: authorised_def)

lemma payment_pop:
  assumes "payment_handler L X S rq st = (Ok rs, st')"
    and "read_body PayloadDecode [] (rq_chunks rq) = Ok raw" "payment_decode L raw = Inr payment"
    and "map_of (rs_headers rs) ''authorization'' = Some pop"
  obtains merchant where "merchant_data payment = Some merchant" and "status rs = 202"
    and "pop = pop_header L (hmac_sha256 L (as_bytes (secret S)) merchant)"
proof -
  from payment_handler_Ok [OF assms(1)] obtain raw' payment' merchant loc raw_ack where
    "read_body PayloadDecode [] (rq_chunks rq) = Ok raw'" "payment_decode L raw' = Inr payment'"
    and m: "merchant_data payment' = Some merchant"
    and rs: "rs = \<lparr>status = 202,
          rs_headers = [(''location'', loc),
            (''authorization'', ''POP '' @ b64_encode L (hmac_sha256 L (as_bytes (secret S)) merchant)),
            (''pragma'', ''no-cache'')],
          rs_body = raw_ack\<rparr>" by blast
  with assms(2,3) have "merchant_data payment = Some merchant" by simp
  moreover have "pop = pop_header L (hmac_sha256 L (as_bytes (secret S)) merchant)"
    using assms(4) by (simp add: rs pop_header_def)
  moreover have "status rs = 202" by (simp add: rs)
  ultimately show thesis using that by blast
qed

text \<open>
  C6: a paid invoice opens the upload. The \<open>Authorization\<close> header of a 202 from the payment
  endpoint, for a payment that carries the merchant data of the invoice, sent with a PUT to
  the same URL, reaches the key handler: in every later state, and every time it is used.
\<close>

theorem payment_opens_upload:
  assumes lib: "ct_eq_decides L" "headers_ascii L" "headers_roundtrip L"
    and paid: "payment_handler L X S rq st = (Ok rs, st')"
    and pay: "read_body PayloadDecode [] (rq_chunks rq) = Ok raw" "payment_decode L raw = Inr payment"
      "merchant_data payment = Some (as_bytes (merchant_url_of up))"
    and up: "route W up = KeyResource" "rq_method up = PUT"
    and auth: "map_of (rs_headers rs) ''authorization'' = Some pop"
      "rq_header up ''authorization'' = Some (as_bytes pop)"
  shows "status rs = 202 \<and> app L X S W up later = on_world (put_key L X up) later"
proof -
  from payment_pop [OF paid pay(1,2) auth(1)] obtain merchant where
    m: "merchant_data payment = Some merchant" and st: "status rs = 202"
    and pop: "pop = pop_header L (hmac_sha256 L (as_bytes (secret S)) merchant)" .
  have "authorised L S up"
    using authorised_pop [OF lib(3) auth(2) [unfolded pop], of S] m pay(3) by simp
  with check_payment_header [OF lib(1,2) up(2) auth(2), of X S "key_resource L X W"]
  have "check_payment L X S (key_resource L X W) up = on_world (put_key L X up)"
    using up(2) by (simp add: key_resource_def)
  with up(1) st show ?thesis by (simp add: app_def)
qed

text \<open>
  C20: a token is good for one URL, as far as the HMAC tells URLs apart. The token handed out
  for a payment, sent with an upload, reaches the handler exactly when the HMAC of the URL of
  that upload, under the server's secret, is the HMAC of the merchant data of the payment: for
  any other URL only a collision opens the upload, and without one the answer is 402 and
  nothing happens.
\<close>

theorem token_bound_to_url:
  assumes lib: "ct_eq_decides L" "headers_ascii L" "headers_roundtrip L"
    and paid: "payment_handler L X S rq st = (Ok rs, st')"
    and pay: "read_body PayloadDecode [] (rq_chunks rq) = Ok raw" "payment_decode L raw = Inr payment"
    and up: "rq_method up = PUT"
    and auth: "map_of (rs_headers rs) ''authorization'' = Some pop"
      "rq_header up ''authorization'' = Some (as_bytes pop)"
  shows "\<exists>merchant. merchant_data payment = Some merchant \<and>
    check_payment L X S service up later =
      (if hmac_sha256 L (as_bytes (secret S)) merchant =
          hmac_sha256 L (as_bytes (secret S)) (as_bytes (merchant_url_of up))
       then service up later else (Ok (server_response (Payment InvalidAuth)), later))"
proof -
  from payment_pop [OF paid pay auth(1)] obtain merchant where
    m: "merchant_data payment = Some merchant"
    and pop: "pop = pop_header L (hmac_sha256 L (as_bytes (secret S)) merchant)" .
  have "\<exists>auth. hdr_to_str L (as_bytes pop) = Inr auth \<and> take 4 auth = ''POP ''"
    using pop_header_read(1,2) [OF lib(3)] pop by blast
  then have "check_payment L X S service up later =
      (if authorised L S up then service up later else (Ok (server_response (Payment InvalidAuth)), later))"
    using check_payment_header [OF lib(1,2) up auth(2), of X S service] by simp
  with m show ?thesis
    unfolding authorised_pop [OF lib(3) auth(2) [unfolded pop]] by blast
qed

text \<open>A payment to a waiting address over a node that takes it is answered with a token.\<close>

lemma pay_waiting:
  assumes rq: "well_addressed rq" "read_body PayloadDecode [] (rq_chunks rq) = Ok raw"
    and pay: "payment_decode L raw = Inr payment" "transactions payment = [tx_raw]"
      "merchant_data payment = Some (as_bytes url)" "rust_str url" "url_parse L url = Inr loc"
    and tx: "tx_deserialize L tx_raw = Inr tx"
      "\<lparr>txo_value = PRICE, script_pubkey = p2pkh_script h\<rparr> \<in> set (tx_outputs tx)"
    and h: "length h = 20" "h \<in> wallet st"
    and send: "send_tx (hex_encode L) X tx_raw (world st) = (Ok txid, t)"
    and ack: "ack_encode L \<lparr>ack_payment = payment, ack_memo = Some ''Thanks for your custom!''\<rparr> = Inr raw_ack"
  obtains st' where "payment_handler L X S rq st =
      (Ok \<lparr>status = 202, rs_headers = [(''location'', loc),
         (''authorization'', pop_header L (hmac_sha256 L (as_bytes (secret S)) (as_bytes url))),
         (''pragma'', ''no-cache'')], rs_body = raw_ack\<rparr>, st')" and "world st' = t"
proof -
  have "screen_payment L rq = Ok (payment, tx_raw, tx)"
    using rq pay tx by (simp add: screen_payment_Ok)
  moreover have "tx_pays tx h" using tx(2) h(1) by (force simp: tx_pays_def pays_to_def list_ex_iff)
  then have "fst (check_outputs (wallet st) tx)" using wallet.claim_iff h(2) by blast
  then obtain w where "check_outputs (wallet st) tx = (True, w)" by (metis prod.collapse)
  note settle_paid [OF this send, of S payment]
  moreover have "from_utf8 (as_bytes url) = Some url" by (rule from_utf8_as_bytes [OF pay(4)])
  then have "receipt L S payment = Ok \<lparr>status = 202, rs_headers = [(''location'', loc),
         (''authorization'', pop_header L (hmac_sha256 L (as_bytes (secret S)) (as_bytes url))),
         (''pragma'', ''no-cache'')], rs_body = raw_ack\<rparr>"
    using pay ack by (simp add: receipt_Ok pop_header_def)
  ultimately show thesis
    using that [of "st\<lparr>wallet := w, world := t\<rparr>"] by (simp add: payment_handler_split)
qed

lemma send_tx_clockless: "send_tx hex (X\<lparr>sys_now := now\<rparr>) raw = send_tx hex X raw"
  by (simp add: send_tx_def)

text \<open>
  C21: what a payment is not checked for. Any payment of any waiting address is answered, at
  whatever time, with a token that opens uploads to the URL the payer put in as merchant data:
  that URL need not be the one the address was issued for, and the 30 seconds of the invoice
  are not enforced, because the endpoint never reads the clock.
\<close>

theorem payment_buys_any_url:
  assumes rt: "headers_roundtrip L"
    and rq: "well_addressed rq" "read_body PayloadDecode [] (rq_chunks rq) = Ok raw"
    and pay: "payment_decode L raw = Inr payment" "transactions payment = [tx_raw]"
      "merchant_data payment = Some (as_bytes url)" "rust_str url" "url_parse L url = Inr loc"
    and tx: "tx_deserialize L tx_raw = Inr tx"
      "\<lparr>txo_value = PRICE, script_pubkey = p2pkh_script h\<rparr> \<in> set (tx_outputs tx)"
    and h: "length h = 20" "h \<in> wallet st"
    and send: "send_tx (hex_encode L) X tx_raw (world st) = (Ok txid, t)"
    and ack: "ack_encode L \<lparr>ack_payment = payment, ack_memo = Some ''Thanks for your custom!''\<rparr> = Inr raw_ack"
  shows "\<exists>rs st' pop. payment_handler L (X\<lparr>sys_now := any_time\<rparr>) S rq st = (Ok rs, st') \<and> status rs = 202 \<and>
    map_of (rs_headers rs) ''authorization'' = Some pop \<and>
    (\<forall>up. merchant_url_of up = url \<longrightarrow> rq_header up ''authorization'' = Some (as_bytes pop) \<longrightarrow>
      authorised L S up)"
proof -
  have timeless: "payment_handler L (X\<lparr>sys_now := any_time\<rparr>) S rq = payment_handler L X S rq"
    by (simp add: payment_handler_split settle_def send_tx_clockless cong: if_cong)
  obtain st' where run: "payment_handler L X S rq st =
      (Ok \<lparr>status = 202, rs_headers = [(''location'', loc),
         (''authorization'', pop_header L (hmac_sha256 L (as_bytes (secret S)) (as_bytes url))),
         (''pragma'', ''no-cache'')], rs_body = raw_ack\<rparr>, st')"
    by (rule pay_waiting [OF rq pay tx h send ack])
  show ?thesis
    unfolding timeless run
    using authorised_pop [OF rt, of _ "hmac_sha256 L (as_bytes (secret S)) (as_bytes url)" S] by auto
qed

section \<open>Every request is answered\<close>

text \<open>
  What rules out the panics of the request path: protobuf encoding into memory does not fail,
  the path of a request that the router sends to the key resource is ASCII and longer than
  \<open>/keys\<close>, and actix-web's own services do not panic.
\<close>

definition encoders_total :: "('pk, 'sig, 'msg, 'z) pay_lib_scheme \<Rightarrow> bool" where
  "encoders_total L \<longleftrightarrow> (\<forall>d. \<not> isl (details_encode L d)) \<and> (\<forall>r. \<not> isl (request_encode L r)) \<and>
     (\<forall>a. \<not> isl (ack_encode L a))"

definition router_ok :: "'s web \<Rightarrow> bool" where
  "router_ok W \<longleftrightarrow>
     (\<forall>rq. route W rq = KeyResource \<longrightarrow> is_ascii (rq_path rq) \<and> 6 \<le> length (rq_path rq)) \<and>
     (\<forall>rq. calm (elsewhere W rq)) \<and> (\<forall>rq. calm (no_method W rq))"

lemma calm_on_world [calm_intros]: "calm m \<Longrightarrow> calm (on_world m)"
  by (auto simp: calm_def on_world_def split: prod.splits)

lemma calm_simple [calm_intros]: "calm (read_clock X)" "calm (add_to_wallet a)" "calm (claim_payment tx)"
  by (simp_all add: calm_def read_clock_def add_to_wallet_def claim_payment_def split: prod.splits)

lemma unwrap_total: "\<not> isl x \<Longrightarrow> unwrap (from_sum x) \<noteq> (Panic :: ('a, 'e) result)"
  by (auto simp: not_isl_iff)

lemma payment_handler_calm:
  assumes "rpc_ok X" and "encoders_total L"
  shows "calm (payment_handler L X S rq)"
  unfolding payment_handler_def Let_def
  by (intro calm_intros calm_try_then)
     (use assms in \<open>auto simp: send_tx_calm encoders_total_def not_isl_iff
        intro!: calm_intros unwrap_total\<close>)

lemma fetch_address_calm: "rpc_ok X \<Longrightarrow> calm (fetch_address L X S)"
  unfolding fetch_address_def Let_def
  by (intro calm_intros calm_try_then get_new_addr_calm) simp_all

lemma generate_outputs_release: "generate_outputs False h url k \<noteq> Panic"
  by (simp add: generate_outputs_eq add_u8_def)

lemma invoice_response_neq_Panic:
  "encoders_total L \<Longrightarrow> 0 \<le> now \<Longrightarrow> 0 \<le> until \<Longrightarrow>
     invoice_response L S base merchant now until outs \<noteq> Panic"
  by (auto simp: invoice_response_def unix_secs_def and_then_eq_Panic encoders_total_def isl_def Let_def)
     (metis sum.exhaust)+

lemma issue_invoice_returns:
  assumes "rpc_ok X" and "encoders_total L" and "\<not> overflow_checks L"
    and clock: "\<And>u. 0 \<le> fst (sys_now X u)"
    and path: "is_ascii (rq_path rq)" "6 \<le> length (rq_path rq)"
  shows "issue_invoice L X S rq st \<noteq> (Panic, st')"
proof -
  obtain now t where now: "sys_now X (world st) = (now, t)" by fastforce
  then have "0 \<le> now" using clock by (metis fst_conv)
  then have resp: "invoice_response L S b m now (now + uint VALID_DURATION) outs \<noteq> Panic" for b m outs
    using invoice_response_neq_Panic [OF assms(2)] by (simp add: VALID_DURATION_def)
  have "calm (\<lambda>u. try_then (lift (str_from (rq_path rq) 6)) (\<lambda>put_addr_str.
     try_then (lift (map_err (\<lambda>(cash_err, base58_err). Address cash_err base58_err)
                 (from_sum (addr_decode L put_addr_str)))) (\<lambda>put_addr.
     try_then (fetch_address L X S) (\<lambda>addr_raw.
     try_then (lift (generate_outputs (overflow_checks L) addr_raw
         (rq_scheme rq @ ''://'' @ rq_host rq) (body put_addr))) (\<lambda>outs.
     lift (invoice_response L S (rq_scheme rq @ ''://'' @ rq_host rq)
       ((rq_scheme rq @ ''://'' @ rq_host rq) @ rq_path rq) now (now + uint VALID_DURATION) outs))))) u)"
    using assms(1,3) resp generate_outputs_release
    by (intro calm_intros calm_try_then fetch_address_calm) (simp_all add: str_from_ascii [OF path])
  from calmD [OF this, of "st\<lparr>world := t\<rparr>" st'] now show ?thesis
    by (simp add: issue_invoice_def try_then_def on_world_def read_clock_def Let_def
        del: append_assoc append_Cons append.simps)
qed

lemma get_key_returns:
  assumes ready: "kdb_ready L X view s" and release: "\<not> overflow_checks L"
    and clock: "\<And>u. 0 \<le> fst (sys_now X u)"
  shows "get_key L X rq s \<noteq> (Panic, t)"
proof
  assume run: "get_key L X rq s = (Panic, t)"
  have "kdb_get L X a s \<noteq> (Panic, t)" for a t
    using checks_never_panic [OF ready clock, of undefined a] release by (metis fst_conv)
  with run md_roundtripD [OF kdb_readyD(2) [OF ready]] show False
    by (force simp: get_key_def io_eqs)
qed

lemma put_key_returns:
  assumes ready: "kdb_ready L X view s" and release: "\<not> overflow_checks L"
    and clock: "\<And>u. 0 \<le> fst (sys_now X u)" and dig: "digests_accepted L"
  shows "put_key L X rq s \<noteq> (Panic, t)"
proof
  assume run: "put_key L X rq s = (Panic, t)"
  have scr: "screen_put L rq \<noteq> Panic"
    using validate_neq_Panic [OF dig] by (auto simp: screen_put_def and_then_eq_Panic split: if_splits)
  then obtain a md p where st: "store_put L X a md p s = (Panic, t)"
    using run by (auto simp: put_key_split try_then_eq_Panic)
  obtain c u where c: "check_timestamp L X a p s = (c, u)" by fastforce
  have "c \<noteq> Panic" using checks_never_panic [OF ready clock, of p a] release c by simp
  moreover have "kdb_put L X a md u \<noteq> (Panic, t)"
    using kdb.put_returns [OF kdb.check_ready [OF ready c]] .
  ultimately show False using st c by (auto simp: store_put_def io_eqs)
qed

lemma check_payment_returns:
  assumes lib: "ct_eq_decides L" "headers_ascii L"
    and service: "\<And>t. service rq st \<noteq> (Panic, t)" and issue: "\<And>t. issue_invoice L X S rq st \<noteq> (Panic, t)"
  shows "check_payment L X S service rq st \<noteq> (Panic, t)"
proof (cases "rq_method rq = PUT")
  case True
  show ?thesis
  proof (cases "rq_header rq ''authorization''")
    case None
    with True issue show ?thesis by (simp add: check_payment_def)
  next
    case (Some hv)
    from check_payment_header [OF lib True Some, of X S service] service show ?thesis by auto
  qed
qed (use service in \<open>simp add: check_payment_def\<close>)

lemma key_resource_returns:
  assumes "kdb_ready L X view (world st)" and "\<not> overflow_checks L"
    and "\<And>u. 0 \<le> fst (sys_now X u)" and "digests_accepted L" and "router_ok W"
  shows "key_resource L X W rq st \<noteq> (Panic, t)"
proof (cases "rq_method rq")
  case GET
  with get_key_returns [OF assms(1-3), of rq] show ?thesis
    by (auto simp: key_resource_def on_world_def split: prod.splits)
next
  case PUT
  with put_key_returns [OF assms(1-4), of rq] show ?thesis
    by (auto simp: key_resource_def on_world_def split: prod.splits)
qed (use assms(5) in \<open>auto simp: key_resource_def router_ok_def dest: calmD\<close>)

text \<open>
  C15: every request is answered. In a release build, with a clock past the epoch and crates
  that behave as documented, no request makes a worker panic on a database that the server
  filled: whatever the method, the path, the headers and the body hold and whatever the node
  and the database answer, the client gets a response.
\<close>

theorem every_request_answered:
  assumes ready: "kdb_ready L X view (world st)" and release: "\<not> overflow_checks L"
    and clock: "\<And>u. 0 \<le> fst (sys_now X u)"
    and lib: "digests_accepted L" "ct_eq_decides L" "headers_ascii L" "encoders_total L"
    and net: "rpc_ok X" and web: "router_ok W"
  shows "\<exists>rs. respond (fst (app L X S W rq st)) = Some rs"
proof -
  obtain r st' where run: "app L X S W rq st = (r, st')" by fastforce
  have "app L X S W rq st \<noteq> (Panic, st')"
  proof (cases "route W rq")
    case KeyResource
    with web have ascii: "is_ascii (rq_path rq)" and len: "6 \<le> length (rq_path rq)"
      unfolding router_ok_def by blast+
    from check_payment_returns [where service = "key_resource L X W" and rq = rq and S = S, OF lib(2,3) key_resource_returns [OF ready release clock lib(1) web]
        issue_invoice_returns [OF net lib(4) release clock ascii len]] KeyResource
    show ?thesis by (simp add: app_def)
  next
    case PaymentResource
    with web calmD [OF payment_handler_calm [OF net lib(4)]] show ?thesis
      by (auto simp: app_def payment_resource_def router_ok_def dest: calmD)
  next
    case Elsewhere
    with web show ?thesis by (auto simp: app_def router_ok_def dest: calmD)
  qed
  with run show ?thesis by (cases r) simp_all
qed

end
