(* ===== verification/Ledger.thy ===== *)
theory Ledger
  imports Server
begin

text \<open>
  Invoices and payments over the whole life of a server. A history is the list of the requests
  that were answered, latest first, with their results; polling and compaction happen in
  between. Functions of the history say how many invoices were asked for and how many
  payments were acknowledged.
\<close>

section \<open>Histories\<close>

type_synonym answer = "request \<times> (response, server_error) result"

inductive history ::
  "('pk, 'sig, 'msg, 'z) pay_lib_scheme \<Rightarrow> ('s, 'x) net_sys_scheme \<Rightarrow> settings \<Rightarrow> 's web \<Rightarrow>
     's server \<Rightarrow> answer list \<Rightarrow> 's server \<Rightarrow> bool"
  for L X S W st0 where
  start: "history L X S W st0 [] st0"
| answered: "history L X S W st0 h st \<Longrightarrow> app L X S W rq st = (r, st') \<Longrightarrow>
    history L X S W st0 ((rq, r) # h) st'"
| meanwhile: "history L X S W st0 h st \<Longrightarrow> history L X S W st0 h (st\<lparr>world := w\<rparr>)"

text \<open>Which requests ask for an invoice, and which answers acknowledge a payment.\<close>

definition asks_invoice :: "'s web \<Rightarrow> request \<Rightarrow> bool" where
  "asks_invoice W rq \<longleftrightarrow>
     route W rq = KeyResource \<and> rq_method rq = PUT \<and> rq_header rq ''authorization'' = None"

fun is_ok :: "('a, 'e) result \<Rightarrow> bool" where
  "is_ok (Ok a) = True"
| "is_ok (Err e) = False"
| "is_ok Panic = False"

definition acknowledges :: "'s web \<Rightarrow> answer \<Rightarrow> bool" where
  "acknowledges W a \<longleftrightarrow>
     route W (fst a) = PaymentResource \<and> rq_method (fst a) = POST \<and> is_ok (snd a)"

primrec asked :: "'s web \<Rightarrow> answer list \<Rightarrow> nat" where
  "asked W [] = 0"
| "asked W (a # h) = (if asks_invoice W (fst a) then 1 else 0) + asked W h"

primrec acknowledged :: "'s web \<Rightarrow> answer list \<Rightarrow> nat" where
  "acknowledged W [] = 0"
| "acknowledged W (a # h) = (if acknowledges W a then 1 else 0) + acknowledged W h"

lemma is_ok_iff: "is_ok r \<longleftrightarrow> (\<exists>a. r = Ok a)"
  by (cases r) simp_all

section \<open>What a request does to the wallet\<close>

text \<open>Actix-web's own services have no access to the wallet.\<close>

definition web_walletless :: "'s web \<Rightarrow> bool" where
  "web_walletless W \<longleftrightarrow>
     (\<forall>rq st. wallet (snd (elsewhere W rq st)) = wallet st) \<and>
     (\<forall>rq st. wallet (snd (no_method W rq st)) = wallet st)"

lemma keeps_wallet_on_world [keeps_intros]: "keeps (\<lambda>st. wallet st = V) (on_world m)"
  by (auto simp: keeps_def on_world_def split: prod.splits)

lemma no_method_wallet: "web_walletless W \<Longrightarrow> keeps (\<lambda>st. wallet st = V) (no_method W rq)"
  unfolding keeps_def web_walletless_def by (metis snd_conv)

lemma elsewhere_wallet: "web_walletless W \<Longrightarrow> keeps (\<lambda>st. wallet st = V) (elsewhere W rq)"
  unfolding keeps_def web_walletless_def by (metis snd_conv)

lemma key_resource_wallet:
  "web_walletless W \<Longrightarrow> keeps (\<lambda>st. wallet st = V) (key_resource L X W rq)"
  unfolding key_resource_def
  by (cases "rq_method rq") (simp_all add: keeps_wallet_on_world no_method_wallet)

text \<open>An upload without a token adds at most the one address of its invoice.\<close>

definition grown :: "wallet_state \<Rightarrow> 's server \<Rightarrow> bool" where
  "grown v st \<longleftrightarrow> wallet st = v \<or> (\<exists>a. wallet st = wallet_add v a)"

definition leads :: "('s \<Rightarrow> bool) \<Rightarrow> ('s, 'a, 'e) io \<Rightarrow> ('s \<Rightarrow> bool) \<Rightarrow> bool" where
  "leads P m Q \<longleftrightarrow> (\<forall>s r t. P s \<longrightarrow> m s = (r, t) \<longrightarrow> Q t)"

lemma leadsD: "leads P m Q \<Longrightarrow> P s \<Longrightarrow> m s = (r, t) \<Longrightarrow> Q t"
  unfolding leads_def by blast

lemma leads_keeps: "keeps P m \<Longrightarrow> (\<And>s. P s \<Longrightarrow> Q s) \<Longrightarrow> leads P m Q"
  unfolding leads_def keeps_def by blast

lemma leads_then:
  assumes "leads P m R" and "\<And>a. leads R (f a) Q" and "\<And>s. R s \<Longrightarrow> Q s"
  shows "leads P (try_then m f) Q"
  unfolding leads_def
proof (intro allI impI)
  fix s r t
  assume P: "P s" and run: "try_then m f s = (r, t)"
  obtain q u where m: "m s = (q, u)" by fastforce
  have u: "R u" by (rule leadsD [OF assms(1) P m])
  show "Q t"
  proof (cases q)
    case (Ok a)
    with m run have "f a u = (r, t)" by (simp add: try_then_def)
    then show ?thesis by (rule leadsD [OF assms(2) u])
  qed (use m run u assms(3) in \<open>auto simp: try_then_def\<close>)
qed

lemma leads_lift: "(\<And>s. P s \<Longrightarrow> Q s) \<Longrightarrow> leads P (lift r) Q"
  by (simp add: leads_def)

lemma add_to_wallet_grows: "leads (\<lambda>st. wallet st = v) (add_to_wallet a) (grown v)"
  by (auto simp: leads_def add_to_wallet_def grown_def)

lemma grown_refl: "wallet st = v \<Longrightarrow> grown v st"
  by (simp add: grown_def)

lemma leads_if: "leads P m Q \<Longrightarrow> leads P n Q \<Longrightarrow> leads P (if b then m else n) Q"
  by simp

lemma fetch_address_grows: "leads (\<lambda>st. wallet st = v) (fetch_address L X S) (grown v)"
  unfolding fetch_address_def Let_def
  by (rule leads_then [where R = "\<lambda>st. wallet st = v"], intro leads_keeps keeps_intros keeps_wallet_on_world, assumption,
      rule leads_then [where R = "\<lambda>st. wallet st = v"], intro leads_lift, assumption,
      rule leads_if, intro leads_lift, erule grown_refl,
      rule leads_then [OF add_to_wallet_grows], intro leads_lift, assumption, assumption,
      erule grown_refl, erule grown_refl)

lemma issue_invoice_grows:
  "leads (\<lambda>st. wallet st = v) (issue_invoice L X S rq) (grown v)"
  unfolding issue_invoice_def Let_def
  by (rule leads_then [where R = "\<lambda>st. wallet st = v"], rule leads_keeps [OF keeps_wallet_on_world], assumption,
      rule leads_then [where R = "\<lambda>st. wallet st = v"], rule leads_lift, assumption,
      rule leads_then [where R = "\<lambda>st. wallet st = v"], rule leads_lift, assumption,
      rule leads_then [OF fetch_address_grows], rule leads_then [where R = "grown v"], rule leads_lift,
      assumption, rule leads_lift, assumption, assumption, assumption, (erule grown_refl)+)

lemma settle_wallet:
  assumes "settle L X S payment tx_raw tx st = (r, st')"
  shows "wallet st' = snd (check_outputs (wallet st) tx)"
proof -
  obtain ok w where claim: "check_outputs (wallet st) tx = (ok, w)" by fastforce
  obtain q t where send: "send_tx (hex_encode L) X tx_raw (world st) = (q, t)" by fastforce
  show ?thesis
    using assms claim settle_unpaid [of st tx w L X S payment tx_raw]
    by (cases ok) (auto simp: settle_paid [OF _ send])
qed

lemma payment_handler_subset:
  assumes run: "payment_handler L X S rq st = (r, st')"
  shows "wallet st' \<subseteq> wallet st"
proof (cases "screen_payment L rq")
  case (Ok a)
  obtain payment tx_raw tx where a: "a = (payment, tx_raw, tx)" by (cases a)
  with Ok run have "settle L X S payment tx_raw tx st = (r, st')" by (simp add: payment_handler_split)
  from settle_wallet [OF this] have w: "wallet st' = snd (check_outputs (wallet st) tx)" .
  obtain ok w' where claim: "check_outputs (wallet st) tx = (ok, w')" by fastforce
  with w wallet.claim_taken [of "wallet st" tx w'] wallet.claim_kept [of "wallet st" tx w'] show ?thesis
    by (cases ok) auto
qed (use run in \<open>simp_all add: payment_handler_split\<close>)

text \<open>A payment takes at most one address out of the wallet, and exactly one when it is acknowledged.\<close>

lemma payment_handler_shrinks:
  assumes run: "payment_handler L X S rq st = (r, st')" and fin: "finite (wallet st)"
  shows "finite (wallet st') \<and> (if is_ok r then 1 else 0) + card (wallet st') \<le> card (wallet st)"
proof (cases r)
  case (Ok rs)
  from payment_handler_Ok [OF run [unfolded Ok]] obtain h where
    h: "h \<in> wallet st" "wallet st' = wallet st - {h}" by blast
  from card_Suc_Diff1 [OF fin h(1)] fin h(2) Ok show ?thesis by simp
next
  case (Err e)
  with payment_handler_subset [OF run] fin show ?thesis by (simp add: card_mono finite_subset)
next
  case Panic
  with payment_handler_subset [OF run] fin show ?thesis by (simp add: card_mono finite_subset)
qed

lemma grown_card:
  assumes "grown v st" and "finite v"
  shows "finite (wallet st) \<and> card (wallet st) \<le> Suc (card v)"
  using assms card_insert_le_m1 by (auto simp: grown_def wallet_add_def card_insert_if)

lemma check_payment_wallet:
  assumes "web_walletless W" and "\<not> (rq_method rq = PUT \<and> rq_header rq ''authorization'' = None)"
  shows "keeps (\<lambda>st. wallet st = V) (check_payment L X S (key_resource L X W) rq)"
proof (cases "rq_method rq = PUT")
  case True
  with assms(2) obtain hv where "rq_header rq ''authorization'' = Some hv" by auto
  with True show ?thesis
    unfolding check_payment_def
    by (auto intro!: keeps_intros check_token_keeps key_resource_wallet [OF assms(1)])
next
  case False
  then show ?thesis by (simp add: check_payment_def key_resource_wallet [OF assms(1)])
qed

lemma app_wallet:
  assumes web: "web_walletless W" and run: "app L X S W rq st = (r, st')" and fin: "finite (wallet st)"
  shows "finite (wallet st') \<and>
    (if acknowledges W (rq, r) then 1 else 0) + card (wallet st') \<le>
    (if asks_invoice W rq then 1 else 0) + card (wallet st)"
proof (cases "route W rq")
  case KeyResource
  with run have run: "check_payment L X S (key_resource L X W) rq st = (r, st')" by (simp add: app_def)
  show ?thesis
  proof (cases "asks_invoice W rq")
    case True
    with run have "issue_invoice L X S rq st = (r, st')" by (simp add: asks_invoice_def check_payment_def)
    from leadsD [OF issue_invoice_grows refl this] have "grown (wallet st) st'" .
    from grown_card [OF this fin] True KeyResource show ?thesis by (simp add: acknowledges_def)
  next
    case False
    with KeyResource have "\<not> (rq_method rq = PUT \<and> rq_header rq ''authorization'' = None)"
      by (simp add: asks_invoice_def)
    from keepsD [OF check_payment_wallet [OF web this] refl run] fin KeyResource False
    show ?thesis by (simp add: acknowledges_def)
  qed
next
  case PaymentResource
  show ?thesis
  proof (cases "rq_method rq = POST")
    case True
    with run PaymentResource have "payment_handler L X S rq st = (r, st')"
      by (simp add: app_def payment_resource_def)
    from payment_handler_shrinks [OF this fin] PaymentResource True
    show ?thesis by (simp add: acknowledges_def asks_invoice_def)
  next
    case False
    with run PaymentResource have "no_method W rq st = (r, st')"
      by (simp add: app_def payment_resource_def)
    from keepsD [OF no_method_wallet [OF web] refl this] fin PaymentResource False
    show ?thesis by (simp add: acknowledges_def)
  qed
next
  case Elsewhere
  with run have "elsewhere W rq st = (r, st')" by (simp add: app_def)
  from keepsD [OF elsewhere_wallet [OF web] refl this] fin Elsewhere
  show ?thesis by (simp add: acknowledges_def)
qed

section \<open>The balance\<close>

text \<open>
  C9: no payment without an invoice, over the whole life of a server. However requests,
  pulls and compactions follow each other from the start on, the payments acknowledged with a
  token and the addresses still waiting are together no more than the uploads that asked for
  an invoice; in particular a server that was never asked for an invoice hands out no token.
\<close>

theorem acknowledged_bounded:
  assumes run: "history L X S W (start_server w) h st" and web: "web_walletless W"
  shows "finite (wallet st) \<and> acknowledged W h + card (wallet st) \<le> asked W h"
  using run
proof (induction h st rule: history.induct)
  case start
  then show ?case by (simp add: start_server_def default_wallet_def)
next
  case (answered h st rq r st')
  with app_wallet [OF web answered.hyps(2)] show ?case by fastforce
qed simp

end
