(* ===== verification/Routing.thy ===== *)
theory Routing
  imports Ledger
begin

text \<open>
  The services that \<open>main\<close> of \<open>src/src/main.rs\<close> registers, as data, and the dispatch over them.
  How actix-web decodes the percent escapes of a path and matches it against a pattern or the
  prefix of a scope are parameters; its documented behaviour is \<open>routing_ok\<close>: the services are
  asked in the order of their registration, and a scope takes every path under its prefix, one
  that none of its resources matches included, which it answers itself with 404. The CORS
  settings are data for actix-cors.
\<close>

section \<open>The table of services\<close>

datatype registration =
    Scope string "(string \<times> http_method list) list"
  | Resource string "http_method list"
  | FilesMount string string string

definition app_services :: "registration list" where
  "app_services =
     [Scope ''/keys'' [(''/{addr}'', [GET, PUT])],
      Resource ''/payments'' [POST],
      FilesMount ''/'' ''./static/'' ''index.html'']"

record cors =
  allowed_methods :: "http_method list"
  allowed_headers :: "string list"
  exposed_headers :: "string list"

definition cors_settings :: cors where
  "cors_settings = \<lparr>allowed_methods = [GET, PUT, POST],
     allowed_headers = [''authorization'', ''content-type''],
     exposed_headers = [''authorization'', ''accept'', ''location'']\<rparr>"

section \<open>Dispatch\<close>

record routing =
  requote :: "string \<Rightarrow> string"
  under :: "string \<Rightarrow> string \<Rightarrow> bool"
  is_match :: "string \<Rightarrow> string \<Rightarrow> bool"

datatype target = KeyHandlers | PaymentHandler | Directory | Nowhere

fun service_methods :: "registration \<Rightarrow> http_method list" where
  "service_methods (Scope prefix resources) = concat (map snd resources)"
| "service_methods (Resource pattern methods) = methods"
| "service_methods (FilesMount mount dir index) = []"

text \<open>Whether a service takes a path, and where the path leads inside the service.\<close>

fun takes :: "'x routing_scheme \<Rightarrow> string \<Rightarrow> registration \<Rightarrow> bool" where
  "takes R path (Scope prefix resources) = under R prefix path"
| "takes R path (Resource pattern methods) = is_match R pattern path"
| "takes R path (FilesMount mount dir index) = under R mount path"

fun inside :: "'x routing_scheme \<Rightarrow> string \<Rightarrow> registration \<Rightarrow> target" where
  "inside R path (Scope prefix resources) =
     (if \<exists>(pattern, methods) \<in> set resources. is_match R (prefix @ pattern) path then KeyHandlers else Nowhere)"
| "inside R path (Resource pattern methods) = PaymentHandler"
| "inside R path (FilesMount mount dir index) = Directory"

definition route_path :: "'x routing_scheme \<Rightarrow> string \<Rightarrow> target" where
  "route_path R path =
     (case find (takes R path) app_services of None \<Rightarrow> Nowhere | Some s \<Rightarrow> inside R path s)"

text \<open>The router and actix-web's own answers, put together for the application.\<close>

fun endpoint_of :: "target \<Rightarrow> endpoint" where
  "endpoint_of KeyHandlers = KeyResource"
| "endpoint_of PaymentHandler = PaymentResource"
| "endpoint_of Directory = Elsewhere"
| "endpoint_of Nowhere = Elsewhere"

definition target_of :: "'x routing_scheme \<Rightarrow> request \<Rightarrow> target" where
  "target_of R rq = route_path R (requote R (rq_path rq))"

definition web_of ::
  "'x routing_scheme \<Rightarrow> 's service \<Rightarrow> 's service \<Rightarrow> 's service \<Rightarrow> 's web" where
  "web_of R files missing refuse =
     \<lparr>route = (\<lambda>rq. endpoint_of (target_of R rq)),
      elsewhere = (\<lambda>rq. if target_of R rq = Directory then files rq else missing rq),
      no_method = refuse\<rparr>"

text \<open>
  \<open>{addr}\<close> stands for one non-empty segment; a pattern without braces matches itself; a prefix
  ends at a slash or at the end of the path. The path of an \<open>http::Uri\<close> is ASCII, and decoding
  its escapes does not make it longer.
\<close>

definition key_segment :: "string \<Rightarrow> bool" where
  "key_segment path \<longleftrightarrow> (\<exists>seg. path = ''/keys/'' @ seg \<and> seg \<noteq> [] \<and> CHR ''/'' \<notin> set seg)"

definition routing_ok :: "'x routing_scheme \<Rightarrow> bool" where
  "routing_ok R \<longleftrightarrow>
     (\<forall>path. is_match R ''/keys/{addr}'' path \<longleftrightarrow> key_segment path) \<and>
     (\<forall>path. is_match R ''/payments'' path \<longleftrightarrow> path = ''/payments'') \<and>
     (\<forall>path. under R ''/keys'' path \<longleftrightarrow> path = ''/keys'' \<or> (\<exists>rest. path = ''/keys/'' @ rest)) \<and>
     (\<forall>path. under R ''/'' path \<longleftrightarrow> (\<exists>rest. path = ''/'' @ rest)) \<and>
     (\<forall>path. key_segment (requote R path) \<longrightarrow> is_ascii path \<and> length (requote R path) \<le> length path)"

lemma routing_okD:
  assumes "routing_ok R"
  shows "is_match R ''/keys/{addr}'' path = key_segment path"
    and "is_match R ''/payments'' path = (path = ''/payments'')"
    and "under R ''/keys'' path = (path = ''/keys'' \<or> (\<exists>rest. path = ''/keys/'' @ rest))"
    and "under R ''/'' path = (\<exists>rest. path = ''/'' @ rest)"
    and "key_segment (requote R path) \<Longrightarrow> is_ascii path \<and> length (requote R path) \<le> length path"
  using assms unfolding routing_ok_def by blast+

lemma route_path_eq:
  assumes "routing_ok R"
  shows "route_path R path =
    (if key_segment path then KeyHandlers
     else if path = ''/keys'' \<or> (\<exists>rest. path = ''/keys/'' @ rest) then Nowhere
     else if path = PAYMENT_PATH then PaymentHandler
     else if \<exists>rest. path = ''/'' @ rest then Directory else Nowhere)"
proof -
  note laws = routing_okD(1-4) [OF assms, of path]
  have under: "under R ''/keys'' path" if "key_segment path"
    using that unfolding laws key_segment_def by blast
  have "\<exists>(pattern, methods) \<in> set [(''/{addr}'', [GET, PUT])]. is_match R (''/keys'' @ pattern) path"
    if "key_segment path" using laws(1) that by simp
  moreover have "\<not> (\<exists>(pattern, methods) \<in> set [(''/{addr}'', [GET, PUT])]. is_match R (''/keys'' @ pattern) path)"
    if "\<not> key_segment path" using laws(1) that by simp
  ultimately have scope: "inside R path (Scope ''/keys'' [(''/{addr}'', [GET, PUT])]) =
      (if key_segment path then KeyHandlers else Nowhere)" by simp
  show ?thesis
  proof (cases "under R ''/keys'' path")
    case True
    with laws(3) scope show ?thesis
      by (simp only: route_path_def app_services_def find.simps takes.simps if_True option.case)
  next
    case False
    then have "\<not> key_segment path" using under by blast
    with False laws show ?thesis
      by (cases "path = ''/payments''"; cases "\<exists>rest. path = ''/'' @ rest")
         (simp_all only: route_path_def app_services_def find.simps takes.simps if_True if_False option.case
           inside.simps(2,3) PAYMENT_PATH_def simp_thms)
  qed
qed

lemma target_KeyHandlers:
  "routing_ok R \<Longrightarrow> target_of R rq = KeyHandlers \<longleftrightarrow> key_segment (requote R (rq_path rq))"
  by (simp add: target_of_def route_path_eq)

lemma target_PaymentHandler:
  assumes "routing_ok R"
  shows "target_of R rq = PaymentHandler \<longleftrightarrow> requote R (rq_path rq) = PAYMENT_PATH"
proof -
  have "\<not> key_segment PAYMENT_PATH" and "PAYMENT_PATH \<noteq> ''/keys''" and "PAYMENT_PATH \<noteq> ''/keys/'' @ rest" for rest
    by (simp_all add: key_segment_def PAYMENT_PATH_def)
  then show ?thesis
    by (cases "requote R (rq_path rq) = PAYMENT_PATH") (simp_all add: target_of_def route_path_eq [OF assms])
qed

lemma endpoint_of_iff [simp]:
  "endpoint_of t = KeyResource \<longleftrightarrow> t = KeyHandlers" "endpoint_of t = PaymentResource \<longleftrightarrow> t = PaymentHandler"
  by (cases t; simp)+

lemma web_of_sel [simp]:
  "route (web_of R files missing refuse) rq = endpoint_of (target_of R rq)"
  "elsewhere (web_of R files missing refuse) rq =
     (if target_of R rq = Directory then files rq else missing rq)"
  "no_method (web_of R files missing refuse) = refuse"
  by (simp_all add: web_of_def)

text \<open>The law of the router that the other theories rely on holds of this table.\<close>

lemma routed_ok:
  assumes R: "routing_ok R"
    and own: "\<And>rq. calm (files rq)" "\<And>rq. calm (missing rq)" "\<And>rq. calm (refuse rq)"
  shows "router_ok (web_of R files missing refuse)"
proof -
  have "is_ascii path \<and> 6 \<le> length path" if "key_segment (requote R path)" for path
  proof -
    have "6 \<le> length (requote R path)" using that by (auto simp: key_segment_def)
    with routing_okD(5) [OF R that] show ?thesis by simp
  qed
  with own show ?thesis by (simp add: router_ok_def target_KeyHandlers [OF R])
qed

section \<open>What a path can touch\<close>

text \<open>The services of actix-web have no access to the database or the wallet.\<close>

definition outsider :: "'s view \<Rightarrow> 's service \<Rightarrow> bool" where
  "outsider view service \<longleftrightarrow>
     (\<forall>rq st. view (world (snd (service rq st))) = view (world st) \<and>
        wallet (snd (service rq st)) = wallet st)"

lemma outsider_web:
  assumes "outsider view files" and "outsider view missing" and "outsider view refuse"
  shows "web_isolated (web_of R files missing refuse) view" and "web_walletless (web_of R files missing refuse)"
  using assms by (simp_all add: outsider_def web_isolated_def web_walletless_def)

text \<open>The database under the key resource: a read or an upload with a token, of one entry.\<close>

lemma key_resource_touches:
  assumes ready: "kdb_ready L X view (world st)" and web: "web_isolated W view"
    and run: "key_resource L X W rq st = (r, st')" and changed: "view (world st') \<noteq> view (world st)"
  obtains addr where "addr_decode L (rq_addr rq) = Inr addr"
    and "rq_method rq = GET \<and> view (world st') = (view (world st))(body addr := None) \<or>
      rq_method rq = PUT \<and> (\<forall>k. k \<noteq> body addr \<longrightarrow> view (world st') k = view (world st) k)"
proof -
  consider "rq_method rq = GET" | "rq_method rq = PUT" | "rq_method rq \<noteq> GET" "rq_method rq \<noteq> PUT" by blast
  then show thesis
  proof cases
    case 1
    with run obtain w where w: "get_key L X rq (world st) = (r, w)" "world st' = w"
      by (auto simp: key_resource_def on_world_def split: prod.splits)
    from get_key_view [OF kdb_readyD(1) [OF ready] w(1)] changed w(2) 1 that show thesis by blast
  next
    case 2
    with run obtain w where w: "put_key L X rq (world st) = (r, w)" "world st' = w"
      by (auto simp: key_resource_def on_world_def split: prod.splits)
    from put_key_view [OF ready w(1)] changed w(2) 2 that show thesis by blast
  next
    case 3
    then have "no_method W rq st = (r, st')" using run by (cases "rq_method rq") (auto simp: key_resource_def)
    from keepsD [OF no_method_keeps [OF web] refl this] changed show thesis by simp
  qed
qed

lemma checked_touches:
  assumes lib: "ct_eq_decides L" "headers_ascii L" and iso: "net_isolated X view" and ok: "rocks_ok X view"
    and run: "check_payment L X S service rq st = (r, st')" and changed: "view (world st') \<noteq> view (world st)"
  shows "service rq st = (r, st') \<and> (rq_method rq = PUT \<longrightarrow> authorised L S rq)"
proof (cases "rq_method rq = PUT")
  case True
  show ?thesis
  proof (cases "rq_header rq ''authorization''")
    case None
    with True run have "issue_invoice L X S rq st = (r, st')" by (simp add: check_payment_def)
    from keepsD [OF issue_invoice_keeps [OF iso ok] refl this] changed show ?thesis by simp
  next
    case (Some hv)
    with check_payment_header [OF lib True Some, of X S service] run changed show ?thesis
      by (auto split: if_splits)
  qed
qed (use run in \<open>simp add: check_payment_def\<close>)

text \<open>
  C30: what a request can touch, by its path and method. The database changes only through a
  \<open>GET\<close>, which at most drops the entry of its address, or a \<open>PUT\<close> with the token of its URL,
  which leaves the entries of all other addresses alone, on \<open>/keys/\<close> and one segment; the
  wallet only through a \<open>PUT\<close> without a token there or a \<open>POST\<close> to the payment path that
  invoices carry. Everything else, such as a longer path under \<open>/keys/\<close>, another method or a
  static file, is answered by actix-web and touches neither.
\<close>

theorem effects_by_path:
  assumes R: "routing_ok R"
    and own: "outsider view files" "outsider view missing" "outsider view refuse"
    and lib: "ct_eq_decides L" "headers_ascii L" and iso: "net_isolated X view"
    and ready: "kdb_ready L X view (world st)"
    and run: "app L X S (web_of R files missing refuse) rq st = (r, st')"
  shows "(view (world st') = view (world st) \<or>
      key_segment (requote R (rq_path rq)) \<and>
      (\<exists>addr. addr_decode L (rq_addr rq) = Inr addr \<and>
        (rq_method rq = GET \<and> view (world st') = (view (world st))(body addr := None) \<or>
         rq_method rq = PUT \<and> authorised L S rq \<and>
           (\<forall>k. k \<noteq> body addr \<longrightarrow> view (world st') k = view (world st) k)))) \<and>
    (wallet st' = wallet st \<or>
      key_segment (requote R (rq_path rq)) \<and> rq_method rq = PUT \<and> rq_header rq ''authorization'' = None \<or>
      requote R (rq_path rq) = PAYMENT_PATH \<and> rq_method rq = POST)"
proof -
  let ?W = "web_of R files missing refuse"
  note web = outsider_web [OF own, of R] and ok = kdb_readyD(1) [OF ready]
  note run = run [unfolded app_def]
  show ?thesis
  proof (cases "target_of R rq")
    case KeyHandlers
    then have seg: "key_segment (requote R (rq_path rq))" using target_KeyHandlers [OF R] by blast
    from run KeyHandlers have checked: "check_payment L X S (key_resource L X ?W) rq st = (r, st')" by simp
    have "wallet st' = wallet st \<or> rq_method rq = PUT \<and> rq_header rq ''authorization'' = None"
      using keepsD [OF check_payment_wallet [OF web(2)] refl checked] by blast
    moreover have "\<exists>addr. addr_decode L (rq_addr rq) = Inr addr \<and>
        (rq_method rq = GET \<and> view (world st') = (view (world st))(body addr := None) \<or>
         rq_method rq = PUT \<and> authorised L S rq \<and>
           (\<forall>k. k \<noteq> body addr \<longrightarrow> view (world st') k = view (world st) k))"
      if changed: "view (world st') \<noteq> view (world st)"
    proof -
      note reached = checked_touches [OF lib iso ok checked changed]
      show ?thesis
        by (rule key_resource_touches [OF ready web(1) reached [THEN conjunct1] changed])
           (use reached in blast)
    qed
    ultimately show ?thesis using seg by blast
  next
    case PaymentHandler
    show ?thesis
    proof (cases "rq_method rq = POST")
      case True
      with run PaymentHandler have "payment_handler L X S rq st = (r, st')" by (simp add: payment_resource_def)
      from keepsD [OF payment_handler_keeps [OF iso ok] refl this] True PaymentHandler
      show ?thesis using target_PaymentHandler [OF R] by simp
    next
      case False
      with run PaymentHandler have "refuse rq st = (r, st')" by (simp add: payment_resource_def)
      with own(3) show ?thesis unfolding outsider_def by (metis snd_conv)
    qed
  next
    case Directory
    with run have "files rq st = (r, st')" by simp
    with own(1) show ?thesis unfolding outsider_def by (metis snd_conv)
  next
    case Nowhere
    with run have "missing rq st = (r, st')" by simp
    with own(2) show ?thesis unfolding outsider_def by (metis snd_conv)
  qed
qed

section \<open>What browsers may see\<close>

text \<open>Headers that CORS always lets through, by the Fetch standard.\<close>

definition safe_request_headers :: "string list" where
  "safe_request_headers = [''accept'', ''accept-language'', ''content-language'']"

definition safe_response_headers :: "string list" where
  "safe_response_headers = [''cache-control'', ''content-language'', ''content-length'', ''content-type'',
     ''expires'', ''last-modified'', ''pragma'']"

definition readable_header :: "string \<Rightarrow> bool" where
  "readable_header name \<longleftrightarrow> name \<in> set (exposed_headers cors_settings) \<or> name \<in> set safe_response_headers"

definition sendable_header :: "string \<Rightarrow> bool" where
  "sendable_header name \<longleftrightarrow> name \<in> set (allowed_headers cors_settings) \<or> name \<in> set safe_request_headers"

lemma cors_methods: "s \<in> set app_services \<Longrightarrow> set (service_methods s) \<subseteq> set (allowed_methods cors_settings)"
  by (auto simp: app_services_def cors_settings_def)

lemma cors_request_headers:
  "sendable_header ''authorization''" "sendable_header ''content-type''" "sendable_header ''accept''"
  by (simp_all add: sendable_header_def cors_settings_def safe_request_headers_def)

text \<open>
  A client in a browser can go through the whole exchange: every header that the handlers look
  at may be sent, and every header of a receipt may be read.
\<close>

theorem cors_suffices:
  assumes "payment_handler L X S rq st = (Ok rs, st')" and "(name, v) \<in> set (rs_headers rs)"
  shows "readable_header name"
proof -
  from payment_handler_Ok [OF assms(1)] obtain loc token raw where
    "rs = \<lparr>status = 202, rs_headers = [(''location'', loc), (''authorization'', token), (''pragma'', ''no-cache'')],
       rs_body = raw\<rparr>" by (elim exE conjE) (rule that)
  with assms(2) have "name \<in> {''location'', ''authorization'', ''pragma''}" by auto
  then show ?thesis by (auto simp: readable_header_def cors_settings_def safe_response_headers_def)
qed

end
