(* ===== verification/Configuration.thy ===== *)
theory Configuration
  imports Models
begin

text \<open>
  \<open>src/src/settings.rs\<close>: how the settings are put together from defaults, the configuration
  file and the command line. The \<open>config\<close> and \<open>clap\<close> crates are parameters; what the code
  relies on of \<open>config\<close>, its three layers and what the fields are read from, is \<open>cfg_ok\<close>.
\<close>

section \<open>Parameters\<close>

datatype cfg_value = CfgStr string | CfgInt i64 | CfgNil

record 'c cfg_lib =
  cfg_empty :: 'c
  cfg_set_default :: "string \<Rightarrow> cfg_value \<Rightarrow> 'c \<Rightarrow> ext_error + 'c"
  cfg_merge_file :: "string \<Rightarrow> 'c \<Rightarrow> ext_error + 'c"
  cfg_set :: "string \<Rightarrow> cfg_value \<Rightarrow> 'c \<Rightarrow> ext_error + 'c"
  cfg_try_into :: "'c \<Rightarrow> ext_error + settings"

text \<open>The command line, as \<open>value_of\<close> of the parsed arguments, and the home directory.\<close>

record cli =
  value_of :: "string \<Rightarrow> string option"
  home_dir :: "string option"

section \<open>Standard library\<close>

text \<open>\<open>PathBuf::push\<close> of a relative path, \<open>Path::to_str\<close> and \<open>str::parse::<i64>\<close>.\<close>

definition path_push :: "string \<Rightarrow> string \<Rightarrow> string" where
  "path_push p q = (if p = [] \<or> last p = CHR ''/'' then p @ q else p @ ''/'' @ q)"

definition path_to_str :: "string \<Rightarrow> string option" where
  "path_to_str p = (if rust_str p then Some p else None)"

definition digit_value :: "char \<Rightarrow> int option" where
  "digit_value c = (let n = int (of_char c) in if 48 \<le> n \<and> n \<le> 57 then Some (n - 48) else None)"

fun parse_digits :: "int \<Rightarrow> string \<Rightarrow> int option" where
  "parse_digits acc [] = Some acc"
| "parse_digits acc (c # cs) =
    (case digit_value c of None \<Rightarrow> None | Some d \<Rightarrow> parse_digits (10 * acc + d) cs)"

definition parse_i64 :: "string \<Rightarrow> i64 option" where
  "parse_i64 s =
     (let (neg, digits) = (case s of
          c # cs \<Rightarrow> if c = CHR ''-'' then (True, cs) else if c = CHR ''+'' then (False, cs) else (False, s)
        | [] \<Rightarrow> (False, []))
      in if digits = [] then None
         else case parse_digits 0 digits of
           None \<Rightarrow> None
         | Some m \<Rightarrow>
             let n = (if neg then - m else m) in
             if - (2 ^ 63) \<le> n \<and> n < 2 ^ 63 then Some (word_of_int n) else None)"

section \<open>Settings::new\<close>

definition set_str ::
  "'c cfg_lib \<Rightarrow> cli \<Rightarrow> string \<Rightarrow> string \<Rightarrow> 'c \<Rightarrow> ('c, ext_error) result" where
  "set_str C args name key s =
     (case value_of args name of
        Some v \<Rightarrow> from_sum (cfg_set C key (CfgStr v) s)
      | None \<Rightarrow> Ok s)"

definition set_port ::
  "'c cfg_lib \<Rightarrow> cli \<Rightarrow> string \<Rightarrow> string \<Rightarrow> 'c \<Rightarrow> ('c, ext_error) result" where
  "set_port C args name key s =
     (case Option.bind (value_of args name) parse_i64 of
        Some n \<Rightarrow> from_sum (cfg_set C key (CfgInt n) s)
      | None \<Rightarrow> Ok s)"

fun set_defaults :: "'c cfg_lib \<Rightarrow> (string \<times> cfg_value) list \<Rightarrow> 'c \<Rightarrow> ('c, ext_error) result" where
  "set_defaults C [] s = Ok s"
| "set_defaults C ((key, v) # rest) s =
     and_then (from_sum (cfg_set_default C key v s)) (set_defaults C rest)"

definition default_values :: "string option \<Rightarrow> (string \<times> cfg_value) list" where
  "default_values default_db =
     [(''bind'', CfgStr ''127.0.0.1:8080''), (''node_ip'', CfgStr ''127.0.0.1''),
      (''rpc_port'', CfgStr ''18443''), (''rpc_username'', CfgStr ''username''),
      (''rpc_password'', CfgStr ''password''), (''zmq_port'', CfgStr ''28332''),
      (''secret'', CfgStr ''secret''),
      (''db_path'', case default_db of Some p \<Rightarrow> CfgStr p | None \<Rightarrow> CfgNil),
      (''network'', CfgStr ''regnet'')]"

definition apply_args :: "'c cfg_lib \<Rightarrow> cli \<Rightarrow> 'c \<Rightarrow> ('c, ext_error) result" where
  "apply_args C args s =
     and_then (set_str C args ''bind'' ''bind'' s) (\<lambda>s.
     and_then (set_str C args ''node-ip'' ''node_ip'' s) (\<lambda>s.
     and_then (set_port C args ''rpc-port'' ''rpc_port'' s) (\<lambda>s.
     and_then (set_str C args ''rpc-username'' ''rpc_username'' s) (\<lambda>s.
     and_then (set_str C args ''rpc-password'' ''rpc_password'' s) (\<lambda>s.
     and_then (set_port C args ''zmq-port'' ''zmq_port'' s) (\<lambda>s.
     and_then (set_str C args ''secret'' ''secret'' s) (\<lambda>s.
     and_then (set_str C args ''db-path'' ''db_path'' s) (\<lambda>s.
     set_str C args ''network'' ''network'' s))))))))"

definition settings_new :: "'c cfg_lib \<Rightarrow> cli \<Rightarrow> (settings, ext_error) result" where
  "settings_new C args =
     and_then (ok_or ''no home directory'' (home_dir args)) (\<lambda>home.
     and_then (set_defaults C (default_values (path_to_str (path_push home ''.keyserver-rust/db'')))
                 (cfg_empty C)) (\<lambda>s.
     and_then (unwrap_opt (path_to_str (path_push home ''.keyserver-rust/config'')))
       (\<lambda>default_config_str.
     let config_path = (case value_of args ''config'' of Some p \<Rightarrow> p | None \<Rightarrow> default_config_str) in
     and_then (from_sum (cfg_merge_file C config_path s)) (\<lambda>s.
     and_then (apply_args C args s) (\<lambda>s.
     from_sum (cfg_try_into C s))))))"

section \<open>The layers\<close>

text \<open>
  Documented behaviour of \<open>config\<close>: a configuration has values set explicitly, values from
  files and defaults, which are looked up in this order. \<open>file\<close> is what a file holds. Each
  field of the settings is read from the value found under its name: a text field is the
  text, a port the number, or the number the text stands for, as far as it is a port, and the
  network the one of the name (\<open>rename_all = "lowercase"\<close>).
\<close>

record cfg_layers =
  overrides :: "string \<rightharpoonup> cfg_value"
  from_file :: "string \<rightharpoonup> cfg_value"
  defaults :: "string \<rightharpoonup> cfg_value"

definition cfg_lookup :: "cfg_layers \<Rightarrow> string \<Rightarrow> cfg_value option" where
  "cfg_lookup l = defaults l ++ from_file l ++ overrides l"

fun number_of :: "cfg_value option \<Rightarrow> int option" where
  "number_of (Some (CfgInt n)) = Some (sint n)"
| "number_of (Some (CfgStr v)) = map_option sint (parse_i64 v)"
| "number_of (Some CfgNil) = None"
| "number_of None = None"

definition loaded_from :: "(string \<Rightarrow> cfg_value option) \<Rightarrow> settings \<Rightarrow> bool" where
  "loaded_from found S \<longleftrightarrow>
     (\<forall>(key, field) \<in> set [(''bind'', bind_addr S), (''node_ip'', node_ip S),
         (''rpc_username'', rpc_username S), (''rpc_password'', rpc_password S),
         (''secret'', secret S), (''db_path'', db_path S), (''network'', network_to_string (s_network S))].
        \<forall>v. found key = Some (CfgStr v) \<longrightarrow> field = v) \<and>
     (\<forall>(key, port) \<in> set [(''rpc_port'', rpc_port S), (''zmq_port'', zmq_port S)].
        \<forall>n. number_of (found key) = Some n \<longrightarrow> 0 \<le> n \<longrightarrow> n < 2 ^ 16 \<longrightarrow> uint port = n)"

definition cfg_ok ::
  "'c cfg_lib \<Rightarrow> ('c \<Rightarrow> cfg_layers) \<Rightarrow> (string \<Rightarrow> string \<rightharpoonup> cfg_value) \<Rightarrow> bool" where
  "cfg_ok C layers file \<longleftrightarrow>
     layers (cfg_empty C) = \<lparr>overrides = Map.empty, from_file = Map.empty, defaults = Map.empty\<rparr> \<and>
     (\<forall>k v s t. cfg_set_default C k v s = Inr t \<longrightarrow>
        layers t = (layers s)\<lparr>defaults := (defaults (layers s))(k \<mapsto> v)\<rparr>) \<and>
     (\<forall>k v s t. cfg_set C k v s = Inr t \<longrightarrow>
        layers t = (layers s)\<lparr>overrides := (overrides (layers s))(k \<mapsto> v)\<rparr>) \<and>
     (\<forall>p s t. cfg_merge_file C p s = Inr t \<longrightarrow>
        layers t = (layers s)\<lparr>from_file := from_file (layers s) ++ file p\<rparr>) \<and>
     (\<forall>s S. cfg_try_into C s = Inr S \<longrightarrow> loaded_from (cfg_lookup (layers s)) S)"

lemma set_defaults_layers:
  assumes "cfg_ok C layers file"
  shows "set_defaults C kvs s = Ok t \<Longrightarrow>
     layers t = (layers s)\<lparr>defaults := defaults (layers s) ++ map_of (rev kvs)\<rparr>"
proof (induction kvs arbitrary: s)
  case (Cons kv kvs)
  obtain k v where kv: "kv = (k, v)" by fastforce
  with Cons.prems obtain u where u: "cfg_set_default C k v s = Inr u"
    and t: "set_defaults C kvs u = Ok t" by (auto simp: and_then_eq_Ok)
  from u assms have "layers u = (layers s)\<lparr>defaults := (defaults (layers s))(k \<mapsto> v)\<rparr>"
    unfolding cfg_ok_def by blast
  with Cons.IH [OF t] kv show ?case by (simp add: map_add_def fun_eq_iff split: option.split)
qed simp

definition arg_str :: "cli \<Rightarrow> string \<Rightarrow> cfg_value option" where
  "arg_str args name = map_option CfgStr (value_of args name)"

definition arg_port :: "cli \<Rightarrow> string \<Rightarrow> cfg_value option" where
  "arg_port args name = map_option CfgInt (Option.bind (value_of args name) parse_i64)"

definition override :: "string \<Rightarrow> cfg_value option \<Rightarrow> cfg_layers \<Rightarrow> cfg_layers" where
  "override k m l = (case m of None \<Rightarrow> l | Some v \<Rightarrow> l\<lparr>overrides := (overrides l)(k \<mapsto> v)\<rparr>)"

lemma set_str_layers:
  assumes "cfg_ok C layers file" and "set_str C args name key s = Ok t"
  shows "layers t = override key (arg_str args name) (layers s)"
  using assms unfolding cfg_ok_def set_str_def override_def arg_str_def
  by (cases "value_of args name") auto

lemma set_port_layers:
  assumes "cfg_ok C layers file" and "set_port C args name key s = Ok t"
  shows "layers t = override key (arg_port args name) (layers s)"
  using assms unfolding cfg_ok_def set_port_def override_def arg_port_def
  by (cases "Option.bind (value_of args name) parse_i64") auto

text \<open>What the command line says about a key of the settings.\<close>

definition cli_pairs :: "cli \<Rightarrow> (string \<times> cfg_value option) list" where
  "cli_pairs args =
     [(''bind'', arg_str args ''bind''), (''node_ip'', arg_str args ''node-ip''),
      (''rpc_port'', arg_port args ''rpc-port''), (''rpc_username'', arg_str args ''rpc-username''),
      (''rpc_password'', arg_str args ''rpc-password''), (''zmq_port'', arg_port args ''zmq-port''),
      (''secret'', arg_str args ''secret''), (''db_path'', arg_str args ''db-path''),
      (''network'', arg_str args ''network'')]"

definition cli_value :: "cli \<Rightarrow> string \<Rightarrow> cfg_value option" where
  "cli_value args key = Option.bind (map_of (cli_pairs args) key) id"

lemma override_sel:
  "overrides (override k m l) = (case m of None \<Rightarrow> overrides l | Some v \<Rightarrow> (overrides l)(k \<mapsto> v))"
  "from_file (override k m l) = from_file l" "defaults (override k m l) = defaults l"
  by (simp_all add: override_def split: option.split)

lemma override_all:
  assumes "distinct (map fst kms)"
  shows "overrides (fold (\<lambda>(k, m). override k m) kms l) =
      overrides l ++ (\<lambda>k. Option.bind (map_of kms k) id) \<and>
    from_file (fold (\<lambda>(k, m). override k m) kms l) = from_file l \<and>
    defaults (fold (\<lambda>(k, m). override k m) kms l) = defaults l"
  using assms
proof (induction kms arbitrary: l)
  case (Cons km kms)
  obtain k m where km: "km = (k, m)" by fastforce
  with Cons.prems have "map_of kms k = None" by (simp add: map_of_eq_None_iff)
  with Cons km show ?case
    by (auto simp: override_sel map_add_def fun_eq_iff split: option.splits)
qed (simp add: map_add_def)

lemma apply_args_layers:
  assumes ok: "cfg_ok C layers file" and run: "apply_args C args s = Ok t"
    and fresh: "overrides (layers s) = Map.empty"
  shows "from_file (layers t) = from_file (layers s) \<and> defaults (layers t) = defaults (layers s) \<and>
    overrides (layers t) = cli_value args"
proof -
  from run obtain s1 s2 s3 s4 s5 s6 s7 s8 where
    steps: "set_str C args ''bind'' ''bind'' s = Ok s1"
      "set_str C args ''node-ip'' ''node_ip'' s1 = Ok s2"
      "set_port C args ''rpc-port'' ''rpc_port'' s2 = Ok s3"
      "set_str C args ''rpc-username'' ''rpc_username'' s3 = Ok s4"
      "set_str C args ''rpc-password'' ''rpc_password'' s4 = Ok s5"
      "set_port C args ''zmq-port'' ''zmq_port'' s5 = Ok s6"
      "set_str C args ''secret'' ''secret'' s6 = Ok s7"
      "set_str C args ''db-path'' ''db_path'' s7 = Ok s8"
      "set_str C args ''network'' ''network'' s8 = Ok t"
    by (auto simp: apply_args_def and_then_eq_Ok)
  note l = set_str_layers [OF ok steps(1)] set_str_layers [OF ok steps(2)]
    set_port_layers [OF ok steps(3)] set_str_layers [OF ok steps(4)]
    set_str_layers [OF ok steps(5)] set_port_layers [OF ok steps(6)]
    set_str_layers [OF ok steps(7)] set_str_layers [OF ok steps(8)]
    set_str_layers [OF ok steps(9)]
  have "layers t = fold (\<lambda>(k, m). override k m) (cli_pairs args) (layers s)"
    unfolding l cli_pairs_def by simp
  moreover have "distinct (map fst (cli_pairs args))" by (simp add: cli_pairs_def)
  ultimately show ?thesis
    using override_all [of "cli_pairs args" "layers s"] fresh by (simp add: cli_value_def [abs_def])
qed

text \<open>The value that decides a setting, and that the settings are read from these values.\<close>

definition deciding :: "cli \<Rightarrow> (string \<Rightarrow> string \<rightharpoonup> cfg_value) \<Rightarrow> string \<Rightarrow> string \<Rightarrow> cfg_value option" where
  "deciding args file home key =
     (case cli_value args key of
        Some v \<Rightarrow> Some v
      | None \<Rightarrow>
          (case file (case value_of args ''config'' of Some p \<Rightarrow> p
                      | None \<Rightarrow> path_push home ''.keyserver-rust/config'') key of
             Some v \<Rightarrow> Some v
           | None \<Rightarrow> map_of (default_values (path_to_str (path_push home ''.keyserver-rust/db''))) key))"

lemma layers_found:
  assumes ok: "cfg_ok C layers file"
    and s0: "set_defaults C (default_values (path_to_str (path_push home ''.keyserver-rust/db'')))
      (cfg_empty C) = Ok s0"
    and s1: "cfg_merge_file C (case value_of args ''config'' of Some p \<Rightarrow> p
      | None \<Rightarrow> path_push home ''.keyserver-rust/config'') s0 = Inr s1"
    and c: "apply_args C args s1 = Ok c"
  shows "cfg_lookup (layers c) = deciding args file home"
proof -
  let ?d = "default_values (path_to_str (path_push home ''.keyserver-rust/db''))"
  let ?p = "case value_of args ''config'' of Some p \<Rightarrow> p | None \<Rightarrow> path_push home ''.keyserver-rust/config''"
  have empty: "layers (cfg_empty C) = \<lparr>overrides = Map.empty, from_file = Map.empty, defaults = Map.empty\<rparr>"
    using ok by (simp add: cfg_ok_def)
  have "distinct (map fst ?d)" by (simp add: default_values_def)
  then have "map_of (rev ?d) = map_of ?d"
    by (simp add: map_of_inject_set rev_map [symmetric])
  then have l0: "layers s0 = \<lparr>overrides = Map.empty, from_file = Map.empty, defaults = map_of ?d\<rparr>"
    using set_defaults_layers [OF ok s0] empty by simp
  have l1: "layers s1 = (layers s0)\<lparr>from_file := from_file (layers s0) ++ file ?p\<rparr>"
    using ok s1 unfolding cfg_ok_def by blast
  from apply_args_layers [OF ok c] l0 l1 have
    "cfg_lookup (layers c) = map_of ?d ++ file ?p ++ cli_value args" by (simp add: cfg_lookup_def)
  then show ?thesis by (simp add: fun_eq_iff deciding_def map_add_def split: option.split)
qed

lemma settings_layers:
  assumes ok: "cfg_ok C layers file" and run: "settings_new C args = Ok s"
  obtains home c where "home_dir args = Some home" and "cfg_try_into C c = Inr s"
    and "cfg_lookup (layers c) = deciding args file home"
proof -
  from run obtain home s0 path s1 c where
    home: "home_dir args = Some home" and
    s0: "set_defaults C (default_values (path_to_str (path_push home ''.keyserver-rust/db'')))
      (cfg_empty C) = Ok s0" and
    path: "path_to_str (path_push home ''.keyserver-rust/config'') = Some path" and
    s1: "cfg_merge_file C (case value_of args ''config'' of Some p \<Rightarrow> p | None \<Rightarrow> path) s0 = Inr s1" and
    c: "apply_args C args s1 = Ok c" "cfg_try_into C c = Inr s"
    by (auto simp: settings_new_def and_then_eq_Ok Let_def)
  have "path = path_push home ''.keyserver-rust/config''"
    using path by (simp add: path_to_str_def split: if_splits)
  from that [OF home c(2) layers_found [OF ok s0 s1 [unfolded this] c(1)]] show thesis .
qed

text \<open>
  C40: command line over file over defaults. When the settings load, every field holds what
  the command line says about it; if it says nothing, or for a port something that is not a
  number, what the configuration file says (the one named on the command line, or the one
  under the home directory); and else the default. Text fields and the network are the text
  found there; a port is the number found there, in digits or not, if that is a port at all.
\<close>

theorem settings_precedence:
  assumes ok: "cfg_ok C layers file" and run: "settings_new C args = Ok s"
  shows "\<exists>home. home_dir args = Some home \<and> loaded_from (\<lambda>key.
    case cli_value args key of
      Some v \<Rightarrow> Some v
    | None \<Rightarrow>
        (case file (case value_of args ''config'' of Some p \<Rightarrow> p
                    | None \<Rightarrow> path_push home ''.keyserver-rust/config'') key of
           Some v \<Rightarrow> Some v
         | None \<Rightarrow> map_of (default_values (path_to_str (path_push home ''.keyserver-rust/db''))) key)) s"
proof -
  from settings_layers [OF ok run] obtain home c where home: "home_dir args = Some home"
    and c: "cfg_try_into C c = Inr s" and found: "cfg_lookup (layers c) = deciding args file home" .
  have "loaded_from (deciding args file home) s"
    using ok c unfolding cfg_ok_def found [symmetric] by blast
  with home show ?thesis unfolding deciding_def [abs_def] by blast
qed

text \<open>
  A malformed port on the command line is ignored. When the value of \<open>--rpc-port\<close> is not
  a number the settings load exactly as if the option had not been given.
\<close>

theorem malformed_port_ignored:
  assumes "value_of args ''rpc-port'' = Some v" and "parse_i64 v = None"
  shows "settings_new C args =
    settings_new C (args\<lparr>value_of := (value_of args)(''rpc-port'' := None)\<rparr>)"
  using assms by (simp add: settings_new_def apply_args_def set_str_def set_port_def)

end
