(* ===== verification/Startup.thy ===== *)
theory Startup
  imports Ledger Configuration
begin

text \<open>
  \<open>main\<close> of \<open>src/src/main.rs\<close> up to the running server, with \<open>KeyDB::try_new\<close> of
  \<open>src/src/db.rs\<close> and \<open>BitcoinClient::new\<close> of \<open>src/src/bitcoin/client.rs\<close>: the settings are
  loaded, the database is opened, the wallet starts empty, the clients are connected, and
  what follows is the transition system of \<open>Server\<close>. A server that is stopped and started
  again goes through it once more, over the database the last run left.
\<close>

section \<open>Rendering a port\<close>

definition digit_char :: "nat \<Rightarrow> char" where
  "digit_char d = char_of (48 + d)"

fun decimal :: "nat \<Rightarrow> string" where
  "decimal n = (if n < 10 then [digit_char n] else decimal (n div 10) @ [digit_char (n mod 10)])"

declare decimal.simps [simp del]

definition node_url :: "string \<Rightarrow> string \<Rightarrow> u16 \<Rightarrow> string" where
  "node_url protocol ip port = protocol @ ''://'' @ ip @ '':'' @ decimal (unat port)"

lemma digit_value_char: "d < 10 \<Longrightarrow> digit_value (digit_char d) = Some (int d)"
  by (simp add: digit_value_def digit_char_def)

lemma parse_digits_snoc:
  "parse_digits acc (xs @ [c]) =
     Option.bind (parse_digits acc xs) (\<lambda>a. map_option (\<lambda>d. 10 * a + d) (digit_value c))"
  by (induction xs arbitrary: acc) (auto split: option.split)

lemma parse_decimal: "parse_digits 0 (decimal n) = Some (int n)"
proof (induction n rule: decimal.induct)
  case (1 n)
  then show ?case
    by (subst decimal.simps) (auto simp: parse_digits_snoc digit_value_char, presburger)
qed

lemma decimal_start: "\<exists>d ds. decimal n = digit_char d # ds \<and> d < 10"
proof (induction n rule: decimal.induct)
  case (1 n)
  then show ?case by (subst decimal.simps) (auto, blast)
qed

text \<open>The port that is written into a URL is the one \<open>str::parse\<close> reads there.\<close>

theorem port_roundtrip: "parse_i64 (decimal (unat (p :: u16))) = Some (ucast p)"
proof -
  obtain d ds where s: "decimal (unat p) = digit_char d # ds" and d: "d < 10"
    using decimal_start [of "unat p"] by blast
  have sign: "digit_char d \<noteq> CHR ''-''" "digit_char d \<noteq> CHR ''+''"
    using digit_value_char [OF d] by (auto simp: digit_value_def)
  have m: "parse_digits 0 (digit_char d # ds) = Some (int (unat p))"
    using parse_decimal [of "unat p"] by (simp only: s)
  have "uint p < 2 ^ 63" using uint_lt2p [of p] by simp
  moreover have "- (2 ^ 63) \<le> uint p" by (rule order_trans [of _ 0]) simp_all
  ultimately show ?thesis
    unfolding parse_i64_def s using sign m by (simp add: Let_def word_of_int_uint)
qed

lemma decimal_inj: "decimal m = decimal n \<Longrightarrow> m = n"
  by (metis parse_decimal option.inject of_nat_eq_iff)

section \<open>Parameters\<close>

text \<open>
  The platform the server is started on: RocksDB's \<open>DB::open\<close>, which gives a handle, the
  clock, the transports of the HTTP clients, the ZMQ subscription and the listening socket.
\<close>

record 's rocks_handle =
  h_get :: "bytes \<Rightarrow> 's \<Rightarrow> (ext_error + bytes option) \<times> 's"
  h_put :: "bytes \<Rightarrow> bytes \<Rightarrow> 's \<Rightarrow> (ext_error + unit) \<times> 's"
  h_delete :: "bytes \<Rightarrow> 's \<Rightarrow> (ext_error + unit) \<times> 's"

record 's db_options =
  create_if_missing :: bool
  compaction_filter ::
    "(string \<times> ('s db_sys \<Rightarrow> u32 \<Rightarrow> bytes \<Rightarrow> bytes \<Rightarrow> ('s, compaction_decision, ext_error) io)) option"

record rpc_client =
  endpoint :: string
  rpc_user :: "string option"
  rpc_pass :: "string option"

record 's platform =
  db_open :: "'s db_options \<Rightarrow> string \<Rightarrow> 's \<Rightarrow> (ext_error + 's rocks_handle) \<times> 's"
  wall_clock :: "'s \<Rightarrow> int \<times> 's"
  rpc_builder :: "rpc_request \<Rightarrow> ext_error + rpc_request"
  rpc_transport :: "rpc_client \<Rightarrow> rpc_request \<Rightarrow> 's \<Rightarrow> (ext_error + rpc_response) \<times> 's"
  peer_transport :: "string \<Rightarrow> 's \<Rightarrow> (ext_error + (ext_error + bytes)) option \<times> 's"
  timer :: "u64 \<Rightarrow> 's \<Rightarrow> 's"
  zmq_bind :: "string \<Rightarrow> ext_error + (ext_error + bytes) list"
  tcp_bind :: "string \<Rightarrow> ext_error + unit"

section \<open>main\<close>

definition kdb_try_new ::
  "('pk, 'sig, 'msg, 'z) model_lib_scheme \<Rightarrow> 's platform \<Rightarrow> string \<Rightarrow>
     ('s, 's rocks_handle, ext_error) io" where
  "kdb_try_new L P path =
     (let opts = \<lparr>create_if_missing = True, compaction_filter = Some (''ttl'', ttl_filter L)\<rparr>
      in from_sum_io (db_open P opts path))"

definition bitcoin_client_new :: "string \<Rightarrow> string \<Rightarrow> string \<Rightarrow> rpc_client" where
  "bitcoin_client_new url username password =
     \<lparr>endpoint = url, rpc_user = Some username, rpc_pass = Some password\<rparr>"

text \<open>What the handlers and the polling task act on, once the database and the clients exist.\<close>

definition connect :: "'s platform \<Rightarrow> 's rocks_handle \<Rightarrow> rpc_client \<Rightarrow> 's net_sys" where
  "connect P key_db client =
     \<lparr>rocks_get = h_get key_db, rocks_put = h_put key_db, rocks_delete = h_delete key_db,
      sys_now = wall_clock P, rpc_finish = rpc_builder P, rpc_send = rpc_transport P client,
      peer_send = peer_transport P, sleep_secs = timer P\<rparr>"

record 's running =
  run_settings :: settings
  run_net :: "'s net_sys"
  run_stream :: "(stream_error + string \<times> address) list"
  run_wallet :: wallet_state

definition expect_io :: "('s, 'a, 'e) io \<Rightarrow> ('s, 'a, 'f) io" where
  "expect_io m = (\<lambda>s. case m s of (r, t) \<Rightarrow> (unwrap r, t))"

definition boot ::
  "('pk, 'sig, 'msg, 'z) pay_lib_scheme \<Rightarrow> 'c cfg_lib \<Rightarrow> cli \<Rightarrow> 's platform \<Rightarrow>
     ('s, 's running, ext_error) io" where
  "boot L C args P =
     try_then (lift (unwrap (settings_new C args))) (\<lambda>S.
     try_then (expect_io (kdb_try_new L P (db_path S))) (\<lambda>key_db.
     let wallet_state = default_wallet;
         client = bitcoin_client_new (node_url ''http'' (node_ip S) (rpc_port S))
           (rpc_username S) (rpc_password S) in
     try_then (lift (unwrap (from_sum (get_tx_stream (zmq_bind P) (tx_deserialize L)
         (node_url ''tcp'' (node_ip S) (zmq_port S)))))) (\<lambda>tx_stream.
     let key_stream = extract_details S (addr_default L) tx_stream in
     try_then (lift (from_sum (tcp_bind P (bind_addr S)))) (\<lambda>_.
     lift (Ok \<lparr>run_settings = S, run_net = connect P key_db client, run_stream = key_stream,
               run_wallet = wallet_state\<rparr>)))))"

lemma connect_sel [simp]:
  "rocks_get (connect P h c) = h_get h" "rocks_put (connect P h c) = h_put h"
  "rocks_delete (connect P h c) = h_delete h" "sys_now (connect P h c) = wall_clock P"
  "rpc_finish (connect P h c) = rpc_builder P" "rpc_send (connect P h c) = rpc_transport P c"
  "peer_send (connect P h c) = peer_transport P" "sleep_secs (connect P h c) = timer P"
  by (simp_all add: connect_def)

section \<open>Starting\<close>

lemma expect_io_eq_Ok [simp]: "expect_io m s = (Ok a, t) \<longleftrightarrow> m s = (Ok a, t)"
  by (auto simp: expect_io_def split: prod.splits)

lemma expect_io_neq_Err [simp]: "expect_io m s \<noteq> (Err e, t)"
  by (auto simp: expect_io_def split: prod.splits)

text \<open>
  What a started server is: the settings, the opened database, the node the settings name,
  and the announcements of the subscription, with no address waiting for a payment.
\<close>

lemma boot_Ok:
  assumes "boot L C args P w = (Ok R, w1)"
  obtains S h opts stream where "settings_new C args = Ok S" and "run_settings R = S"
    and "db_open P opts (db_path S) w = (Inr h, w1)" and "create_if_missing opts"
    and "run_net R = connect P h \<lparr>endpoint = node_url ''http'' (node_ip S) (rpc_port S),
        rpc_user = Some (rpc_username S), rpc_pass = Some (rpc_password S)\<rparr>"
    and "get_tx_stream (zmq_bind P) (tx_deserialize L) (node_url ''tcp'' (node_ip S) (zmq_port S)) = Inr stream"
    and "run_stream R = extract_details S (addr_default L) stream"
    and "tcp_bind P (bind_addr S) = Inr ()" and "run_wallet R = {}"
  using assms
  by (auto simp: boot_def io_eqs kdb_try_new_def bitcoin_client_new_def default_wallet_def Let_def)

text \<open>
  Starting ends in one of three ways. Without settings, database or
  subscription the process panics; the only error \<open>main\<close> returns is that of the listening
  socket, after everything else succeeded.
\<close>

theorem boot_outcome:
  "case boot L C args P w of
     (Ok R, w1) \<Rightarrow>
       \<exists>S. settings_new C args = Ok S \<and> run_settings R = S \<and> run_wallet R = {} \<and>
         tcp_bind P (bind_addr S) = Inr ()
   | (Err e, w1) \<Rightarrow>
       \<exists>S h. settings_new C args = Ok S \<and> kdb_try_new L P (db_path S) w = (Ok h, w1) \<and>
         tcp_bind P (bind_addr S) = Inl e
   | (Panic, w1) \<Rightarrow>
       (\<forall>S. settings_new C args \<noteq> Ok S) \<or>
       (\<exists>S. settings_new C args = Ok S \<and>
          ((\<forall>h. fst (kdb_try_new L P (db_path S) w) \<noteq> Ok h) \<or>
           isl (zmq_bind P (node_url ''tcp'' (node_ip S) (zmq_port S)))))"
proof (cases "\<exists>S. settings_new C args = Ok S")
  case False
  then have "boot L C args P w = (Panic, w)"
    by (cases "settings_new C args") (simp_all add: boot_def)
  with False show ?thesis by simp
next
  case True
  then obtain S where S: "settings_new C args = Ok S" by blast
  obtain q t where q: "kdb_try_new L P (db_path S) w = (q, t)" by fastforce
  show ?thesis
  proof (cases "\<exists>h. q = Ok h")
    case False
    with S q have "boot L C args P w = (Panic, t)"
      by (cases q) (simp_all add: boot_def try_then_def expect_io_def Let_def)
    with S q False show ?thesis by auto
  next
    case True
    then obtain h where h: "q = Ok h" by blast
    note run = boot_def S q h try_then_def expect_io_def get_tx_stream_def Let_def
    show ?thesis
      by (cases "zmq_bind P (node_url ''tcp'' (node_ip S) (zmq_port S))"; cases "tcp_bind P (bind_addr S)")
         (simp_all add: run default_wallet_def)
  qed
qed

section \<open>The database across restarts\<close>

text \<open>
  One life of the process: it starts over the world the last one left, and, if it comes up,
  serves requests, polls peers and compacts until it stops. \<open>path\<close> is where the database is.
\<close>

inductive life ::
  "('pk, 'sig, 'msg, 'z) pay_lib_scheme \<Rightarrow> 'c cfg_lib \<Rightarrow> 's platform \<Rightarrow> 's web \<Rightarrow> 's view \<Rightarrow>
     string \<Rightarrow> 's \<Rightarrow> 's \<Rightarrow> bool"
  for L C P W view path where
  served: "boot L C args P w = (Ok R, w1) \<Longrightarrow> db_path (run_settings R) = path \<Longrightarrow>
    (server_step L (run_net R) (run_settings R) W view)\<^sup>*\<^sup>* \<lparr>wallet = run_wallet R, world = w1\<rparr> st \<Longrightarrow>
    life L C P W view path w (world st)"
| failed: "boot L C args P w = (r, w1) \<Longrightarrow> (\<And>R. r \<noteq> Ok R) \<Longrightarrow>
    (\<And>S. settings_new C args = Ok S \<Longrightarrow> db_path S = path) \<Longrightarrow>
    life L C P W view path w w1"

inductive_cases lifeE: "life L C P W view path w w'"

text \<open>
  Documented behaviour of the crates, on which the start relies: opening the database keeps
  what is stored, its handle reads, writes and deletes it, and the network and the timer have
  no access to it.
\<close>

definition platform_ok :: "'s platform \<Rightarrow> string \<Rightarrow> 's view \<Rightarrow> bool" where
  "platform_ok P path view \<longleftrightarrow>
     (\<forall>opts w r w1. db_open P opts path w = (r, w1) \<longrightarrow>
        view w1 = view w \<and> (\<forall>h c. r = Inr h \<longrightarrow> rocks_ok (connect P h c) view)) \<and>
     (\<forall>h c. net_isolated (connect P h c) view)"

lemma platform_okD:
  assumes "platform_ok P path view"
  shows "db_open P opts path w = (r, w1) \<Longrightarrow> view w1 = view w"
    and "db_open P opts path w = (Inr h, w1) \<Longrightarrow> rocks_ok (connect P h c) view"
    and "net_isolated (connect P h c) view"
  using assms unfolding platform_ok_def by blast+

text \<open>What every life keeps: the parameters and the stored values, whatever handle reads them.\<close>

definition lasting ::
  "('pk, 'sig, 'msg, 'z) pay_lib_scheme \<Rightarrow> 's view \<Rightarrow> 's \<Rightarrow> bool" where
  "lasting L view w \<longleftrightarrow> md_roundtrip L \<and> kdb_inv L view w"

lemma lasting_view: "view w1 = view w \<Longrightarrow> lasting L view w \<Longrightarrow> lasting L view w1"
  by (simp add: lasting_def kdb_inv_def)

lemma lasting_lookup: "lasting L view w \<Longrightarrow> kdb_lookup L view w k = Some md \<Longrightarrow> authentic L k md"
  using stored_okD by (fastforce simp: lasting_def admissible_def kdb_lookup_Some)

lemma boot_opened:
  assumes P: "platform_ok P path view" and up: "boot L C args P w = (Ok R, w1)"
    and path: "db_path (run_settings R) = path"
  obtains h c where "run_net R = connect P h c" and "rocks_ok (run_net R) view"
    and "net_isolated (run_net R) view" and "view w1 = view w" and "run_wallet R = {}"
proof -
  from boot_Ok [OF up] path obtain h c opts where net: "run_net R = connect P h c"
    and op: "db_open P opts path w = (Inr h, w1)" and wallet: "run_wallet R = {}" by metis
  from that [OF net] platform_okD(1) [OF P op] platform_okD(2) [OF P op] platform_okD(3) [OF P] net wallet
  show thesis by metis
qed

lemma life_lasting:
  assumes P: "platform_ok P path view" and web: "web_isolated W view"
    and life: "life L C P W view path w w'" and good: "lasting L view w"
  shows "lasting L view w'"
  using life
proof cases
  case (served args R w1 st)
  from boot_opened [OF P served(2,3)] obtain h c where ok: "rocks_ok (run_net R) view"
    and iso: "net_isolated (run_net R) view" and v: "view w1 = view w" by metis
  have "server_inv L (run_net R) W view \<lparr>wallet = run_wallet R, world = w1\<rparr>"
    using lasting_view [OF v good] ok iso web by (simp add: server_inv_def kdb_ready_def lasting_def)
  from server.run_inv [OF served(4) this] served(1) show ?thesis
    by (simp add: server_inv_def kdb_ready_def lasting_def)
next
  case (failed args r)
  show ?thesis
  proof (cases "\<exists>S. settings_new C args = Ok S")
    case True
    then obtain S q t where S: "settings_new C args = Ok S"
      and q: "kdb_try_new L P path w = (q, t)" by (metis prod.collapse)
    with failed have "w' = t"
      by (auto simp: boot_def try_then_def expect_io_def Let_def split: prod.splits result.splits)
    moreover have "view t = view w"
      using q platform_okD(1) [OF P]
      by (auto simp: kdb_try_new_def from_sum_io_def Let_def split: prod.splits)
    ultimately show ?thesis using lasting_view [OF _ good] by simp
  next
    case False
    with failed have "w' = w" by (cases "settings_new C args") (simp_all add: boot_def)
    with good show ?thesis by simp
  qed
qed

interpretation lives: safe_steps "life L C P W view path"
  "\<lambda>w. platform_ok P path view \<and> web_isolated W view \<and> lasting L view w" for L C P W view path
proof unfold_locales
  fix w w'
  assume "platform_ok P path view \<and> web_isolated W view \<and> lasting L view w"
    and "life L C P W view path w w'"
  with life_lasting [of P path view W L C w w'] show
    "platform_ok P path view \<and> web_isolated W view \<and> lasting L view w'" by simp
qed

text \<open>
  As long as nobody asked for an invoice the wallet stays as empty as it started, so no
  payment has been acknowledged and none will be.
\<close>

lemma unasked_wallet:
  assumes "history L X S W st0 h st" and web: "web_walletless W" and "wallet st0 = {}" and "asked W h = 0"
  shows "wallet st = {} \<and> acknowledged W h = 0"
  using assms(1,3,4)
proof (induction h st rule: history.induct)
  case (answered h st rq r st')
  then have none: "wallet st = {}" "acknowledged W h = 0" "\<not> asks_invoice W rq"
    by (auto split: if_splits)
  from app_wallet [OF web answered.hyps(2)] none show ?case by (auto split: if_splits)
qed simp_all

lemma empty_wallet_pays_nothing:
  assumes "wallet st = {}"
  shows "fst (payment_handler L X S rq st) \<noteq> Ok rs"
proof
  assume "fst (payment_handler L X S rq st) = Ok rs"
  then obtain st' where "payment_handler L X S rq st = (Ok rs, st')" by (metis prod.collapse)
  from payment_handler_Ok [OF this] assms show False by auto
qed

text \<open>
  C12: what a restart keeps and what it forgets. However often the server was started, served
  and stopped over an empty database, everything stored is authentic for its key; a server
  that comes up again has all of it, and nothing of the wallet: whatever it answers, polls and
  compacts from then on, as long as no upload has asked it for an invoice it has acknowledged
  no payment and refuses the next one, whoever was asked to pay before the restart.
\<close>

theorem restart:
  assumes lives: "(life L C P W view path)\<^sup>*\<^sup>* w0 w" and empty: "view w0 = Map.empty"
    and params: "platform_ok P path view" "web_isolated W view" "web_walletless W" "md_roundtrip L"
    and up: "boot L C args P w = (Ok R, w1)" and path: "db_path (run_settings R) = path"
  shows "(\<forall>k md. kdb_lookup L view w1 k = Some md \<longrightarrow> authentic L k md) \<and>
    kdb_lookup L view w1 = kdb_lookup L view w \<and>
    kdb_ready L (run_net R) view w1 \<and>
    (\<forall>h st. history L (run_net R) (run_settings R) W \<lparr>wallet = run_wallet R, world = w1\<rparr> h st \<longrightarrow>
       asked W h = 0 \<longrightarrow> acknowledged W h = 0 \<and>
       (\<forall>rq rs. fst (payment_handler L (run_net R) (run_settings R) rq st) \<noteq> Ok rs))"
proof -
  have "lasting L view w0" using empty params by (simp add: lasting_def kdb_inv_def)
  with lives.run_inv [OF lives] params have good: "lasting L view w" by blast
  from boot_opened [OF params(1) up path] obtain h c where ok: "rocks_ok (run_net R) view"
    and v: "view w1 = view w" and wallet: "run_wallet R = {}" by metis
  have same: "kdb_lookup L view w1 = kdb_lookup L view w" by (rule kdb_lookup_cong [OF v])
  have "acknowledged W h = 0 \<and> (\<forall>rq rs. fst (payment_handler L (run_net R) (run_settings R) rq st) \<noteq> Ok rs)"
    if "history L (run_net R) (run_settings R) W \<lparr>wallet = run_wallet R, world = w1\<rparr> h st" "asked W h = 0" for h st
  proof -
    have none: "wallet st = {}" and "acknowledged W h = 0"
      using unasked_wallet [OF that(1) params(3) _ that(2)] wallet by simp_all
    with empty_wallet_pays_nothing [OF none] show ?thesis by blast
  qed
  moreover have "kdb_ready L (run_net R) view w1"
    using ok lasting_view [OF v good] by (simp add: kdb_ready_def lasting_def)
  ultimately show ?thesis using lasting_lookup [OF good] same by simp
qed

end
