(* ===== verification/Concurrency.thy ===== *)
theory Concurrency
  imports Ledger Scheduling
begin

text \<open>
  The whole server under concurrency. Requests of any kind and the polling task run at the
  same time over one wallet, one database and one node; what is atomic is a single RocksDB
  call, a critical section of the wallet's lock, a call of the node or of a peer, and reading
  the clock. A request is an \<open>activity\<close>, the place where its handler stands between two of
  these actions; \<open>advance\<close> makes its next action. The handlers are those of
  \<open>src/src/net/mod.rs\<close>, \<open>src/src/net/payments.rs\<close> and \<open>src/src/net/peer.rs\<close>, and an activity that
  runs without interference ends exactly as the application of \<open>Server\<close> does.
\<close>

section \<open>Activities\<close>

datatype activity =
    Fresh request
  | Timing request
  | Fetching request int address
  | Issuing request int address bytes
  | Replying request int address bytes
  | Keying job thread
  | Checking payment_msg bytes "txout list"
  | Claiming payment_msg bytes bytes
  | Sending payment_msg bytes
  | Refusing request
  | Filing request
  | Answered "(response, server_error) result"

fun branch :: "('a \<Rightarrow> activity) \<Rightarrow> ('a, server_error) result \<Rightarrow> activity" where
  "branch f (Ok a) = f a"
| "branch f (Err e) = Answered (Err e)"
| "branch f Panic = Answered Panic"

definition via ::
  "('a \<Rightarrow> activity) \<Rightarrow> ('s, 'a, server_error) io \<Rightarrow> 's \<Rightarrow> activity \<times> 's" where
  "via f m st = (case m st of (r, st') \<Rightarrow> (branch f r, st'))"

section \<open>The first steps of a request\<close>

text \<open>
  What the middleware makes of an \<open>Authorization\<close> header: an answer of its own, or nothing,
  and the request goes on to the key handler.
\<close>

definition vet_token ::
  "('pk, 'sig, 'msg, 'z) pay_lib_scheme \<Rightarrow> settings \<Rightarrow> request \<Rightarrow> string \<Rightarrow>
     (response, server_error) result option" where
  "vet_token L S rq token_str =
     (case b64_decode L token_str of
        Inl _ \<Rightarrow> Some (Ok (server_response (Payment InvalidAuth)))
      | Inr token \<Rightarrow>
          if \<not> validate_token L (as_bytes (merchant_url_of rq)) (as_bytes (secret S)) token
          then Some (Ok (server_response (Payment InvalidAuth)))
          else None)"

definition vet ::
  "('pk, 'sig, 'msg, 'z) pay_lib_scheme \<Rightarrow> settings \<Rightarrow> request \<Rightarrow> bytes \<Rightarrow>
     (response, server_error) result option" where
  "vet L S rq hv =
     (case hdr_to_str L hv of
        Inl _ \<Rightarrow> Some (Err (Payment InvalidAuth))
      | Inr auth_str \<Rightarrow>
          (case pop_token auth_str of
             Err e \<Rightarrow> Some (Err e)
           | Panic \<Rightarrow> Some Panic
           | Ok token_str \<Rightarrow> vet_token L S rq token_str))"

definition key_begin :: "('pk, 'sig, 'msg, 'z) pay_lib_scheme \<Rightarrow> request \<Rightarrow> activity" where
  "key_begin L rq =
     (case rq_method rq of
        GET \<Rightarrow> branch (\<lambda>addr. Keying (Get addr) Begin)
          (map_err from_address_errors (from_sum (addr_decode L (rq_addr rq))))
      | PUT \<Rightarrow> branch (\<lambda>(addr, md, p). Keying (Put addr md p) Begin) (screen_put L rq)
      | _ \<Rightarrow> Refusing rq)"

definition request_begin ::
  "('pk, 'sig, 'msg, 'z) pay_lib_scheme \<Rightarrow> settings \<Rightarrow> 's web \<Rightarrow> request \<Rightarrow> activity" where
  "request_begin L S W rq =
     (case route W rq of
        KeyResource \<Rightarrow>
          if rq_method rq \<noteq> PUT then key_begin L rq
          else (case rq_header rq ''authorization'' of
              None \<Rightarrow> Timing rq
            | Some hv \<Rightarrow> (case vet L S rq hv of None \<Rightarrow> key_begin L rq | Some r \<Rightarrow> Answered r))
      | PaymentResource \<Rightarrow>
          if rq_method rq = POST
          then branch (\<lambda>(payment, tx_raw, tx). Checking payment tx_raw (tx_outputs tx)) (screen_payment L rq)
          else Refusing rq
      | Elsewhere \<Rightarrow> Filing rq)"

section \<open>The actions\<close>

definition put_target :: "('pk, 'sig, 'msg, 'z) pay_lib_scheme \<Rightarrow> request \<Rightarrow> (address, server_error) result" where
  "put_target L rq =
     and_then (str_from (rq_path rq) 6) (\<lambda>put_addr_str.
     map_err (\<lambda>(cash_err, base58_err). Address cash_err base58_err) (from_sum (addr_decode L put_addr_str)))"

definition node_address ::
  "('pk, 'sig, 'msg, 'z) pay_lib_scheme \<Rightarrow> ('s, 'x) net_sys_scheme \<Rightarrow> settings \<Rightarrow>
     ('s server, bytes, server_error) io" where
  "node_address L X S =
     try_then (map_err_io (\<lambda>_. Payment AddrFetchFailed) (on_world (get_new_addr X))) (\<lambda>addr_str.
     try_then (lift (map_err (\<lambda>(cash_err, base58_err). Address cash_err base58_err)
                 (from_sum (addr_decode L addr_str)))) (\<lambda>addr.
     if from_bch_network (addr_network addr) \<noteq> s_network S \<or> hash_type addr \<noteq> Key
     then lift (Err (Payment MismatchedNetwork))
     else lift (Ok (body addr))))"

definition invoice_for ::
  "('pk, 'sig, 'msg, 'z) pay_lib_scheme \<Rightarrow> settings \<Rightarrow> request \<Rightarrow> int \<Rightarrow> address \<Rightarrow> bytes \<Rightarrow>
     (response, server_error) result" where
  "invoice_for L S rq now put_addr h =
     and_then (generate_outputs (overflow_checks L) h (rq_scheme rq @ ''://'' @ rq_host rq) (body put_addr))
       (\<lambda>outs. invoice_response L S (rq_scheme rq @ ''://'' @ rq_host rq) (merchant_url_of rq)
          now (now + uint VALID_DURATION) outs)"

fun db_next ::
  "('pk, 'sig, 'msg, 'z) model_lib_scheme \<Rightarrow> ('s, 'x) db_sys_scheme \<Rightarrow> job \<Rightarrow> thread \<Rightarrow> 's \<Rightarrow> thread \<times> 's" where
  "db_next L X j Begin d = look L X j d"
| "db_next L X j Stale d = drop_stale X j d"
| "db_next L X (Put addr md p) Passed d = commit L X addr md d"
| "db_next L X (Get addr) Passed d = (Over (Err NotFound), d)"
| "db_next L X j (Over r) d = (Over r, d)"

fun key_next :: "job \<Rightarrow> thread \<Rightarrow> activity" where
  "key_next j (Over r) = Answered r"
| "key_next j th = Keying j th"

definition forget :: "bytes \<Rightarrow> ('s server, unit, 'e) io" where
  "forget h = (\<lambda>st. (Ok (), st\<lparr>wallet := wallet_remove (wallet st) h\<rparr>))"

definition broadcast ::
  "('pk, 'sig, 'msg, 'z) pay_lib_scheme \<Rightarrow> ('s, 'x) net_sys_scheme \<Rightarrow> bytes \<Rightarrow>
     ('s server, string, server_error) io" where
  "broadcast L X tx_raw = map_err_io (\<lambda>_. Payment InvalidTx) (on_world (send_tx (hex_encode L) X tx_raw))"

text \<open>
  \<open>check_outputs\<close> looks at one output under the read lock; the write lock that removes the address
  is taken in an action of its own.
\<close>

fun check_next :: "wallet_state \<Rightarrow> payment_msg \<Rightarrow> bytes \<Rightarrow> txout list \<Rightarrow> activity" where
  "check_next w payment tx_raw [] = Answered (Err (Payment InvalidOutputs))"
| "check_next w payment tx_raw (out # outs) =
     (case output_hash out of
        None \<Rightarrow> Checking payment tx_raw outs
      | Some h \<Rightarrow> if h \<in> w then Claiming payment tx_raw h else Checking payment tx_raw outs)"

fun advance ::
  "('pk, 'sig, 'msg, 'z) pay_lib_scheme \<Rightarrow> ('s, 'x) net_sys_scheme \<Rightarrow> settings \<Rightarrow> 's web \<Rightarrow>
     activity \<Rightarrow> 's server \<Rightarrow> activity \<times> 's server" where
  "advance L X S W (Fresh rq) st = (request_begin L S W rq, st)"
| "advance L X S W (Timing rq) st =
     via (\<lambda>now. branch (Fetching rq now) (put_target L rq)) (on_world (read_clock X)) st"
| "advance L X S W (Fetching rq now put_addr) st = via (Issuing rq now put_addr) (node_address L X S) st"
| "advance L X S W (Issuing rq now put_addr h) st =
     via (\<lambda>_. Replying rq now put_addr h) (add_to_wallet h) st"
| "advance L X S W (Replying rq now put_addr h) st = (Answered (invoice_for L S rq now put_addr h), st)"
| "advance L X S W (Keying j th) st =
     (case db_next L X j th (world st) of (th', w) \<Rightarrow> (key_next j th', st\<lparr>world := w\<rparr>))"
| "advance L X S W (Checking payment tx_raw outs) st = (check_next (wallet st) payment tx_raw outs, st)"
| "advance L X S W (Claiming payment tx_raw h) st = via (\<lambda>_. Sending payment tx_raw) (forget h) st"
| "advance L X S W (Sending payment tx_raw) st =
     via (\<lambda>_. Answered (receipt L S payment)) (broadcast L X tx_raw) st"
| "advance L X S W (Refusing rq) st = via (\<lambda>rs. Answered (Ok rs)) (no_method W rq) st"
| "advance L X S W (Filing rq) st = via (\<lambda>rs. Answered (Ok rs)) (elsewhere W rq) st"
| "advance L X S W (Answered r) st = (Answered r, st)"

section \<open>The polling task\<close>

datatype polling =
    Waiting "(stream_error + string \<times> address) list"
  | Asking string address string "(stream_error + string \<times> address) list"
  | Storing address address_metadata payload thread "(stream_error + string \<times> address) list"
  | Halted

text \<open>\<open>Halted\<close>: the task panicked, or waits for a peer that never answers.\<close>

definition pull_begin ::
  "('pk, 'sig, 'msg, 'z) pay_lib_scheme \<Rightarrow> address \<Rightarrow> bytes \<Rightarrow>
     (stream_error + string \<times> address) list \<Rightarrow> polling" where
  "pull_begin L addr raw items =
     (case md_decode L raw of
        Inl _ \<Rightarrow> Waiting items
      | Inr md \<Rightarrow>
          if isl (md_encode L md) then Halted
          else (case validate L (secp256k1 L) addr md of
              Err _ \<Rightarrow> Waiting items
            | Panic \<Rightarrow> Halted
            | Ok _ \<Rightarrow>
                (case payload_decode L (serialized_payload md) of
                   Inl _ \<Rightarrow> Waiting items
                 | Inr p \<Rightarrow> Storing addr md p Begin items)))"

fun store_next ::
  "address \<Rightarrow> address_metadata \<Rightarrow> payload \<Rightarrow> thread \<Rightarrow> (stream_error + string \<times> address) list \<Rightarrow> polling" where
  "store_next addr md p (Over r) items = (if is_panic r then Halted else Waiting items)"
| "store_next addr md p th items = Storing addr md p th items"

fun poll_advance ::
  "('pk, 'sig, 'msg, 'z) pay_lib_scheme \<Rightarrow> ('s, 'x) net_sys_scheme \<Rightarrow> polling \<Rightarrow> 's \<Rightarrow> polling \<times> 's" where
  "poll_advance L X (Waiting []) w = (Waiting [], w)"
| "poll_advance L X (Waiting (Inl e # items)) w = (Waiting items, w)"
| "poll_advance L X (Waiting (Inr (peer, addr) # items)) w =
     (case addr_encode L addr of
        Inl _ \<Rightarrow> (Waiting items, w)
      | Inr str \<Rightarrow> (Asking peer addr str items, sleep_secs X VALID_DURATION w))"
| "poll_advance L X (Asking peer addr str items) w =
     (case get_metadata L X peer str w of
        (Ok raw, w') \<Rightarrow> (pull_begin L addr raw items, w')
      | (Err e, w') \<Rightarrow> (Waiting items, w')
      | (Panic, w') \<Rightarrow> (Halted, w'))"
| "poll_advance L X (Storing addr md p th items) w =
     (case db_next L X (Put addr md p) th w of (th', w') \<Rightarrow> (store_next addr md p th' items, w'))"
| "poll_advance L X Halted w = (Halted, w)"

section \<open>The server\<close>

record 's site =
  shop :: "'s server"
  acts :: "nat \<Rightarrow> activity"
  poller :: polling

inductive site_step ::
  "('pk, 'sig, 'msg, 'z) pay_lib_scheme \<Rightarrow> ('s, 'x) net_sys_scheme \<Rightarrow> settings \<Rightarrow> 's web \<Rightarrow> 's view \<Rightarrow>
     's site \<Rightarrow> 's site \<Rightarrow> bool"
  for L X S W view where
  request: "\<nexists>r. acts s i = Answered r \<Longrightarrow> advance L X S W (acts s i) (shop s) = (a, st) \<Longrightarrow>
    site_step L X S W view s (s\<lparr>shop := st, acts := (acts s)(i := a)\<rparr>)"
| poll: "poll_advance L X (poller s) (world (shop s)) = (p, w) \<Longrightarrow>
    site_step L X S W view s (s\<lparr>shop := (shop s)\<lparr>world := w\<rparr>, poller := p\<rparr>)"
| compaction: "view (world (shop s)) k = Some v \<Longrightarrow>
    ttl_filter L X level k v (world (shop s)) = (Ok Remove, w0) \<Longrightarrow>
    view w = (view (world (shop s)))(k := None) \<Longrightarrow>
    site_step L X S W view s (s\<lparr>shop := (shop s)\<lparr>world := w\<rparr>\<rparr>)"
| idle: "view w = view (world (shop s)) \<Longrightarrow>
    site_step L X S W view s (s\<lparr>shop := (shop s)\<lparr>world := w\<rparr>\<rparr>)"

inductive_cases site_stepE: "site_step L X S W view s t"

section \<open>What is left of a request\<close>

text \<open>\<open>remaining\<close> is the rest of a request as one uninterrupted computation.\<close>

definition claim_outs :: "txout list \<Rightarrow> ('s server, bool, 'e) io" where
  "claim_outs outs = (\<lambda>st. case any_output (wallet st) outs of (ok, w) \<Rightarrow> (Ok ok, st\<lparr>wallet := w\<rparr>))"

definition confirm ::
  "('pk, 'sig, 'msg, 'z) pay_lib_scheme \<Rightarrow> ('s, 'x) net_sys_scheme \<Rightarrow> settings \<Rightarrow> payment_msg \<Rightarrow> bytes \<Rightarrow>
     ('s server, response, server_error) io" where
  "confirm L X S payment tx_raw = try_then (broadcast L X tx_raw) (\<lambda>_. lift (receipt L S payment))"

fun remaining ::
  "('pk, 'sig, 'msg, 'z) pay_lib_scheme \<Rightarrow> ('s, 'x) net_sys_scheme \<Rightarrow> settings \<Rightarrow> 's web \<Rightarrow>
     activity \<Rightarrow> ('s server, response, server_error) io" where
  "remaining L X S W (Fresh rq) = app L X S W rq"
| "remaining L X S W (Timing rq) = issue_invoice L X S rq"
| "remaining L X S W (Fetching rq now put_addr) =
     try_then (fetch_address L X S) (\<lambda>h. lift (invoice_for L S rq now put_addr h))"
| "remaining L X S W (Issuing rq now put_addr h) =
     try_then (add_to_wallet h) (\<lambda>_. lift (invoice_for L S rq now put_addr h))"
| "remaining L X S W (Replying rq now put_addr h) = lift (invoice_for L S rq now put_addr h)"
| "remaining L X S W (Keying j th) = on_world (rest L X j th)"
| "remaining L X S W (Checking payment tx_raw outs) =
     try_then (claim_outs outs) (\<lambda>paid.
     if \<not> paid then lift (Err (Payment InvalidOutputs)) else confirm L X S payment tx_raw)"
| "remaining L X S W (Claiming payment tx_raw h) =
     try_then (forget h) (\<lambda>_. confirm L X S payment tx_raw)"
| "remaining L X S W (Sending payment tx_raw) = confirm L X S payment tx_raw"
| "remaining L X S W (Refusing rq) = no_method W rq"
| "remaining L X S W (Filing rq) = elsewhere W rq"
| "remaining L X S W (Answered r) = lift r"

lemma remaining_branch:
  "remaining L X S W (branch f r) = try_then (lift r) (\<lambda>a. remaining L X S W (f a))"
  by (cases r) simp_all

lemma via_remaining:
  assumes "via f m st = (a', st')"
  shows "try_then m (\<lambda>a. remaining L X S W (f a)) st = remaining L X S W a' st'"
proof -
  obtain r t where m: "m st = (r, t)" by fastforce
  with assms have "a' = branch f r" and "st' = t" by (simp_all add: via_def)
  with m show ?thesis by (cases r) (simp_all add: try_then_def)
qed

lemma try_then_Ok: "try_then m (\<lambda>a. lift (Ok a)) = m"
  by (auto simp: try_then_def fun_eq_iff split: prod.splits result.splits)

text \<open>The handlers, cut where the activities cut them.\<close>

lemma check_payment_vet:
  assumes "rq_method rq = PUT" and "rq_header rq ''authorization'' = Some hv"
  shows "check_payment L X S service rq = (case vet L S rq hv of None \<Rightarrow> service rq | Some r \<Rightarrow> lift r)"
proof (cases "hdr_to_str L hv")
  case (Inr auth)
  with assms show ?thesis
    by (cases "pop_token auth")
       (auto simp: check_payment_def vet_def vet_token_def check_token_def merchant_url_of_def Let_def split: sum.split)
qed (use assms in \<open>simp add: check_payment_def vet_def\<close>)

lemma on_world_lift_then: "on_world (try_then (lift r) f) = try_then (lift r) (\<lambda>a. on_world (f a))"
  by (cases r) (simp_all add: on_world_def)

lemma key_begin_remaining: "remaining L X S W (key_begin L rq) = key_resource L X W rq"
proof (cases "rq_method rq")
  case GET
  have "on_world (get_key L X rq) = remaining L X S W (key_begin L rq)"
    unfolding get_key_handler on_world_lift_then by (simp add: key_begin_def GET remaining_branch)
  with GET show ?thesis by (simp add: key_resource_def)
next
  case PUT
  have "on_world (put_key L X rq) = remaining L X S W (key_begin L rq)"
    unfolding put_key_split on_world_lift_then
    by (simp add: key_begin_def PUT remaining_branch case_prod_unfold)
  with PUT show ?thesis by (simp add: key_resource_def)
qed (simp_all add: key_begin_def key_resource_def)

lemma claim_payment_outs: "claim_payment tx = claim_outs (tx_outputs tx)"
  by (simp add: claim_payment_def claim_outs_def check_outputs_def)

lemma settle_remaining:
  "settle L X S payment tx_raw tx = remaining L X S W (Checking payment tx_raw (tx_outputs tx))"
  by (simp add: settle_def confirm_def broadcast_def claim_payment_outs cong: if_cong)

lemma request_begin_remaining: "remaining L X S W (request_begin L S W rq) = app L X S W rq"
proof (cases "route W rq")
  case KeyResource
  show ?thesis
  proof (cases "rq_method rq = PUT")
    case True
    show ?thesis
    proof (cases "rq_header rq ''authorization''")
      case None
      with True KeyResource show ?thesis by (simp add: request_begin_def app_def check_payment_def)
    next
      case (Some hv)
      with True KeyResource show ?thesis
        by (simp add: request_begin_def app_def check_payment_vet [OF True Some] key_begin_remaining
            split: option.split)
    qed
  next
    case False
    with KeyResource show ?thesis
      by (simp add: request_begin_def app_def check_payment_def key_begin_remaining)
  qed
next
  case PaymentResource
  then show ?thesis
    by (simp add: request_begin_def app_def payment_resource_def remaining_branch payment_handler_split
        settle_remaining [where W = W] case_prod_unfold)
next
  case Elsewhere
  then show ?thesis by (simp add: request_begin_def app_def)
qed

lemma fetch_address_split:
  "fetch_address L X S = try_then (node_address L X S) (\<lambda>h. try_then (add_to_wallet h) (\<lambda>_. lift (Ok h)))"
  unfolding fetch_address_def node_address_def try_then_assoc
  by (intro try_then_cong) (simp add: Let_def)

lemma issue_invoice_split:
  "issue_invoice L X S rq = try_then (on_world (read_clock X)) (\<lambda>now.
     try_then (lift (put_target L rq)) (\<lambda>put_addr.
     try_then (fetch_address L X S) (\<lambda>h. lift (invoice_for L S rq now put_addr h))))"
  unfolding issue_invoice_def Let_def put_target_def try_then_lift_and_then
  by (simp add: invoice_for_def lift_and_then merchant_url_of_def)

lemma db_next_rest: "db_next L X j th d = (th', d') \<Longrightarrow> rest L X j th d = rest L X j th' d'"
proof (cases th)
  case Begin
  assume "db_next L X j th d = (th', d')"
  with Begin show ?thesis using look_rest by simp
next
  case Stale
  assume "db_next L X j th d = (th', d')"
  with Stale show ?thesis using drop_rest [of X j d th' d' L] by simp
next
  case Passed
  assume run: "db_next L X j th d = (th', d')"
  show ?thesis
  proof (cases j)
    case (Put addr md p)
    with run Passed have "commit L X addr md d = (th', d')" by simp
    from commit_rest_done [OF this] Put Passed show ?thesis by simp
  qed (use run Passed in auto)
qed simp

lemma key_next_remaining: "remaining L X S W (key_next j th) = on_world (rest L X j th)"
  by (cases th) (simp_all add: on_world_def fun_eq_iff)

lemma claim_outs_Cons:
  "claim_outs (out # outs) st =
     (case output_hash out of
        None \<Rightarrow> claim_outs outs st
      | Some h \<Rightarrow> if h \<in> wallet st then try_then (forget h) (\<lambda>_. lift (Ok True)) st else claim_outs outs st)"
  by (auto simp: claim_outs_def output_hash_def check_p2pkh_def forget_def try_then_def
      split: option.splits)

text \<open>Every action of a request keeps what the request, left alone, comes to.\<close>

lemma advance_remaining:
  assumes "advance L X S W a st = (a', st')"
  shows "remaining L X S W a st = remaining L X S W a' st'"
proof (cases a)
  case (Fresh rq)
  with assms request_begin_remaining [of L X S W rq] show ?thesis by auto
next
  case (Timing rq)
  with via_remaining [of "\<lambda>now. branch (Fetching rq now) (put_target L rq)" "on_world (read_clock X)"
      st a' st' L X S W] assms
  show ?thesis by (simp add: issue_invoice_split remaining_branch)
next
  case (Fetching rq now put_addr)
  with via_remaining [of "Issuing rq now put_addr" "node_address L X S" st a' st' L X S W] assms show ?thesis
    by (simp add: fetch_address_split try_then_assoc)
next
  case (Issuing rq now put_addr h)
  with via_remaining [of "\<lambda>_. Replying rq now put_addr h" "add_to_wallet h" st a' st' L X S W] assms show ?thesis by simp
next
  case (Keying j th)
  obtain th' w where n: "db_next L X j th (world st) = (th', w)" by fastforce
  from db_next_rest [OF n] Keying n assms show ?thesis
    by (auto simp: key_next_remaining) (simp add: on_world_def)
next
  case (Checking payment tx_raw outs)
  with assms show ?thesis
    by (cases outs)
       (auto simp: try_then_def claim_outs_Cons claim_outs_def [where outs = "[]"] forget_def
         split: option.splits if_splits)
next
  case (Claiming payment tx_raw h)
  with via_remaining [of "\<lambda>_. Sending payment tx_raw" "forget h" st a' st' L X S W] assms show ?thesis by simp
next
  case (Sending payment tx_raw)
  with via_remaining [of "\<lambda>_. Answered (receipt L S payment)" "broadcast L X tx_raw" st a' st' L X S W] assms show ?thesis
    by (simp add: confirm_def)
next
  case (Refusing rq)
  with via_remaining [of "\<lambda>rs. Answered (Ok rs)" "no_method W rq" st a' st' L X S W] assms show ?thesis
    by (simp add: try_then_Ok)
next
  case (Filing rq)
  with via_remaining [of "\<lambda>rs. Answered (Ok rs)" "elsewhere W rq" st a' st' L X S W] assms show ?thesis
    by (simp add: try_then_Ok)
next
  case (Replying rq now put_addr h)
  with assms show ?thesis by auto
qed (use assms in simp)

section \<open>How much work is left\<close>

fun effort :: "('pk, 'sig, 'msg, 'z) pay_lib_scheme \<Rightarrow> activity \<Rightarrow> nat" where
  "effort L (Fresh rq) =
     5 + (case screen_payment L rq of Ok (payment, tx_raw, tx) \<Rightarrow> length (tx_outputs tx) | _ \<Rightarrow> 0)"
| "effort L (Timing rq) = 4"
| "effort L (Fetching rq now put_addr) = 3"
| "effort L (Issuing rq now put_addr h) = 2"
| "effort L (Replying rq now put_addr h) = 1"
| "effort L (Keying j th) = Suc (steps_left th)"
| "effort L (Checking payment tx_raw outs) = 3 + length outs"
| "effort L (Claiming payment tx_raw h) = 2"
| "effort L (Sending payment tx_raw) = 1"
| "effort L (Refusing rq) = 1"
| "effort L (Filing rq) = 1"
| "effort L (Answered r) = 0"

lemma effort_0: "effort L a = 0 \<longleftrightarrow> (\<exists>r. a = Answered r)"
  by (cases a) simp_all

lemma effort_branch: "(\<And>x. r = Ok x \<Longrightarrow> effort L (f x) \<le> n) \<Longrightarrow> effort L (branch f r) \<le> n"
  by (cases r) simp_all

lemma effort_via:
  "via f m st = (a', st') \<Longrightarrow> (\<And>x. effort L (f x) \<le> n) \<Longrightarrow> effort L a' \<le> n"
  by (auto simp: via_def split: prod.splits intro: effort_branch)

lemma effort_key_begin: "effort L (key_begin L rq) \<le> 4"
  by (cases "rq_method rq") (auto simp: key_begin_def intro!: effort_branch)

lemma effort_request_begin: "effort L (request_begin L S W rq) < effort L (Fresh rq)"
proof (cases "route W rq")
  case KeyResource
  with effort_key_begin [of L rq] show ?thesis
    by (auto simp: request_begin_def split: option.split)
next
  case PaymentResource
  then show ?thesis
    by (cases "screen_payment L rq") (auto simp: request_begin_def)
next
  case Elsewhere
  then show ?thesis by (simp add: request_begin_def)
qed

lemma effort_key_next: "effort L (key_next j th) \<le> Suc (steps_left th)"
  by (cases th) simp_all

lemma db_next_less:
  assumes "db_next L X j th d = (th', d')" and "\<nexists>r. th = Over r"
  shows "steps_left th' < steps_left th"
proof (cases th)
  case Begin
  with assms look_next [of L X j d th' d'] show ?thesis by (cases th') simp_all
next
  case Stale
  with assms drop_next [of X j d th' d'] show ?thesis by (cases th') simp_all
next
  case Passed
  with assms commit_Over [of L X _ _ d th' d'] show ?thesis
    by (cases j) (auto simp: steps_left_0)
qed (use assms(2) in blast)

lemma advance_less:
  assumes "advance L X S W a st = (a', st')" and "\<nexists>r. a = Answered r"
  shows "effort L a' < effort L a"
proof (cases a)
  case (Fresh rq)
  with assms(1) effort_request_begin [of L S W rq] show ?thesis by auto
next
  case (Timing rq)
  with assms(1) effort_via [of _ "on_world (read_clock X)" st a' st' L 3] show ?thesis
    by (fastforce intro: effort_branch)
next
  case (Fetching rq now put_addr)
  with assms(1) effort_via [of _ "node_address L X S" st a' st' L 2] show ?thesis by fastforce
next
  case (Issuing rq now put_addr h)
  with assms(1) effort_via [of _ "add_to_wallet h" st a' st' L 1] show ?thesis by fastforce
next
  case (Keying j th)
  obtain th' w where n: "db_next L X j th (world st) = (th', w)" by fastforce
  show ?thesis
  proof (cases "\<exists>r. th = Over r")
    case True
    with Keying assms(1) show ?thesis by auto
  next
    case False
    with db_next_less [OF n] effort_key_next [of L j th'] Keying assms(1) n show ?thesis by auto
  qed
next
  case (Checking payment tx_raw outs)
  with assms(1) show ?thesis by (cases outs) (auto split: option.splits if_splits)
next
  case (Claiming payment tx_raw h)
  with assms(1) effort_via [of _ "forget h" st a' st' L 1] show ?thesis by fastforce
next
  case (Sending payment tx_raw)
  with assms(1) effort_via [of _ "broadcast L X tx_raw" st a' st' L 0] show ?thesis by fastforce
next
  case (Refusing rq)
  with assms(1) effort_via [of _ "no_method W rq" st a' st' L 0] show ?thesis by fastforce
next
  case (Filing rq)
  with assms(1) effort_via [of _ "elsewhere W rq" st a' st' L 0] show ?thesis by fastforce
next
  case (Replying rq now put_addr h)
  with assms(1) show ?thesis by auto
qed (use assms(2) in blast)

section \<open>A request alone is the application\<close>

definition act :: "'s site \<Rightarrow> nat \<Rightarrow> activity \<Rightarrow> 's server \<Rightarrow> 's site" where
  "act s i a st = s\<lparr>shop := st, acts := (acts s)(i := a)\<rparr>"

lemma act_sel [simp]:
  "shop (act s i a st) = st" "acts (act s i a st) = (acts s)(i := a)" "poller (act s i a st) = poller s"
  by (simp_all add: act_def)

lemma act_act [simp]: "act (act s i a st) i a' st' = act s i a' st'"
  by (simp add: act_def)

lemma act_self: "acts s i = a \<Longrightarrow> act s i a (shop s) = s"
  by (simp add: act_def fun_upd_idem)

lemmas request_step = site_step.request [folded act_def]

lemma runs_to_answer:
  "acts s i = a \<Longrightarrow> remaining L X S W a (shop s) = (r, st) \<Longrightarrow>
     (site_step L X S W view)\<^sup>*\<^sup>* s (act s i (Answered r) st)"
proof (induction "effort L a" arbitrary: a s rule: less_induct)
  case less
  show ?case
  proof (cases "\<exists>q. a = Answered q")
    case True
    with less.prems act_self [of s i] show ?thesis by auto
  next
    case False
    obtain a' t where adv: "advance L X S W a (shop s) = (a', t)" by fastforce
    have "(site_step L X S W view)\<^sup>*\<^sup>* (act s i a' t) (act (act s i a' t) i (Answered r) st)"
      by (rule less.hyps [OF advance_less [OF adv False]])
         (use less.prems advance_remaining [OF adv] in simp_all)
    moreover have "site_step L X S W view s (act s i a' t)"
      by (rule request_step) (use False less.prems(1) adv in simp_all)
    ultimately show ?thesis unfolding act_act by (rule converse_rtranclp_into_rtranclp [rotated])
  qed
qed

text \<open>
  C3: cut at its actions, the server is the application. A request that runs without
  interference, whatever its method and path, ends with exactly the answer, the wallet and the
  database of the sequential application.
\<close>

theorem request_alone:
  assumes "acts s i = Fresh rq" and "app L X S W rq (shop s) = (r, st)"
  shows "(site_step L X S W view)\<^sup>*\<^sup>* s (s\<lparr>shop := st, acts := (acts s)(i := Answered r)\<rparr>)"
  using runs_to_answer [OF assms(1)] assms(2) by (simp add: act_def)

section \<open>Polling alone is \<open>peer_polling\<close>\<close>

definition store_rest ::
  "('pk, 'sig, 'msg, 'z) pay_lib_scheme \<Rightarrow> ('s, 'x) net_sys_scheme \<Rightarrow> address \<Rightarrow> address_metadata \<Rightarrow>
     payload \<Rightarrow> thread \<Rightarrow> ('s, unit, unit) io" where
  "store_rest L X addr md p th = try_then (attempt (rest L X (Put addr md p) th)) (\<lambda>_. lift (Ok ()))"

fun poll_rest ::
  "('pk, 'sig, 'msg, 'z) pay_lib_scheme \<Rightarrow> ('s, 'x) net_sys_scheme \<Rightarrow> polling \<Rightarrow> ('s, unit, unit) io" where
  "poll_rest L X (Waiting items) = peer_polling L X items"
| "poll_rest L X (Asking peer addr str items) =
     try_then (try_then (attempt (get_metadata L X peer str)) (\<lambda>got.
       case got of Inl _ \<Rightarrow> lift (Ok ()) | Inr raw \<Rightarrow> pull_metadata L X addr raw)) (\<lambda>_.
     peer_polling L X items)"
| "poll_rest L X (Storing addr md p th items) =
     try_then (store_rest L X addr md p th) (\<lambda>_. peer_polling L X items)"
| "poll_rest L X Halted = lift Panic"

text \<open>An upload that was screened, and a pull that was checked, do the same to the database.\<close>

lemma pull_store:
  "try_then (attempt (check_timestamp L X addr p)) (\<lambda>checked.
      case checked of Inl _ \<Rightarrow> lift (Ok ()) | Inr (Inl _) \<Rightarrow> lift (Ok ())
      | Inr (Inr _) \<Rightarrow> try_then (attempt (kdb_put L X addr md)) (\<lambda>_. lift (Ok ())))
   = store_rest L X addr md p Begin"
proof (rule ext)
  fix d
  obtain c d1 where c: "check_timestamp L X addr p d = (c, d1)" by fastforce
  obtain q d2 where q: "kdb_put L X addr md d1 = (q, d2)" by fastforce
  have "(case checked of Inl _ \<Rightarrow> lift (Ok ()) | Inr (Inl _) \<Rightarrow> lift (Ok ())
      | Inr (Inr _) \<Rightarrow> try_then (attempt (kdb_put L X addr md)) (\<lambda>_. lift (Ok ()))) d1 = (Ok (), d1)"
    if "checked = Inl e \<or> checked = Inr (Inl v)" for checked e v
    using that by auto
  then show "try_then (attempt (check_timestamp L X addr p)) (\<lambda>checked.
      case checked of Inl _ \<Rightarrow> lift (Ok ()) | Inr (Inl _) \<Rightarrow> lift (Ok ())
      | Inr (Inr _) \<Rightarrow> try_then (attempt (kdb_put L X addr md)) (\<lambda>_. lift (Ok ()))) d
    = store_rest L X addr md p Begin d"
    using c q
    by (cases c; cases q)
       (auto simp: store_rest_def store_put_def try_then_def attempt_def map_err_io_def split: sum.split)
qed

lemma pull_begin_rest:
  "poll_rest L X (pull_begin L addr raw items) =
     try_then (pull_metadata L X addr raw) (\<lambda>_. peer_polling L X items)"
proof (cases "md_decode L raw")
  case (Inl e)
  then show ?thesis by (simp add: pull_begin_def pull_metadata_def)
next
  case (Inr md)
  note md = this
  show ?thesis
  proof (cases "md_encode L md")
    case (Inl e)
    with md show ?thesis by (simp add: pull_begin_def pull_metadata_def)
  next
    case (Inr raw')
    note enc = this
    show ?thesis
    proof (cases "\<exists>p. validate L (secp256k1 L) addr md = Ok () \<and> payload_decode L (serialized_payload md) = Inr p")
      case True
      then obtain p where p: "validate L (secp256k1 L) addr md = Ok ()"
        "payload_decode L (serialized_payload md) = Inr p" by blast
      show ?thesis
        unfolding pull_metadata_valid [OF md enc p] pull_store
        using md enc p by (simp add: pull_begin_def)
    next
      case False
      with md enc show ?thesis
        by (cases "validate L (secp256k1 L) addr md")
           (auto simp: pull_begin_def pull_metadata_def try_then_def attempt_def fun_eq_iff
             split: sum.splits)
    qed
  qed
qed

lemma store_next_rest:
  "poll_rest L X (store_next addr md p th items) =
     try_then (store_rest L X addr md p th) (\<lambda>_. peer_polling L X items)"
  by (cases th; cases "case th of Over r \<Rightarrow> r | _ \<Rightarrow> Panic")
     (auto simp: store_rest_def try_then_def attempt_def fun_eq_iff)

lemma delay_then: "try_then (delay_for X n) f d = f () (sleep_secs X n d)"
  by (simp add: delay_for_def try_then_def)

lemma poll_advance_rest:
  assumes "poll_advance L X p d = (p', d')"
  shows "poll_rest L X p d = poll_rest L X p' d'"
proof (cases p)
  case (Waiting items)
  show ?thesis
  proof (cases items)
    case (Cons res rest_items)
    with Waiting assms show ?thesis
      by (cases res) (auto simp: poll_item_def try_then_assoc delay_then split: sum.splits)
  qed (use Waiting assms in simp)
next
  case (Asking peer addr str items)
  obtain q t where q: "get_metadata L X peer str d = (q, t)" by fastforce
  with Asking assms show ?thesis
    by (cases q) (auto simp: try_then_def attempt_def pull_begin_rest)
next
  case (Storing addr md p th items)
  obtain th' w where n: "db_next L X (Put addr md p) th d = (th', w)" by fastforce
  from db_next_rest [OF n] have "store_rest L X addr md p th d = store_rest L X addr md p th' w"
    by (simp add: store_rest_def try_then_def attempt_def)
  with Storing n assms show ?thesis by (auto simp: store_next_rest) (simp add: try_then_def)
qed (use assms in simp)

fun poll_effort :: "polling \<Rightarrow> nat" where
  "poll_effort (Waiting items) = 6 * length items"
| "poll_effort (Asking peer addr str items) = 5 + 6 * length items"
| "poll_effort (Storing addr md p th items) = Suc (steps_left th) + 6 * length items"
| "poll_effort Halted = 0"

lemma poll_effort_0: "poll_effort p = 0 \<longleftrightarrow> p = Waiting [] \<or> p = Halted"
  by (cases p) simp_all

lemma pull_begin_effort: "poll_effort (pull_begin L addr raw items) < 5 + 6 * length items"
  by (auto simp: pull_begin_def split: sum.split result.split)

lemma store_next_effort: "poll_effort (store_next addr md p th items) \<le> Suc (steps_left th) + 6 * length items"
  by (cases th) simp_all

lemma poll_advance_less:
  assumes "poll_advance L X p d = (p', d')" and "poll_effort p \<noteq> 0"
  shows "poll_effort p' < poll_effort p"
proof (cases p)
  case (Waiting items)
  show ?thesis
  proof (cases items)
    case (Cons res more)
    with Waiting assms(1) show ?thesis by (cases res) (auto split: sum.splits)
  qed (use Waiting assms(2) in simp)
next
  case (Asking peer addr str items)
  obtain q t where "get_metadata L X peer str d = (q, t)" by fastforce
  with Asking assms(1) pull_begin_effort [of L addr _ items] show ?thesis
    by (cases q) auto
next
  case (Storing addr md p1 th items)
  obtain th' w where n: "db_next L X (Put addr md p1) th d = (th', w)" by fastforce
  show ?thesis
  proof (cases "\<exists>r. th = Over r")
    case True
    with Storing assms(1) show ?thesis by auto
  next
    case False
    with db_next_less [OF n] store_next_effort [of addr md p1 th' items] Storing assms(1) n
    show ?thesis by auto
  qed
qed (use assms(2) in simp)

definition polled :: "'s site \<Rightarrow> polling \<Rightarrow> 's \<Rightarrow> 's site" where
  "polled s p w = s\<lparr>shop := (shop s)\<lparr>world := w\<rparr>, poller := p\<rparr>"

lemma polled_sel [simp]:
  "poller (polled s p w) = p" "world (shop (polled s p w)) = w" "acts (polled s p w) = acts s"
  "polled (polled s p w) p' w' = polled s p' w'"
  by (simp_all add: polled_def)

lemma polled_self: "polled s (poller s) (world (shop s)) = s"
  by (simp add: polled_def)

lemmas poll_step = site_step.poll [folded polled_def]

lemma polls_to_end:
  "poll_rest L X (poller s) (world (shop s)) = (r, w) \<Longrightarrow>
     (site_step L X S W view)\<^sup>*\<^sup>* s (polled s (if r = Ok () then Waiting [] else Halted) w)"
proof (induction "poll_effort (poller s)" arbitrary: s rule: less_induct)
  case less
  show ?case
  proof (cases "poll_effort (poller s) = 0")
    case True
    with less.prems polled_self [of s] show ?thesis by (auto simp: poll_effort_0)
  next
    case False
    obtain p t where adv: "poll_advance L X (poller s) (world (shop s)) = (p, t)" by fastforce
    have "(site_step L X S W view)\<^sup>*\<^sup>* (polled s p t)
        (polled (polled s p t) (if r = Ok () then Waiting [] else Halted) w)"
      by (rule less.hyps)
         (use poll_advance_less [OF adv False] poll_advance_rest [OF adv] less.prems in simp_all)
    with poll_step [OF adv] show ?thesis unfolding polled_sel
      by (meson converse_rtranclp_into_rtranclp)
  qed
qed

text \<open>
  C18: cut at its actions, the polling task is \<open>peer_polling\<close>. Without interference it treats the
  items of its stream with exactly the effect of the sequential function, and is ready for the
  next item unless that panics.
\<close>

theorem polling_alone:
  assumes "poller s = Waiting items" and "peer_polling L X items (world (shop s)) = (r, w)"
  shows "(site_step L X S W view)\<^sup>*\<^sup>* s (s\<lparr>shop := (shop s)\<lparr>world := w\<rparr>,
    poller := (if r = Ok () then Waiting [] else Halted)\<rparr>)"
  using polls_to_end [of L X s r w S W view] assms by (simp add: polled_def)

end
