(* ===== verification/Concurrent_Safety.thy ===== *)
theory Concurrent_Safety
  imports Concurrency
begin

text \<open>
  What the concurrent server of \<open>Concurrency\<close> guarantees under every interleaving of requests,
  polling and compaction: authenticity of what is stored and served, an authorisation behind
  every accepted upload, an invoice behind every acknowledged payment, and an answer to every
  request after a bounded number of its own actions; and what it does not guarantee.
\<close>

section \<open>The database under one action\<close>

fun job_ok :: "('pk, 'sig, 'msg, 'z) model_lib_scheme \<Rightarrow> job \<Rightarrow> bool" where
  "job_ok L (Get addr) = True"
| "job_ok L (Put addr md p) = admissible L (body addr) md"

lemma db_next_ready:
  assumes ready: "kdb_ready L X view d" and job: "job_ok L j" and ans: "answer_ok L j th"
    and run: "db_next L X j th d = (th', d')"
  shows "kdb_ready L X view d' \<and> answer_ok L j th'"
proof (cases th)
  case Begin
  with look_ready [OF ready] run show ?thesis by simp
next
  case Stale
  with drop_stale_ready [OF ready] run show ?thesis by simp
next
  case Passed
  with commit_ready [OF ready] job run ready show ?thesis by (cases j) auto
qed (use run ready ans in auto)

text \<open>Actions outside the database leave it as it is.\<close>

definition site_world :: "('s, 'x) net_sys_scheme \<Rightarrow> 's web \<Rightarrow> 's view \<Rightarrow> bool" where
  "site_world X W view \<longleftrightarrow>
     rocks_ok X view \<and> net_isolated X view \<and> web_isolated W view \<and> web_walletless W"

lemma site_worldD:
  assumes "site_world X W view"
  shows "rocks_ok X view" "net_isolated X view" "web_isolated W view" "web_walletless W"
  using assms by (simp_all add: site_world_def)

lemma via_view:
  assumes "keeps (\<lambda>st. view (world st) = V) m" and "via f m st = (a, st')" and "view (world st) = V"
  shows "view (world st') = V"
  using assms keepsD [OF assms(1,3)] by (auto simp: via_def split: prod.splits)

lemma node_address_view:
  "site_world X W view \<Longrightarrow> keeps (\<lambda>st. view (world st) = V) (node_address L X S)"
  unfolding node_address_def
  by (intro keeps_intros keeps_try_then keeps_on_world [where P = "\<lambda>s. view s = V"]
      net_keeps_view(1)) (simp_all add: site_worldD)

lemma broadcast_view:
  "site_world X W view \<Longrightarrow> keeps (\<lambda>st. view (world st) = V) (broadcast L X tx_raw)"
  unfolding broadcast_def
  by (intro keeps_intros keeps_on_world [where P = "\<lambda>s. view s = V"] net_keeps_view(2))
     (simp_all add: site_worldD)

lemma forget_view: "keeps (\<lambda>st. view (world st) = V) (forget h)"
  by (simp add: keeps_def forget_def)

lemma clock_view:
  "site_world X W view \<Longrightarrow> keeps (\<lambda>st. view (world st) = V) (on_world (read_clock X))"
  by (rule keeps_on_world [where P = "\<lambda>s. view s = V"], rule net_keeps_view(3))
     (simp_all add: site_worldD)

text \<open>An action that is not one of the database.\<close>

lemma advance_view:
  assumes ok: "site_world X W view" and adv: "advance L X S W a st = (a', st')"
    and no_key: "\<And>j th. a \<noteq> Keying j th"
  shows "view (world st') = view (world st)"
proof (cases a)
  case (Timing rq)
  with via_view [OF clock_view [OF ok] _ refl] adv show ?thesis by simp
next
  case (Fetching rq now put_addr)
  with via_view [OF node_address_view [OF ok] _ refl] adv show ?thesis by simp
next
  case (Issuing rq now put_addr h)
  with via_view [OF keeps_add_to_wallet [where P = "\<lambda>s. view s = view (world st)"] _ refl] adv
  show ?thesis by simp
next
  case (Checking payment tx_raw outs)
  with adv show ?thesis by (cases outs) (auto split: option.splits if_splits)
next
  case (Claiming payment tx_raw h)
  with via_view [OF forget_view [where view = view] _ refl] adv show ?thesis by simp
next
  case (Sending payment tx_raw)
  with via_view [OF broadcast_view [OF ok] _ refl] adv show ?thesis by simp
next
  case (Refusing rq)
  with via_view [OF no_method_keeps [OF site_worldD(3) [OF ok]] _ refl] adv show ?thesis by simp
next
  case (Filing rq)
  with via_view [OF elsewhere_keeps [OF site_worldD(3) [OF ok]] _ refl] adv show ?thesis by simp
qed (use adv no_key in auto)

section \<open>The wallet under one action\<close>

lemma via_wallet:
  assumes "keeps (\<lambda>st. wallet st = V) m" and "via f m st = (a, st')" and "wallet st = V"
  shows "wallet st' = V"
  using assms keepsD [OF assms(1,3)] by (auto simp: via_def split: prod.splits)

lemma node_address_wallet: "keeps (\<lambda>st. wallet st = V) (node_address L X S)"
  unfolding node_address_def by (intro keeps_intros keeps_try_then keeps_wallet_on_world)

lemma broadcast_wallet: "keeps (\<lambda>st. wallet st = V) (broadcast L X tx_raw)"
  unfolding broadcast_def by (intro keeps_intros keeps_wallet_on_world)

lemma advance_wallet:
  assumes ok: "site_world X W view" and adv: "advance L X S W a st = (a', st')"
  shows "wallet st' \<subseteq> wallet st \<or>
    (\<exists>rq now put_addr h. a = Issuing rq now put_addr h \<and> wallet st' = insert h (wallet st))"
proof (cases a)
  case (Timing rq)
  with via_wallet [OF keeps_wallet_on_world [where m = "read_clock X"] _ refl] adv
  show ?thesis by fastforce
next
  case (Fetching rq now put_addr)
  with via_wallet [OF node_address_wallet _ refl] adv
  show ?thesis by fastforce
next
  case (Issuing rq now put_addr h)
  with adv show ?thesis by (auto simp: via_def add_to_wallet_def wallet_add_def)
next
  case (Keying j th)
  with adv show ?thesis by (auto split: prod.splits)
next
  case (Checking payment tx_raw outs)
  with adv show ?thesis by (cases outs) (auto split: option.splits if_splits)
next
  case (Claiming payment tx_raw h)
  with adv show ?thesis by (auto simp: via_def forget_def wallet_remove_def)
next
  case (Sending payment tx_raw)
  with via_wallet [OF broadcast_wallet _ refl] adv
  show ?thesis by fastforce
next
  case (Refusing rq)
  with via_wallet [OF no_method_wallet [OF site_worldD(4) [OF ok]] _ refl] adv
  show ?thesis by fastforce
next
  case (Filing rq)
  with via_wallet [OF elsewhere_wallet [OF site_worldD(4) [OF ok]] _ refl] adv
  show ?thesis by fastforce
qed (use adv in auto)

section \<open>What an activity knows of its request\<close>

definition uploads_with_token ::
  "('pk, 'sig, 'msg, 'z) pay_lib_scheme \<Rightarrow> settings \<Rightarrow> request \<Rightarrow> bool" where
  "uploads_with_token L S rq \<longleftrightarrow>
     (\<exists>hv. rq_header rq ''authorization'' = Some hv \<and> vet L S rq hv = None)"

definition pays_invoice ::
  "('pk, 'sig, 'msg, 'z) pay_lib_scheme \<Rightarrow> (bytes \<Rightarrow> bool) \<Rightarrow> request \<Rightarrow> payment_msg \<Rightarrow> bytes \<Rightarrow> bool" where
  "pays_invoice L invoiced rq payment tx_raw \<longleftrightarrow>
     (\<exists>tx h. screen_payment L rq = Ok (payment, tx_raw, tx) \<and> invoiced h \<and> tx_pays tx h)"

text \<open>
  What a request that is about to get an invoice knows: it asked for one, the reading of the
  clock, the address it uploads to, and the address of the node it is to pay. \<open>G\<close> is the past of
  the request: the activities it has been in, each with the server as it was.
\<close>

definition dated ::
  "('s, 'x) net_sys_scheme \<Rightarrow> 's web \<Rightarrow> request \<Rightarrow> int \<Rightarrow> bool" where
  "dated X W rq now \<longleftrightarrow> asks_invoice W rq \<and> (\<exists>w. fst (sys_now X w) = now)"

definition invoice_of ::
  "('pk, 'sig, 'msg, 'z) pay_lib_scheme \<Rightarrow> ('s, 'x) net_sys_scheme \<Rightarrow> settings \<Rightarrow> 's web \<Rightarrow>
     (activity \<times> 's server) set \<Rightarrow> request \<Rightarrow> int \<Rightarrow> address \<Rightarrow> bytes \<Rightarrow> bool" where
  "invoice_of L X S W G rq now put_addr h \<longleftrightarrow>
     dated X W rq now \<and> put_target L rq = Ok put_addr \<and>
     (\<exists>st st'. (Fetching rq now put_addr, st) \<in> G \<and> node_address L X S st = (Ok h, st'))"

lemma node_address_Ok:
  assumes "node_address L X S st = (Ok h, st')"
  obtains addr_str addr u where "get_new_addr X (world st) = (Ok addr_str, u)"
    and "addr_decode L addr_str = Inr addr" and "hash_type addr = Key"
    and "from_bch_network (addr_network addr) = s_network S" and "h = body addr"
  using assms unfolding node_address_def
  by (auto simp: io_eqs on_world_def split: if_splits prod.splits)

text \<open>What may be answered to a \<open>GET\<close>, to a \<open>PUT\<close> and to a payment.\<close>

fun get_fits :: "('pk, 'sig, 'msg, 'z) pay_lib_scheme \<Rightarrow> request \<Rightarrow> (response, server_error) result \<Rightarrow> bool" where
  "get_fits L rq (Ok rs) = (\<exists>addr md. addr_decode L (rq_addr rq) = Inr addr \<and>
     authentic L (body addr) md \<and> md_encode L md = Inr (rs_body rs))"
| "get_fits L rq r = True"

fun put_fits ::
  "('pk, 'sig, 'msg, 'z) pay_lib_scheme \<Rightarrow> settings \<Rightarrow> request \<Rightarrow> (response, server_error) result \<Rightarrow> bool" where
  "put_fits L S rq (Ok rs) = (status rs = 200 \<longrightarrow>
     uploads_with_token L S rq \<and> (\<exists>addr md p. screen_put L rq = Ok (addr, md, p)))"
| "put_fits L S rq r = True"

fun payment_fits ::
  "('pk, 'sig, 'msg, 'z) pay_lib_scheme \<Rightarrow> settings \<Rightarrow> (bytes \<Rightarrow> bool) \<Rightarrow> request \<Rightarrow>
     (response, server_error) result \<Rightarrow> bool" where
  "payment_fits L S invoiced rq (Ok rs) =
     (\<exists>payment tx_raw. pays_invoice L invoiced rq payment tx_raw \<and> receipt L S payment = Ok rs)"
| "payment_fits L S invoiced rq r = True"

fun act_ok ::
  "('pk, 'sig, 'msg, 'z) pay_lib_scheme \<Rightarrow> ('s, 'x) net_sys_scheme \<Rightarrow> settings \<Rightarrow> 's web \<Rightarrow>
     (activity \<times> 's server) set \<Rightarrow> (bytes \<Rightarrow> bool) \<Rightarrow> request \<Rightarrow> activity \<Rightarrow> bool" where
  "act_ok L X S W G invoiced rq (Fresh rq') = (rq' = rq)"
| "act_ok L X S W G invoiced rq (Timing rq') = (rq' = rq \<and> asks_invoice W rq)"
| "act_ok L X S W G invoiced rq (Fetching rq' now a) =
     (rq' = rq \<and> dated X W rq now \<and> put_target L rq = Ok a)"
| "act_ok L X S W G invoiced rq (Issuing rq' now a h) = (rq' = rq \<and> invoice_of L X S W G rq now a h)"
| "act_ok L X S W G invoiced rq (Replying rq' now a h) = (rq' = rq \<and> invoice_of L X S W G rq now a h)"
| "act_ok L X S W G invoiced rq (Keying (Get addr) th) =
     (route W rq = KeyResource \<and> rq_method rq = GET \<and> addr_decode L (rq_addr rq) = Inr addr \<and>
      answer_ok L (Get addr) th)"
| "act_ok L X S W G invoiced rq (Keying (Put addr md p) th) =
     (route W rq = KeyResource \<and> rq_method rq = PUT \<and> uploads_with_token L S rq \<and>
      screen_put L rq = Ok (addr, md, p))"
| "act_ok L X S W G invoiced rq (Checking payment tx_raw outs) =
     (route W rq = PaymentResource \<and> rq_method rq = POST \<and>
      (\<exists>tx. screen_payment L rq = Ok (payment, tx_raw, tx) \<and> set outs \<subseteq> set (tx_outputs tx)))"
| "act_ok L X S W G invoiced rq (Claiming payment tx_raw h) =
     (route W rq = PaymentResource \<and> rq_method rq = POST \<and> pays_invoice L invoiced rq payment tx_raw)"
| "act_ok L X S W G invoiced rq (Sending payment tx_raw) =
     (route W rq = PaymentResource \<and> rq_method rq = POST \<and> pays_invoice L invoiced rq payment tx_raw)"
| "act_ok L X S W G invoiced rq (Refusing rq') = (rq' = rq \<and>
     (case route W rq of KeyResource \<Rightarrow> rq_method rq \<noteq> GET \<and> rq_method rq \<noteq> PUT
      | PaymentResource \<Rightarrow> rq_method rq \<noteq> POST | Elsewhere \<Rightarrow> False))"
| "act_ok L X S W G invoiced rq (Filing rq') = (rq' = rq \<and> route W rq = Elsewhere)"
| "act_ok L X S W G invoiced rq (Answered r) =
     (case route W rq of
        KeyResource \<Rightarrow> (rq_method rq = GET \<longrightarrow> get_fits L rq r) \<and> (rq_method rq = PUT \<longrightarrow> put_fits L S rq r)
      | PaymentResource \<Rightarrow> rq_method rq = POST \<longrightarrow> payment_fits L S invoiced rq r
      | Elsewhere \<Rightarrow> True)"

lemma fits_not_Ok [simp]:
  "\<not> is_ok r \<Longrightarrow> get_fits L rq r" "\<not> is_ok r \<Longrightarrow> put_fits L S rq r"
  "\<not> is_ok r \<Longrightarrow> payment_fits L S invoiced rq r"
  by (cases r; simp)+

lemma act_ok_failed: "\<not> is_ok r \<Longrightarrow> act_ok L X S W G invoiced rq (Answered r)"
  by (simp split: endpoint.split)

lemma act_ok_branch:
  "(\<And>x. r = Ok x \<Longrightarrow> act_ok L X S W G invoiced rq (f x)) \<Longrightarrow> act_ok L X S W G invoiced rq (branch f r)"
  by (cases r) (simp_all add: act_ok_failed del: act_ok.simps(13))

lemma act_ok_via_Ok:
  "via f m st = (a, st') \<Longrightarrow> (\<And>x. m st = (Ok x, st') \<Longrightarrow> act_ok L X S W G invoiced rq (f x)) \<Longrightarrow>
     act_ok L X S W G invoiced rq a"
  by (auto simp: via_def split: prod.splits intro: act_ok_branch)

lemma act_ok_via:
  "via f m st = (a, st') \<Longrightarrow> (\<And>x. act_ok L X S W G invoiced rq (f x)) \<Longrightarrow> act_ok L X S W G invoiced rq a"
  by (rule act_ok_via_Ok)

lemma pays_invoice_mono:
  "pays_invoice L P rq payment tx_raw \<Longrightarrow> (\<And>h. P h \<Longrightarrow> Q h) \<Longrightarrow> pays_invoice L Q rq payment tx_raw"
  unfolding pays_invoice_def by blast

lemma payment_fits_mono: "payment_fits L S P rq r \<Longrightarrow> (\<And>h. P h \<Longrightarrow> Q h) \<Longrightarrow> payment_fits L S Q rq r"
  by (cases r) (auto intro: pays_invoice_mono)

lemma invoice_of_mono: "invoice_of L X S W G rq now a h \<Longrightarrow> G \<subseteq> H \<Longrightarrow> invoice_of L X S W H rq now a h"
  unfolding invoice_of_def by blast

lemma act_ok_mono:
  assumes "act_ok L X S W G P rq a" and "\<And>h. P h \<Longrightarrow> Q h" and "G \<subseteq> H"
  shows "act_ok L X S W H Q rq a"
proof (cases a)
  case (Keying j th)
  with assms(1) show ?thesis by (cases j) simp_all
next
  case (Answered r)
  with assms(1,2) payment_fits_mono [of L S P rq r Q] show ?thesis by (simp split: endpoint.splits)
qed (use assms pays_invoice_mono [of L P rq _ _ Q] invoice_of_mono [of L X S W G rq _ _ _ H] in auto)

section \<open>Every action keeps it\<close>

lemma vet_refuses: "vet L S rq hv = Some r \<Longrightarrow> put_fits L S rq r"
  by (cases r) (auto simp: vet_def vet_token_def split: sum.splits result.splits if_splits)

lemma key_begin_ok:
  assumes "route W rq = KeyResource" and "rq_method rq = PUT \<Longrightarrow> uploads_with_token L S rq"
  shows "act_ok L X S W G invoiced rq (key_begin L rq)"
proof (cases "rq_method rq")
  case GET
  with assms show ?thesis by (auto simp: key_begin_def from_sum_eq_Ok intro!: act_ok_branch)
next
  case PUT
  with assms show ?thesis by (auto simp: key_begin_def intro!: act_ok_branch)
qed (use assms(1) in \<open>simp_all add: key_begin_def\<close>)

lemma request_begin_ok: "act_ok L X S W G invoiced rq (request_begin L S W rq)"
proof (cases "route W rq")
  case KeyResource
  show ?thesis
  proof (cases "rq_method rq = PUT")
    case False
    with KeyResource key_begin_ok [OF KeyResource] show ?thesis by (simp add: request_begin_def)
  next
    case True
    show ?thesis
    proof (cases "rq_header rq ''authorization''")
      case None
      with True KeyResource show ?thesis by (simp add: request_begin_def asks_invoice_def)
    next
      case (Some hv)
      show ?thesis
      proof (cases "vet L S rq hv")
        case None
        with Some have "uploads_with_token L S rq" by (simp add: uploads_with_token_def)
        with key_begin_ok [OF KeyResource] True Some None KeyResource show ?thesis
          by (simp add: request_begin_def)
      next
        case (Some r)
        with vet_refuses [OF this] True \<open>rq_header rq ''authorization'' = Some hv\<close> KeyResource
        show ?thesis by (simp add: request_begin_def)
      qed
    qed
  qed
next
  case PaymentResource
  then show ?thesis by (auto simp: request_begin_def intro!: act_ok_branch)
next
  case Elsewhere
  then show ?thesis by (simp add: request_begin_def)
qed

lemma invoice_for_status: "invoice_for L S rq now put_addr h = Ok rs \<Longrightarrow> status rs = 402"
  by (auto simp: invoice_for_def and_then_eq_Ok invoice_response_Ok)

lemma invoice_ok:
  assumes "asks_invoice W rq"
  shows "act_ok L X S W G invoiced rq (Answered (invoice_for L S rq now put_addr h))"
  using assms invoice_for_status [of L S rq now put_addr h]
  by (cases "invoice_for L S rq now put_addr h") (simp_all add: asks_invoice_def)

lemma key_next_ok:
  assumes "act_ok L X S W G invoiced rq (Keying j th)" and "answer_ok L j th'"
  shows "act_ok L X S W G invoiced rq (key_next j th')"
proof (cases th')
  case (Over r)
  show ?thesis
  proof (cases j)
    case (Get addr)
    with assms Over show ?thesis by (cases r) (auto simp: answer_ok_def)
  next
    case (Put addr md p)
    with assms(1) Over show ?thesis by (cases r) auto
  qed
qed (use assms in \<open>cases j; simp\<close>)+

lemma paying_output: "output_hash out = Some h \<Longrightarrow> out \<in> set (tx_outputs tx) \<Longrightarrow> tx_pays tx h"
  by (auto simp: output_hash_def tx_pays_def pays_to_def list_ex_iff extract_pubkey_hash_iff
      split: if_splits)

lemma checking_ok:
  assumes act: "act_ok L X S W G invoiced rq (Checking payment tx_raw outs)"
    and known: "\<And>h. h \<in> wallet st \<Longrightarrow> invoiced h"
    and adv: "advance L X S W (Checking payment tx_raw outs) st = (a', st')"
  shows "act_ok L X S W G invoiced rq a'"
proof (cases outs)
  case Nil
  with act adv show ?thesis by auto
next
  case (Cons out more)
  from act Cons obtain tx where tx: "screen_payment L rq = Ok (payment, tx_raw, tx)"
    "out \<in> set (tx_outputs tx)" "set more \<subseteq> set (tx_outputs tx)" by auto
  show ?thesis
  proof (cases "\<exists>h. output_hash out = Some h \<and> h \<in> wallet st")
    case True
    then obtain h where h: "output_hash out = Some h" "h \<in> wallet st" by blast
    with tx known paying_output have "pays_invoice L invoiced rq payment tx_raw"
      unfolding pays_invoice_def by blast
    with h act adv Cons show ?thesis by auto
  next
    case False
    with adv Cons have "a' = Checking payment tx_raw more" by (auto split: option.splits if_splits)
    with act tx show ?thesis by auto
  qed
qed

lemma act_job: "act_ok L X S W G invoiced rq (Keying j th) \<Longrightarrow> job_ok L j \<and> answer_ok L j th"
  by (cases j) (auto intro: screen_put_admissible)

lemma advance_ok:
  assumes act: "act_ok L X S W G invoiced rq a" and ready: "kdb_ready L X view (world st)"
    and known: "\<And>h. h \<in> wallet st \<Longrightarrow> invoiced h" and past: "(a, st) \<in> G"
    and adv: "advance L X S W a st = (a', st')"
  shows "act_ok L X S W G invoiced rq a'"
proof (cases a)
  case (Fresh rq')
  with act adv request_begin_ok show ?thesis by auto
next
  case (Timing rq')
  from Timing act have rq: "rq' = rq" and asks: "asks_invoice W rq" by simp_all
  from Timing adv have via: "via (\<lambda>now. branch (Fetching rq now) (put_target L rq)) (on_world (read_clock X)) st = (a', st')"
    by (simp add: rq)
  show ?thesis
  proof (rule act_ok_via_Ok [OF via], rule act_ok_branch)
    fix now put_addr
    assume "on_world (read_clock X) st = (Ok now, st')" and "put_target L rq = Ok put_addr"
    with asks show "act_ok L X S W G invoiced rq (Fetching rq now put_addr)"
      by (auto simp: dated_def on_world_def read_clock_def split: prod.splits) (metis fst_conv)
  qed
next
  case (Fetching rq' now put_addr)
  from Fetching act have rq: "rq' = rq" and due: "dated X W rq now" "put_target L rq = Ok put_addr" by simp_all
  from Fetching adv have via: "via (Issuing rq now put_addr) (node_address L X S) st = (a', st')" by (simp add: rq)
  have "act_ok L X S W G invoiced rq (Issuing rq now put_addr h)" if "node_address L X S st = (Ok h, st')" for h
    using due past that unfolding Fetching rq act_ok.simps invoice_of_def by blast
  with via show ?thesis by (rule act_ok_via_Ok)
next
  case (Issuing rq' now put_addr h)
  with act adv show ?thesis by (auto elim!: act_ok_via)
next
  case (Replying rq' now put_addr h)
  with act adv invoice_ok [of W rq L X S G invoiced now put_addr h] show ?thesis
    by (auto simp: invoice_of_def dated_def simp del: act_ok.simps(13))
next
  case (Keying j th)
  obtain th' w where n: "db_next L X j th (world st) = (th', w)" by fastforce
  from act_job act Keying have "job_ok L j" and "answer_ok L j th" by blast+
  from db_next_ready [OF ready this n] key_next_ok act Keying n adv show ?thesis by auto
next
  case (Checking payment tx_raw outs)
  with checking_ok known act adv show ?thesis by blast
next
  case (Claiming payment tx_raw h)
  with act adv show ?thesis by (auto elim!: act_ok_via)
next
  case (Sending payment tx_raw)
  have "act_ok L X S W G invoiced rq (Answered (receipt L S payment))"
    using act Sending by (cases "receipt L S payment") auto
  with Sending adv show ?thesis by (auto elim!: act_ok_via simp del: act_ok.simps(13))
next
  case (Refusing rq')
  have "act_ok L X S W G invoiced rq (Answered (Ok rs))" for rs
    using act Refusing by (auto split: endpoint.splits)
  with Refusing adv show ?thesis by (auto elim!: act_ok_via simp del: act_ok.simps(13))
next
  case (Filing rq')
  with act adv show ?thesis by (auto elim!: act_ok_via)
qed (use act adv in auto)

lemma advance_ready:
  assumes act: "act_ok L X S W G invoiced rq a" and ready: "kdb_ready L X view (world st)"
    and ok: "site_world X W view" and adv: "advance L X S W a st = (a', st')"
  shows "kdb_ready L X view (world st')"
proof (cases "\<exists>j th. a = Keying j th")
  case True
  then obtain j th where a: "a = Keying j th" by blast
  obtain th' w where n: "db_next L X j th (world st) = (th', w)" by fastforce
  from act_job act a have "job_ok L j" and "answer_ok L j th" by blast+
  from db_next_ready [OF ready this n] a n adv show ?thesis by auto
next
  case False
  with advance_view [OF ok adv] kdb_ready_view [OF _ ready] show ?thesis by blast
qed

section \<open>The polling task keeps the database\<close>

fun poll_ok :: "('pk, 'sig, 'msg, 'z) pay_lib_scheme \<Rightarrow> polling \<Rightarrow> bool" where
  "poll_ok L (Storing addr md p th items) = admissible L (body addr) md"
| "poll_ok L p = True"

lemma pull_begin_ok: "poll_ok L (pull_begin L addr raw items)"
  by (auto simp: pull_begin_def validate_Ok_iff admissible_def split: sum.split result.split)

lemma store_next_ok: "admissible L (body addr) md \<Longrightarrow> poll_ok L (store_next addr md p th items)"
  by (cases th) simp_all

lemma poll_advance_ready:
  assumes ready: "kdb_ready L X view d" and iso: "net_isolated X view" and ok: "poll_ok L p"
    and adv: "poll_advance L X p d = (p', d')"
  shows "kdb_ready L X view d' \<and> poll_ok L p'"
proof (cases p)
  case (Waiting items)
  show ?thesis
  proof (cases items)
    case (Cons res more)
    with Waiting adv ready kdb_ready_view [OF delay_view [OF iso] ready] show ?thesis
      by (cases res) (auto split: sum.splits)
  qed (use Waiting adv ready in auto)
next
  case (Asking peer addr str items)
  obtain q t where q: "get_metadata L X peer str d = (q, t)" by fastforce
  from kdb_ready_view [OF get_metadata_view [OF iso q] ready] Asking adv q pull_begin_ok show ?thesis
    by (cases q) auto
next
  case (Storing addr md p1 th items)
  obtain th' w where n: "db_next L X (Put addr md p1) th d = (th', w)" by fastforce
  from ok Storing have adm: "admissible L (body addr) md" by simp
  from db_next_ready [OF ready _ _ n] adm store_next_ok [OF adm] Storing adv n show ?thesis by auto
qed (use adv ready in auto)

section \<open>The invariant\<close>

text \<open>An invoice for an address has been answered to a request that asked for one, or is about to be.\<close>

definition invoiced_in ::
  "('pk, 'sig, 'msg, 'z) pay_lib_scheme \<Rightarrow> ('s, 'x) net_sys_scheme \<Rightarrow> settings \<Rightarrow> 's web \<Rightarrow>
     (nat \<Rightarrow> (activity \<times> 's server) set) \<Rightarrow> (nat \<Rightarrow> request) \<Rightarrow> 's site \<Rightarrow> bytes \<Rightarrow> bool" where
  "invoiced_in L X S W G rqs s h \<longleftrightarrow>
     (\<exists>j now put_addr. invoice_of L X S W (G j) (rqs j) now put_addr h \<and>
        (acts s j = Replying (rqs j) now put_addr h \<or>
         acts s j = Answered (invoice_for L S (rqs j) now put_addr h)))"

definition dealt_inv ::
  "('pk, 'sig, 'msg, 'z) pay_lib_scheme \<Rightarrow> ('s, 'x) net_sys_scheme \<Rightarrow> settings \<Rightarrow> 's web \<Rightarrow>
     (nat \<Rightarrow> (activity \<times> 's server) set) \<Rightarrow> 's view \<Rightarrow> (nat \<Rightarrow> request) \<Rightarrow> 's site \<Rightarrow> bool" where
  "dealt_inv L X S W G view rqs s \<longleftrightarrow> site_world X W view \<and> kdb_ready L X view (world (shop s)) \<and>
     (\<forall>i. act_ok L X S W (G i) (invoiced_in L X S W G rqs s) (rqs i) (acts s i)) \<and> poll_ok L (poller s) \<and>
     (\<forall>h \<in> wallet (shop s). invoiced_in L X S W G rqs s h)"

lemma dealt_invD:
  assumes "dealt_inv L X S W G view rqs s"
  shows "site_world X W view" "kdb_ready L X view (world (shop s))"
    "act_ok L X S W (G i) (invoiced_in L X S W G rqs s) (rqs i) (acts s i)" "poll_ok L (poller s)"
    "h \<in> wallet (shop s) \<Longrightarrow> invoiced_in L X S W G rqs s h"
  using assms by (simp_all add: dealt_inv_def)

text \<open>Where the past of the requests does not matter, it is anything.\<close>

abbreviation site_inv ::
  "('pk, 'sig, 'msg, 'z) pay_lib_scheme \<Rightarrow> ('s, 'x) net_sys_scheme \<Rightarrow> settings \<Rightarrow> 's web \<Rightarrow> 's view \<Rightarrow>
     (nat \<Rightarrow> request) \<Rightarrow> 's site \<Rightarrow> bool" where
  "site_inv L X S W \<equiv> dealt_inv L X S W (\<lambda>_. UNIV)"

lemmas site_invD = dealt_invD [where G = "\<lambda>_. UNIV"]

lemma invoiced_in_mono:
  "invoiced_in L X S W G rqs s h \<Longrightarrow> (\<And>i. G i \<subseteq> H i) \<Longrightarrow> invoiced_in L X S W H rqs s h"
  unfolding invoiced_in_def using invoice_of_mono by blast

lemma dealt_inv_mono:
  assumes inv: "dealt_inv L X S W G view rqs s" and sub: "\<And>i. G i \<subseteq> H i"
  shows "dealt_inv L X S W H view rqs s"
proof -
  note inv' = dealt_invD [OF inv]
  have mono: "invoiced_in L X S W H rqs s h" if "invoiced_in L X S W G rqs s h" for h
    using invoiced_in_mono [OF that sub] .
  have "act_ok L X S W (H i) (invoiced_in L X S W H rqs s) (rqs i) (acts s i)" for i
    by (rule act_ok_mono [OF inv'(3) mono sub])
  moreover have "invoiced_in L X S W H rqs s h" if "h \<in> wallet (shop s)" for h
    using mono [OF inv'(5) [OF that]] .
  ultimately show ?thesis using inv' unfolding dealt_inv_def by blast
qed

lemma invoiced_in_upd:
  assumes inv: "invoiced_in L X S W G rqs s h" and busy: "\<nexists>r. acts s i = Answered r"
    and adv: "advance L X S W (acts s i) st = (a, st')" and upd: "acts t = (acts s)(i := a)"
  shows "invoiced_in L X S W G rqs t h"
proof -
  from inv obtain j now put_addr where j: "invoice_of L X S W (G j) (rqs j) now put_addr h"
    "acts s j = Replying (rqs j) now put_addr h \<or> acts s j = Answered (invoice_for L S (rqs j) now put_addr h)"
    unfolding invoiced_in_def by blast
  have "acts t j = Replying (rqs j) now put_addr h \<or> acts t j = Answered (invoice_for L S (rqs j) now put_addr h)"
  proof (cases "j = i")
    case True
    with j(2) busy have "acts s i = Replying (rqs j) now put_addr h" by metis
    with adv upd True show ?thesis by auto
  qed (use j(2) upd in simp)
  with j(1) show ?thesis unfolding invoiced_in_def by blast
qed

lemma invoiced_in_same: "acts t = acts s \<Longrightarrow> invoiced_in L X S W G rqs t = invoiced_in L X S W G rqs s"
  by (simp add: invoiced_in_def fun_eq_iff)

lemma dealt_inv_quiet:
  assumes inv: "dealt_inv L X S W G view rqs s" and "acts t = acts s"
    and "wallet (shop t) = wallet (shop s)" and "poll_ok L (poller t)"
    and "kdb_ready L X view (world (shop t))"
  shows "dealt_inv L X S W G view rqs t"
  using dealt_invD [OF inv] assms(4,5)
  unfolding dealt_inv_def invoiced_in_same [OF assms(2)] assms(2,3) by blast

lemma dealt_inv_request:
  assumes inv: "dealt_inv L X S W G view rqs s" and busy: "\<nexists>r. acts s i = Answered r"
    and past: "(acts s i, shop s) \<in> G i"
    and adv: "advance L X S W (acts s i) (shop s) = (a, st)"
  shows "dealt_inv L X S W G view rqs (act s i a st)"
proof -
  let ?t = "act s i a st"
  note inv' = dealt_invD [OF inv]
  have mono: "invoiced_in L X S W G rqs ?t h" if "invoiced_in L X S W G rqs s h" for h
    using invoiced_in_upd [OF that busy adv] by simp
  have acts: "act_ok L X S W (G j) (invoiced_in L X S W G rqs ?t) (rqs j) (acts ?t j)" for j
  proof (cases "j = i")
    case True
    from act_ok_mono [OF advance_ok [OF inv'(3) inv'(2) inv'(5) past adv] mono order_refl] True
    show ?thesis by simp
  next
    case False
    with act_ok_mono [OF inv'(3) mono order_refl] show ?thesis by simp
  qed
  have "invoiced_in L X S W G rqs ?t h" if h: "h \<in> wallet st" for h
  proof (cases "h \<in> wallet (shop s)")
    case True
    with inv'(5) mono show ?thesis by blast
  next
    case False
    with h have "\<not> wallet st \<subseteq> wallet (shop s)" by blast
    with advance_wallet [OF inv'(1) adv] obtain rq now put_addr g where
      iss: "acts s i = Issuing rq now put_addr g" and w: "wallet st = insert g (wallet (shop s))"
      by fast
    from w h False have g: "g = h" by simp
    from inv'(3) [of i] iss g have rq: "rq = rqs i" and "invoice_of L X S W (G i) (rqs i) now put_addr h" by auto
    moreover from adv iss g rq have "a = Replying (rqs i) now put_addr h"
      by (auto simp: via_def add_to_wallet_def)
    ultimately show ?thesis unfolding invoiced_in_def by (intro exI [of _ i]) auto
  qed
  with acts inv' advance_ready [OF inv'(3,2,1) adv] show ?thesis by (simp add: dealt_inv_def)
qed

lemma dealt_inv_step:
  assumes inv: "dealt_inv L X S W G view rqs s" and step: "site_step L X S W view s t"
    and past: "\<And>i. (acts s i, shop s) \<in> G i"
  shows "dealt_inv L X S W G view rqs t"
  using step
proof cases
  case (request i a st)
  with dealt_inv_request [OF inv request(2) past request(3)] show ?thesis by (simp add: act_def)
next
  case (poll p w)
  with poll_advance_ready [OF dealt_invD(2) [OF inv] site_worldD(2) [OF dealt_invD(1) [OF inv]]
      dealt_invD(4) [OF inv] poll(2)] show ?thesis
    by (intro dealt_inv_quiet [OF inv]) simp_all
next
  case (compaction k v level w0 w)
  with kdb_ready_keep [OF dealt_invD(2) [OF inv], of w k] dealt_invD(4) [OF inv] show ?thesis
    by (intro dealt_inv_quiet [OF inv]) simp_all
next
  case (idle w)
  with kdb_ready_keep [OF dealt_invD(2) [OF inv], of w] dealt_invD(4) [OF inv] show ?thesis
    by (intro dealt_inv_quiet [OF inv]) simp_all
qed

lemma site_inv_request:
  "site_inv L X S W view rqs s \<Longrightarrow> \<nexists>r. acts s i = Answered r \<Longrightarrow>
     advance L X S W (acts s i) (shop s) = (a, st) \<Longrightarrow> site_inv L X S W view rqs (act s i a st)"
  by (rule dealt_inv_request) simp_all

lemma site_inv_step:
  "site_inv L X S W view rqs s \<Longrightarrow> site_step L X S W view s t \<Longrightarrow> site_inv L X S W view rqs t"
  by (rule dealt_inv_step) simp_all

interpretation site: safe_steps "site_step L X S W view" "site_inv L X S W view rqs" for L X S W view rqs
  by unfold_locales (rule site_inv_step)

text \<open>With the past of a run, a request knows what it really has been told.\<close>

definition past ::
  "('s site \<Rightarrow> 's site \<Rightarrow> bool) \<Rightarrow> 's site \<Rightarrow> 's site \<Rightarrow> nat \<Rightarrow> (activity \<times> 's server) set" where
  "past step s0 t i = {(acts s i, shop s) | s. step\<^sup>*\<^sup>* s0 s \<and> step\<^sup>*\<^sup>* s t}"

lemma past_step: "step s t \<Longrightarrow> past step s0 s i \<subseteq> past step s0 t i"
  unfolding past_def by (blast intro: rtranclp.rtrancl_into_rtrancl)

lemma dealt_inv_run:
  assumes run: "(site_step L X S W view)\<^sup>*\<^sup>* s0 t" and start: "site_inv L X S W view rqs s0"
    and idle: "\<And>i. \<exists>rq. acts s0 i = Fresh rq" "wallet (shop s0) = {}"
  shows "dealt_inv L X S W (past (site_step L X S W view) s0 t) view rqs t"
  using run
proof (induction rule: rtranclp_induct)
  case base
  have "act_ok L X S W G P (rqs i) (acts s0 i)" for G P i
    using dealt_invD(3) [OF start, of i] idle(1) [of i] by auto
  with dealt_invD [OF start] idle(2) show ?case by (simp add: dealt_inv_def)
next
  case (step s t)
  let ?past = "past (site_step L X S W view) s0"
  have "dealt_inv L X S W (?past t) view rqs s"
    using dealt_inv_mono [OF step.IH past_step [where step = "site_step L X S W view", OF step.hyps(2)]] .
  moreover have "(acts s i, shop s) \<in> ?past t i" for i
    unfolding past_def using step.hyps by blast
  ultimately show ?case using dealt_inv_step step.hyps(2) by blast
qed

section \<open>What holds under every interleaving\<close>

text \<open>A server just started: nothing in the wallet, all requests still to come.\<close>

definition open_site :: "'s \<Rightarrow> (nat \<Rightarrow> request) \<Rightarrow> (stream_error + string \<times> address) list \<Rightarrow> 's site" where
  "open_site w rqs items =
     \<lparr>shop = start_server w, acts = (\<lambda>i. Fresh (rqs i)), poller = Waiting items\<rparr>"

lemma open_site_inv:
  assumes "site_world X W view" and "md_roundtrip L" and "view w = Map.empty"
  shows "site_inv L X S W view rqs (open_site w rqs items)"
  using assms site_worldD(1) [OF assms(1)]
  by (simp add: dealt_inv_def open_site_def kdb_ready_def kdb_inv_def start_server_def default_wallet_def)

text \<open>
  C1: the concurrent server only stores and serves what key owners signed. From a start on an
  empty database, however the actions of any number of requests, of the polling task and of
  compaction interleave, every stored entry is authentic for its key, and every \<open>GET\<close> that was
  answered with a key returned the encoding of authentic metadata for the address of its path.
\<close>

theorem concurrent_authentic:
  assumes run: "(site_step L X S W view)\<^sup>*\<^sup>* (open_site w rqs items) t"
    and empty: "view w = Map.empty" and params: "site_world X W view" "md_roundtrip L"
  shows "(\<forall>k md. kdb_lookup L view (world (shop t)) k = Some md \<longrightarrow> authentic L k md) \<and>
    (\<forall>i rs. route W (rqs i) = KeyResource \<longrightarrow> rq_method (rqs i) = GET \<longrightarrow> acts t i = Answered (Ok rs) \<longrightarrow>
       (\<exists>addr md. addr_decode L (rq_addr (rqs i)) = Inr addr \<and> authentic L (body addr) md \<and>
          md_encode L md = Inr (rs_body rs)))"
proof -
  note inv = site.run_inv [OF run open_site_inv [OF params empty]]
  have "get_fits L (rqs i) (Ok rs)"
    if "route W (rqs i) = KeyResource" "rq_method (rqs i) = GET" "acts t i = Answered (Ok rs)" for i rs
    using site_invD(3) [OF inv, of i] that by simp
  moreover have "\<forall>k md. kdb_lookup L view (world (shop t)) k = Some md \<longrightarrow> authentic L k md"
    using kdb.ready_adm [OF site_invD(2) [OF inv]] by (simp add: admissible_def)
  ultimately show ?thesis by simp
qed

lemma vet_authorised:
  assumes "ct_eq_decides L" and "headers_ascii L" and "uploads_with_token L S rq"
  shows "authorised L S rq"
proof -
  from assms(3) obtain hv where hv: "rq_header rq ''authorization'' = Some hv" "vet L S rq hv = None"
    by (auto simp: uploads_with_token_def)
  then obtain auth where auth: "hdr_to_str L hv = Inr auth" by (auto simp: vet_def vet_token_def split: sum.splits)
  with assms(2) have "is_ascii auth" by (simp add: headers_ascii_def)
  note pop = pop_token_ascii [OF this]
  from hv auth pop show ?thesis
    by (auto simp: vet_def vet_token_def authorised_def validate_token_iff [OF assms(1)] split: sum.splits if_splits)
qed

text \<open>
  C16: no upload without its token, under every interleaving. A \<open>PUT\<close> that was answered with 200
  carried the HMAC, under the server's secret, of its own URL, and had passed every check of
  an upload before it touched the database.
\<close>

theorem concurrent_uploads_authorised:
  assumes run: "(site_step L X S W view)\<^sup>*\<^sup>* (open_site w rqs items) t"
    and empty: "view w = Map.empty" and params: "site_world X W view" "md_roundtrip L"
    and lib: "ct_eq_decides L" "headers_ascii L"
    and put: "route W (rqs i) = KeyResource" "rq_method (rqs i) = PUT"
    and dn: "acts t i = Answered (Ok rs)" "status rs = 200"
  shows "authorised L S (rqs i) \<and>
    (\<exists>addr md p. screen_put L (rqs i) = Ok (addr, md, p) \<and> authentic L (body addr) md)"
proof -
  note inv = site.run_inv [OF run open_site_inv [OF params empty]]
  have "put_fits L S (rqs i) (Ok rs)" using site_invD(3) [OF inv, of i] put dn by simp
  with dn(2) vet_authorised [OF lib] show ?thesis by (auto simp: screen_put_Ok)
qed

lemma add_u8_short:
  assumes "\<not> checks \<or> n \<le> 226"
  obtains len where "add_u8 checks 29 (word_of_nat n) = Ok len"
proof -
  have "unat (word_of_nat n :: u8) = n" if "n \<le> 226" using that by (simp add: unat_of_nat)
  with assms have "add_u8 checks 29 (word_of_nat n) = Ok (29 + word_of_nat n)" by (auto simp: add_u8_def)
  with that show thesis by blast
qed

lemma invoice_for_returns:
  assumes "encoders_total L" and "0 \<le> now"
    and "\<not> overflow_checks L \<or> length (rq_scheme rq @ ''://'' @ rq_host rq) \<le> 226"
  obtains inv where "invoice_for L S rq now put_addr h = Ok inv"
proof -
  let ?base = "rq_scheme rq @ ''://'' @ rq_host rq"
  obtain len where "add_u8 (overflow_checks L) 29 (word_of_nat (length ?base)) = (Ok len :: (u8, server_error) result)"
    by (rule add_u8_short [OF assms(3)])
  then obtain outs where outs: "generate_outputs (overflow_checks L) h ?base (body put_addr) = Ok outs"
    unfolding generate_outputs_eq by simp
  have "\<exists>rs. invoice_response L S ?base (merchant_url_of rq) now (now + uint VALID_DURATION) outs = Ok rs"
    using assms(1,2) unfolding invoice_response_Ok encoders_total_def not_isl_iff
    by (simp add: VALID_DURATION_def) blast
  with outs that show thesis by (auto simp: invoice_for_def)
qed

text \<open>
  C4: no receipt without an invoice, under every interleaving. A payment that was acknowledged
  had an output that pays the price to the body of an address which, earlier in this run, the
  node gave to an upload without a token, a key hash on the configured network. The invoice for
  this address is well formed, and that upload has been answered with it or has nothing left
  to do but to answer with it. This is so in a release build; in a debug build as long as the
  scheme and host of a request, which the invoice announces, have at most 226 bytes: beyond
  that the upload panics once the address is in the wallet.
\<close>

theorem concurrent_payments_invoiced:
  assumes run: "(site_step L X S W view)\<^sup>*\<^sup>* (open_site w rqs items) t"
    and empty: "view w = Map.empty" and params: "site_world X W view" "md_roundtrip L" "encoders_total L"
    and clock: "\<And>u. 0 \<le> fst (sys_now X u)"
    and short: "\<And>j. \<not> overflow_checks L \<or> length (rq_scheme (rqs j) @ ''://'' @ rq_host (rqs j)) \<le> 226"
    and post: "route W (rqs i) = PaymentResource" "rq_method (rqs i) = POST"
    and dn: "acts t i = Answered (Ok rs)"
  shows "\<exists>payment tx_raw tx s j now put_addr addr_str addr u inv.
    screen_payment L (rqs i) = Ok (payment, tx_raw, tx) \<and> receipt L S payment = Ok rs \<and>
    tx_pays tx (body addr) \<and>
    (site_step L X S W view)\<^sup>*\<^sup>* (open_site w rqs items) s \<and> (site_step L X S W view)\<^sup>*\<^sup>* s t \<and>
    asks_invoice W (rqs j) \<and> put_target L (rqs j) = Ok put_addr \<and> acts s j = Fetching (rqs j) now put_addr \<and>
    get_new_addr X (world (shop s)) = (Ok addr_str, u) \<and> addr_decode L addr_str = Inr addr \<and>
    hash_type addr = Key \<and> from_bch_network (addr_network addr) = s_network S \<and>
    invoice_for L S (rqs j) now put_addr (body addr) = Ok inv \<and> status inv = 402 \<and>
    (acts t j = Answered (Ok inv) \<or> acts t j = Replying (rqs j) now put_addr (body addr))"
proof -
  let ?past = "past (site_step L X S W view) (open_site w rqs items) t"
  have "dealt_inv L X S W ?past view rqs t"
    using dealt_inv_run [OF run open_site_inv [OF params(1,2) empty]]
    by (simp add: open_site_def start_server_def default_wallet_def)
  from dealt_invD(3) [OF this, of i] post dn
  have "payment_fits L S (invoiced_in L X S W ?past rqs t) (rqs i) (Ok rs)" by simp
  then obtain payment tx_raw tx h j now put_addr where
    pay: "screen_payment L (rqs i) = Ok (payment, tx_raw, tx)" "receipt L S payment = Ok rs" "tx_pays tx h"
    and due: "invoice_of L X S W (?past j) (rqs j) now put_addr h"
    and at: "acts t j = Replying (rqs j) now put_addr h \<or>
      acts t j = Answered (invoice_for L S (rqs j) now put_addr h)"
    unfolding payment_fits.simps pays_invoice_def invoiced_in_def by blast
  from due have asks: "asks_invoice W (rqs j)" "put_target L (rqs j) = Ok put_addr" and "0 \<le> now"
    using clock by (auto simp: invoice_of_def dated_def)
  obtain inv where made: "invoice_for L S (rqs j) now put_addr h = Ok inv"
    by (rule invoice_for_returns [OF params(3) \<open>0 \<le> now\<close> short])
  from due obtain s st' where s: "(site_step L X S W view)\<^sup>*\<^sup>* (open_site w rqs items) s"
    "(site_step L X S W view)\<^sup>*\<^sup>* s t" "acts s j = Fetching (rqs j) now put_addr"
    and node: "node_address L X S (shop s) = (Ok h, st')"
    unfolding invoice_of_def past_def by auto
  from node obtain addr_str addr u where "get_new_addr X (world (shop s)) = (Ok addr_str, u)"
    "addr_decode L addr_str = Inr addr" "hash_type addr = Key"
    "from_bch_network (addr_network addr) = s_network S" and h: "h = body addr"
    by (rule node_address_Ok)
  with pay at asks made invoice_for_status [OF made] s show ?thesis unfolding h by (intro exI conjI) auto
qed

end
