(* ===== verification/Concurrent_Durability.thy ===== *)
theory Concurrent_Durability
  imports Concurrent_Safety Expiring_Map
begin

text \<open>
  What an answer 200 to an upload is worth under concurrency. \<open>Interleaving\<close> shows how an
  acknowledged upload can be lost; here it is shown that it cannot be while it lasts, as long as
  nobody stores anything else under its address.
\<close>

section \<open>What a look at the database can change\<close>

lemma kdb_peek_view:
  assumes ok: "rocks_ok X view" and run: "kdb_peek L X addr d = (r, d')"
  shows "view d' = view d"
proof -
  obtain g d1 where g: "rocks_get X (body addr) d = (g, d1)" by fastforce
  have "view d' = view d1"
    using run g expired_view [OF ok]
    by (auto simp: kdb_peek_def try_then_def from_sum_io_def split: sum.splits option.splits
        result.splits prod.splits)
  with rocks_getD(1) [OF ok g] show ?thesis by simp
qed

lemma live_next_view:
  "rocks_ok X view \<Longrightarrow> live_next L X j old d = (th, d') \<Longrightarrow> view d' = view d"
  using expired_view [of X view L]
  by (cases j) (auto split: sum.splits if_splits prod.splits result.splits)

lemma look_view:
  assumes ok: "rocks_ok X view" and run: "look L X j d = (th, d')"
  shows "view d' = view d"
proof -
  obtain r d1 where peek: "kdb_peek L X (job_addr j) d = (r, d1)" by fastforce
  from kdb_peek_view [OF ok peek] run peek live_next_view [OF ok, of L j] show ?thesis
    by (fastforce simp: look_def split: result.splits option.splits bool.splits)
qed

text \<open>A read marks an entry for deletion only when it found it expired.\<close>

lemma look_expired:
  assumes ok: "rocks_ok X view" and run: "look L X j d = (Stale, d')"
  obtains md p g w w' where "kdb_lookup L view d (body (job_addr j)) = Some md"
    and "payload_decode L (serialized_payload md) = Inr p"
    and "rocks_get X (body (job_addr j)) d = (g, w)" and "expired L X p w = (Ok True, w')"
proof -
  have never: "live_next L X j old e \<noteq> (Stale, e')" for old e e'
    using live_next_cases [of L X j old e Stale e'] by auto
  have "absent_next j \<noteq> Stale" by (cases j) simp_all
  with run never obtain md d1 where peek: "kdb_peek L X (job_addr j) d = (Ok (Some (md, True)), d1)"
    by (fastforce simp: look_def split: prod.splits result.splits option.splits bool.splits)
  then obtain v p w w' where g: "rocks_get X (body (job_addr j)) d = (Inr (Some v), w)"
    and dec: "md_decode L v = Inr md" "payload_decode L (serialized_payload md) = Inr p"
    and e: "expired L X p w = (Ok True, w')"
    by (auto simp: kdb_peek_def io_eqs split: option.splits)
  have "view d (body (job_addr j)) = Some v" using rocks_getD(2) [OF ok g refl] by simp
  with dec(1) have "kdb_lookup L view d (body (job_addr j)) = Some md"
    by (simp add: kdb_lookup_Some)
  with dec(2) g e that show thesis by blast
qed

section \<open>One entry\<close>

text \<open>The metadata has not passed its deadline, and deciding that does not overflow.\<close>

definition lasting ::
  "('pk, 'sig, 'msg, 'z) model_lib_scheme \<Rightarrow> ('s, 'x) db_sys_scheme \<Rightarrow> ('s \<Rightarrow> int) \<Rightarrow> address_metadata \<Rightarrow> 's \<Rightarrow> bool" where
  "lasting L X clk md d \<longleftrightarrow> steady X clk \<and> ranged L md \<and> clk d \<le> deadline_of L md"

lemma lasting_unexpired:
  assumes "lasting L X clk md d" and "payload_decode L (serialized_payload md) = Inr p"
    and "clk w = clk d"
  shows "expired L X p w \<noteq> (Ok True, w')"
proof -
  from assms have "sum_in_range p" and "clk d \<le> sint (timestamp p) + sint (ttl p)"
    by (auto simp: lasting_def ranged_def deadline_of_def)
  with steady_expired [of X clk p L w] assms(1,3) show ?thesis by (simp add: lasting_def)
qed

definition only_entry ::
  "('pk, 'sig, 'msg, 'z) model_lib_scheme \<Rightarrow> 's view \<Rightarrow> bytes \<Rightarrow> address_metadata \<Rightarrow> 's \<Rightarrow> bool" where
  "only_entry L view k md d \<longleftrightarrow> kdb_lookup L view d k = None \<or> kdb_lookup L view d k = Some md"

text \<open>What is known of a thread that works on the entry.\<close>

definition harmless :: "bytes \<Rightarrow> address_metadata \<Rightarrow> job \<Rightarrow> thread \<Rightarrow> bool" where
  "harmless k md j th \<longleftrightarrow> body (job_addr j) = k \<longrightarrow>
     th \<noteq> Stale \<and> (\<forall>addr md' p. j = Put addr md' p \<longrightarrow> md' = md)"

lemma commit_effect:
  assumes ready: "kdb_ready L X view d" and run: "commit L X addr md d = (th, d')"
  shows "kdb_lookup L view d' = kdb_lookup L view d \<or>
      kdb_lookup L view d' = (kdb_lookup L view d)(body addr \<mapsto> md)"
    and "th = Over (Ok rs) \<Longrightarrow> kdb_lookup L view d' (body addr) = Some md"
proof -
  obtain q e where q: "kdb_put L X addr md d = (q, e)" by fastforce
  have e: "e = d'" using q run by (cases q) (auto simp: commit_def)
  show "kdb_lookup L view d' = kdb_lookup L view d \<or>
      kdb_lookup L view d' = (kdb_lookup L view d)(body addr \<mapsto> md)"
    using kdb.put_stored [OF ready] kdb.put_failed [OF ready] kdb.put_returns [OF ready] q e
    by (cases q) auto
  show "kdb_lookup L view d' (body addr) = Some md" if "th = Over (Ok rs)"
    using that run q e kdb.put_stored [OF ready] by (cases q) (auto simp: commit_def)
qed

lemma drop_stale_effect:
  assumes ok: "rocks_ok X view" and run: "drop_stale X j d = (th, d')"
  shows "kdb_lookup L view d' = kdb_lookup L view d \<or>
    kdb_lookup L view d' = (kdb_lookup L view d)(body (job_addr j) := None)"
proof -
  obtain r e where r: "rocks_delete X (body (job_addr j)) d = (r, e)" by fastforce
  with run have "e = d'" by (auto simp: drop_stale_def split: sum.splits)
  with rocks_deleteD [OF ok r] show ?thesis by (intro kdb_lookup_frame) auto
qed

text \<open>An action on the database keeps the entry, or stores it.\<close>

lemma db_next_entry:
  assumes ready: "kdb_ready L X view d" and lasting: "lasting L X clk md d"
    and only: "only_entry L view k md d" and job: "harmless k md j th"
    and run: "db_next L X j th d = (th', d')"
  shows "(kdb_lookup L view d' k = kdb_lookup L view d k \<or> kdb_lookup L view d' k = Some md) \<and>
    harmless k md j th'"
proof (cases th)
  case Begin
  with run have look: "look L X j d = (th', d')" by simp
  note ok = kdb_readyD(1) [OF ready]
  have "th' \<noteq> Stale" if "body (job_addr j) = k"
  proof
    assume "th' = Stale"
    with look have "look L X j d = (Stale, d')" by simp
    then obtain md' p g w w' where found: "kdb_lookup L view d (body (job_addr j)) = Some md'"
      and p: "payload_decode L (serialized_payload md') = Inr p"
      and g: "rocks_get X (body (job_addr j)) d = (g, w)" and e: "expired L X p w = (Ok True, w')"
      by (rule look_expired [OF ok])
    from found that only have "md' = md" by (auto simp: only_entry_def)
    moreover have "clk w = clk d" using lasting steadyD(3) [OF _ g] by (simp add: lasting_def)
    ultimately show False using lasting_unexpired [OF lasting, of p w w'] p e by simp
  qed
  with job kdb_lookup_cong [OF look_view [OF ok look], of L] show ?thesis by (simp add: harmless_def)
next
  case Stale
  with job have "body (job_addr j) \<noteq> k" by (auto simp: harmless_def)
  with drop_stale_effect [OF kdb_readyD(1) [OF ready], of j d th' d' L] Stale run show ?thesis
    by (auto simp: harmless_def)
next
  case Passed
  show ?thesis
  proof (cases j)
    case (Get addr)
    with Passed run job show ?thesis by (auto simp: harmless_def)
  next
    case (Put addr md' p)
    with Passed run have c: "commit L X addr md' d = (th', d')" by simp
    from commit_Over [OF c] have "th' \<noteq> Stale" by auto
    with commit_effect(1) [OF ready c] job Put show ?thesis by (auto simp: harmless_def)
  qed
qed (use run job in \<open>auto simp: harmless_def\<close>)

lemma db_next_stores:
  assumes ready: "kdb_ready L X view d" and run: "db_next L X (Put addr md p) th d = (Over (Ok rs), d')"
    and busy: "\<nexists>r. th = Over r"
  shows "kdb_lookup L view d' (body addr) = Some md"
proof (cases th)
  case Begin
  with run have look: "look L X (Put addr md p) d = (Over (Ok rs), d')" by simp
  have "live_next L X (Put addr md p) old e \<noteq> (Over (Ok rs), e')" for old e e'
    by (auto split: sum.splits if_splits prod.splits result.splits)
  with look show ?thesis
    by (auto simp: look_def simp del: live_next.simps split: prod.splits result.splits option.splits bool.splits)
next
  case Stale
  with run show ?thesis by (auto simp: drop_stale_def split: prod.splits sum.splits)
next
  case Passed
  with run have "commit L X addr md d = (Over (Ok rs), d')" by simp
  from commit_effect(2) [OF ready this refl] show ?thesis .
qed (use busy in simp)

section \<open>One action of a request\<close>

lemma branch_Ok: "branch f r = Answered (Ok rs) \<Longrightarrow> \<exists>x. r = Ok x \<and> f x = Answered (Ok rs)"
  by (cases r) simp_all

lemma via_Ok: "via f m st = (Answered (Ok rs), st') \<Longrightarrow> \<exists>x. f x = Answered (Ok rs)"
  by (auto simp: via_def split: prod.splits dest: branch_Ok)

lemma vet_status: "vet L S rq hv = Some (Ok rs) \<Longrightarrow> status rs = 402"
  by (auto simp: vet_def vet_token_def split: sum.splits result.splits if_splits)

lemma put_begin_answer:
  assumes "route W rq = KeyResource" and "rq_method rq = PUT"
    and "request_begin L S W rq = Answered (Ok rs)"
  shows "status rs = 402"
  using assms vet_status [of L S rq _ rs]
  by (auto simp: request_begin_def key_begin_def split: option.splits dest!: branch_Ok)

text \<open>Only the write of its own metadata answers an upload with 200.\<close>

lemma advance_stores:
  assumes act: "act_ok L X S W G invoiced rq a" and busy: "\<nexists>r. a = Answered r"
    and thread: "\<And>j r. a \<noteq> Keying j (Over r)"
    and ready: "kdb_ready L X view (world st)"
    and put: "route W rq = KeyResource" "rq_method rq = PUT" "screen_put L rq = Ok (addr, md, p)"
    and adv: "advance L X S W a st = (Answered (Ok rs), st')" and ok: "status rs = 200"
  shows "kdb_lookup L view (world st') (body addr) = Some md"
proof (cases a)
  case (Fresh rq')
  with act adv put_begin_answer [OF put(1,2), of L S rs] ok show ?thesis by simp
next
  case (Timing rq')
  with adv show ?thesis by (auto dest!: via_Ok branch_Ok)
next
  case (Fetching rq' now put_addr)
  with adv show ?thesis by (auto dest!: via_Ok)
next
  case (Issuing rq' now put_addr h)
  with adv show ?thesis by (auto dest!: via_Ok)
next
  case (Replying rq' now put_addr h)
  with adv ok invoice_for_status [of L S rq' now put_addr h rs] show ?thesis by auto
next
  case (Keying j th)
  obtain th' w where n: "db_next L X j th (world st) = (th', w)" by fastforce
  from adv Keying n have th': "th' = Over (Ok rs)" and st': "world st' = w"
    by (cases th'; auto)+
  from act put Keying have j: "j = Put addr md p" by (cases j) auto
  have "\<nexists>r. th = Over r" using thread Keying by blast
  from db_next_stores [OF ready n [unfolded j th'] this] st' show ?thesis by simp
qed (use act put adv busy in auto)

text \<open>The threads of the activities: none is over, and none is about to delete the entry.\<close>

definition gentle :: "bytes \<Rightarrow> activity \<Rightarrow> bool" where
  "gentle k a \<longleftrightarrow> (\<forall>j th. a = Keying j th \<longrightarrow> (\<nexists>r. th = Over r) \<and> (body (job_addr j) = k \<longrightarrow> th \<noteq> Stale))"

lemma gentle_simps [simp]:
  "gentle k (Answered r)" "gentle k (Timing rq)" "gentle k (Fetching rq now a)"
  "gentle k (Issuing rq now a h)" "gentle k (Replying rq now a h)" "gentle k (Checking payment tx_raw outs)"
  "gentle k (Claiming payment tx_raw h)" "gentle k (Sending payment tx_raw)"
  "gentle k (Refusing rq)" "gentle k (Filing rq)" "gentle k (Keying j Begin)"
  by (simp_all add: gentle_def)

lemma gentle_branch: "(\<And>x. r = Ok x \<Longrightarrow> gentle k (f x)) \<Longrightarrow> gentle k (branch f r)"
  by (cases r) simp_all

lemma gentle_via: "via f m st = (a, st') \<Longrightarrow> (\<And>x. gentle k (f x)) \<Longrightarrow> gentle k a"
  by (auto simp: via_def split: prod.splits intro: gentle_branch)

lemma gentle_request: "gentle k (request_begin L S W rq)"
proof -
  have "gentle k (key_begin L rq)"
    by (cases "rq_method rq") (auto simp: key_begin_def intro: gentle_branch)
  then show ?thesis
    by (auto simp: request_begin_def split: endpoint.split option.split intro!: gentle_branch)
qed

lemma gentle_check: "gentle k (check_next w payment tx_raw outs)"
  by (cases outs) (auto split: option.split)

lemma gentle_key_next: "(body (job_addr j) = k \<Longrightarrow> th \<noteq> Stale) \<Longrightarrow> gentle k (key_next j th)"
  by (cases th) (auto simp: gentle_def)

lemma harmless_job:
  assumes "act_ok L X S W G invoiced rq (Keying j th)" and "gentle k (Keying j th)"
    and "\<And>addr' md' p'. screen_put L rq = Ok (addr', md', p') \<Longrightarrow> body addr' = k \<Longrightarrow> md' = md"
  shows "harmless k md j th"
  using assms by (cases j) (auto simp: harmless_def gentle_def)

lemma advance_entry:
  assumes act: "act_ok L X S W G invoiced rq a" and gentle: "gentle k a" and world: "site_world X W view"
    and ready: "kdb_ready L X view (world st)" and lasting: "lasting L X clk md (world st)"
    and entry: "only_entry L view k md (world st)"
    and only: "\<And>addr' md' p'. screen_put L rq = Ok (addr', md', p') \<Longrightarrow> body addr' = k \<Longrightarrow> md' = md"
    and adv: "advance L X S W a st = (a', st')"
  shows "(kdb_lookup L view (world st') k = kdb_lookup L view (world st) k \<or>
      kdb_lookup L view (world st') k = Some md) \<and> gentle k a'"
proof (cases "\<exists>j th. a = Keying j th")
  case True
  then obtain j th where a: "a = Keying j th" by blast
  obtain th' w where n: "db_next L X j th (world st) = (th', w)" by fastforce
  have "harmless k md j th"
    by (rule harmless_job [OF act [unfolded a] gentle [unfolded a] only])
  from db_next_entry [OF ready lasting entry this n] a n adv gentle_key_next [of j k th']
  show ?thesis by (auto simp: harmless_def)
next
  case False
  then have "view (world st') = view (world st)" by (intro advance_view [OF world adv]) blast
  moreover have "gentle k a'"
    using adv False
    by (cases a) (auto intro: gentle_request gentle_check gentle_branch elim!: gentle_via)
  ultimately show ?thesis using kdb_lookup_cong by metis
qed

section \<open>The polling task and compaction\<close>

definition unannounced :: "bytes \<Rightarrow> (stream_error + string \<times> address) list \<Rightarrow> bool" where
  "unannounced k items \<longleftrightarrow> (\<forall>peer addr. Inr (peer, addr) \<in> set items \<longrightarrow> body addr \<noteq> k)"

fun polls_others :: "bytes \<Rightarrow> polling \<Rightarrow> bool" where
  "polls_others k (Waiting items) = unannounced k items"
| "polls_others k (Asking peer addr str items) = (body addr \<noteq> k \<and> unannounced k items)"
| "polls_others k (Storing addr md p th items) = (body addr \<noteq> k \<and> unannounced k items)"
| "polls_others k Halted = True"

lemma unannounced_Cons: "unannounced k (res # items) \<Longrightarrow> unannounced k items"
  by (simp add: unannounced_def)

lemma poll_advance_entry:
  assumes ready: "kdb_ready L X view d" and iso: "net_isolated X view" and lasting: "lasting L X clk md d"
    and entry: "only_entry L view k md d" and others: "polls_others k p"
    and adv: "poll_advance L X p d = (p', d')"
  shows "(kdb_lookup L view d' k = kdb_lookup L view d k \<or> kdb_lookup L view d' k = Some md) \<and>
    polls_others k p'"
proof (cases p)
  case (Waiting items)
  have slept: "kdb_lookup L view (sleep_secs X VALID_DURATION d) = kdb_lookup L view d"
    by (rule kdb_lookup_cong) (rule delay_view [OF iso])
  show ?thesis
  proof (cases items)
    case (Cons res more)
    with Waiting adv others slept show ?thesis
      by (cases res) (auto simp: unannounced_def split: sum.splits)
  qed (use Waiting adv others in auto)
next
  case (Asking peer addr str items)
  obtain q t where q: "get_metadata L X peer str d = (q, t)" by fastforce
  have "polls_others k (pull_begin L addr raw items)" for raw
    using others Asking by (auto simp: pull_begin_def split: sum.split result.split)
  with kdb_lookup_cong [OF get_metadata_view [OF iso q], of L] Asking adv q others show ?thesis
    by (cases q) auto
next
  case (Storing addr md' p1 th items)
  obtain th' w where n: "db_next L X (Put addr md' p1) th d = (th', w)" by fastforce
  from others Storing have "harmless k md (Put addr md' p1) th" by (simp add: harmless_def)
  from db_next_entry [OF ready lasting entry this n] Storing adv n others show ?thesis
    by (cases th') auto
qed (use adv others in auto)

lemma filter_lasting:
  assumes lasting: "lasting L X clk md d" and entry: "only_entry L view k md d"
    and v: "view d k = Some v" and ready: "kdb_ready L X view d"
  shows "ttl_filter L X level key v d \<noteq> (Ok Remove, w)"
proof -
  obtain md' where md': "md_decode L v = Inr md'" using stored_okD [OF kdb_readyD(3) [OF ready] v] by blast
  with v entry have "md' = md" by (auto simp: only_entry_def kdb_lookup_def decode_opt_def)
  with md' lasting_unexpired [OF lasting _ refl] show ?thesis
    by (auto simp: ttl_filter_def io_eqs split: if_splits)
qed

section \<open>The entry of an acknowledged upload\<close>

text \<open>Request \<open>i\<close> has been answered 200 for the metadata \<open>md\<close> under the key \<open>k\<close>.\<close>

definition stored_by ::
  "('pk, 'sig, 'msg, 'z) pay_lib_scheme \<Rightarrow> 's web \<Rightarrow> (nat \<Rightarrow> request) \<Rightarrow> bytes \<Rightarrow> 's site \<Rightarrow> nat \<Rightarrow> bool" where
  "stored_by L W rqs k s i \<longleftrightarrow> route W (rqs i) = KeyResource \<and> rq_method (rqs i) = PUT \<and>
     (\<exists>addr md p rs. screen_put L (rqs i) = Ok (addr, md, p) \<and> body addr = k \<and>
        acts s i = Answered (Ok rs) \<and> status rs = 200)"

definition sole_upload ::
  "('pk, 'sig, 'msg, 'z) pay_lib_scheme \<Rightarrow> (nat \<Rightarrow> request) \<Rightarrow> bytes \<Rightarrow> address_metadata \<Rightarrow> bool" where
  "sole_upload L rqs k md \<longleftrightarrow>
     (\<forall>j addr md' p. screen_put L (rqs j) = Ok (addr, md', p) \<longrightarrow> body addr = k \<longrightarrow> md' = md)"

definition entry_inv ::
  "('pk, 'sig, 'msg, 'z) pay_lib_scheme \<Rightarrow> ('s, 'x) net_sys_scheme \<Rightarrow> settings \<Rightarrow> 's web \<Rightarrow> 's view \<Rightarrow>
     (nat \<Rightarrow> request) \<Rightarrow> bytes \<Rightarrow> address_metadata \<Rightarrow> 's site \<Rightarrow> bool" where
  "entry_inv L X S W view rqs k md s \<longleftrightarrow>
     site_inv L X S W view rqs s \<and> sole_upload L rqs k md \<and>
     only_entry L view k md (world (shop s)) \<and> (\<forall>i. gentle k (acts s i)) \<and> polls_others k (poller s) \<and>
     ((\<exists>i. stored_by L W rqs k s i) \<longrightarrow> kdb_lookup L view (world (shop s)) k = Some md)"

lemma entry_invD:
  assumes "entry_inv L X S W view rqs k md s"
  shows "site_inv L X S W view rqs s" "sole_upload L rqs k md"
    "only_entry L view k md (world (shop s))" "gentle k (acts s i)" "polls_others k (poller s)"
    "stored_by L W rqs k s i \<Longrightarrow> kdb_lookup L view (world (shop s)) k = Some md"
  using assms unfolding entry_inv_def by blast+

lemma entry_kept:
  assumes "only_entry L view k md d" and "kdb_lookup L view d' k = kdb_lookup L view d k \<or> kdb_lookup L view d' k = Some md"
  shows "only_entry L view k md d'" and "kdb_lookup L view d k = Some md \<Longrightarrow> kdb_lookup L view d' k = Some md"
  using assms by (auto simp: only_entry_def)

lemma stored_by_same: "acts t i = acts s i \<Longrightarrow> stored_by L W rqs k t i = stored_by L W rqs k s i"
  by (simp add: stored_by_def)

text \<open>A step that moves no request.\<close>

lemma entry_inv_quiet:
  assumes inv: "entry_inv L X S W view rqs k md s" and site: "site_inv L X S W view rqs t"
    and acts: "acts t = acts s" and poll: "polls_others k (poller t)"
    and kept: "kdb_lookup L view (world (shop t)) k = kdb_lookup L view (world (shop s)) k \<or>
      kdb_lookup L view (world (shop t)) k = Some md"
  shows "entry_inv L X S W view rqs k md t"
proof -
  note inv' = entry_invD [OF inv]
  have "kdb_lookup L view (world (shop t)) k = Some md" if st: "stored_by L W rqs k t i" for i
  proof (rule entry_kept(2) [OF inv'(3) kept], rule inv'(6))
    show "stored_by L W rqs k s i" using st stored_by_same [of t i s L W rqs k] acts by simp
  qed
  with inv'(2,4) site poll acts entry_kept(1) [OF inv'(3) kept] show ?thesis
    unfolding entry_inv_def acts by blast
qed

lemma entry_inv_request:
  assumes inv: "entry_inv L X S W view rqs k md s" and lasting: "lasting L X clk md (world (shop s))"
    and busy: "\<nexists>r. acts s i = Answered r"
    and adv: "advance L X S W (acts s i) (shop s) = (a, st)"
  shows "entry_inv L X S W view rqs k md (act s i a st)"
proof -
  let ?t = "act s i a st"
  note inv' = entry_invD [OF inv] and site = site_invD [OF entry_invD(1) [OF inv]]
  have only: "md' = md" if "screen_put L (rqs j) = Ok (addr', md', p')" "body addr' = k" for j addr' md' p'
    using inv'(2) that unfolding sole_upload_def by blast
  note entry = advance_entry [OF site(3) inv'(4) site(1,2) lasting inv'(3) only adv]
  have "kdb_lookup L view (world st) k = Some md" if st: "stored_by L W rqs k ?t j" for j
  proof (cases "j = i")
    case False
    with st stored_by_same [of ?t j s L W rqs k] have "stored_by L W rqs k s j" by simp
    from entry_kept(2) [OF inv'(3) conjunct1 [OF entry] inv'(6) [OF this]] show ?thesis .
  next
    case True
    with st obtain addr md' p rs where put: "route W (rqs i) = KeyResource" "rq_method (rqs i) = PUT"
        "screen_put L (rqs i) = Ok (addr, md', p)" and k: "body addr = k"
      and dn: "a = Answered (Ok rs)" "status rs = 200"
      by (auto simp: stored_by_def)
    have "acts s i \<noteq> Keying j' (Over r)" for j' r
      using inv'(4) [of i] by (auto simp: gentle_def)
    note stored = advance_stores [OF site(3) busy this site(2) put adv [unfolded dn(1)] dn(2)]
    show ?thesis using stored unfolding only [OF put(3) k] k .
  qed
  moreover have "gentle k (acts ?t j)" for j using inv'(4) entry by simp
  ultimately show ?thesis
    using inv'(2,5) entry_kept(1) [OF inv'(3)] entry
      site_inv_request [OF inv'(1) busy adv] unfolding entry_inv_def by auto
qed

text \<open>The steps that begin before the deadline.\<close>

definition timely ::
  "('pk, 'sig, 'msg, 'z) pay_lib_scheme \<Rightarrow> ('s, 'x) net_sys_scheme \<Rightarrow> settings \<Rightarrow> 's web \<Rightarrow> 's view \<Rightarrow>
     ('s \<Rightarrow> int) \<Rightarrow> address_metadata \<Rightarrow> 's site \<Rightarrow> 's site \<Rightarrow> bool" where
  "timely L X S W view clk md s t \<longleftrightarrow>
     site_step L X S W view s t \<and> lasting L X clk md (world (shop s))"

lemma entry_inv_step:
  assumes inv: "entry_inv L X S W view rqs k md s" and timely: "timely L X S W view clk md s t"
  shows "entry_inv L X S W view rqs k md t"
proof -
  from timely have step: "site_step L X S W view s t" and lasting: "lasting L X clk md (world (shop s))"
    by (simp_all add: timely_def)
  note inv' = entry_invD [OF inv] and site = site_invD [OF entry_invD(1) [OF inv]]
  note site_t = site_inv_step [OF inv'(1) step]
  from step show ?thesis
  proof cases
    case (request i a st)
    with entry_inv_request [OF inv lasting request(2,3)] show ?thesis by (simp add: act_def)
  next
    case (poll p w)
    with poll_advance_entry [OF site(2) site_worldD(2) [OF site(1)] lasting inv'(3,5) poll(2)] site_t
    show ?thesis by (intro entry_inv_quiet [OF inv]) simp_all
  next
    case (compaction k' v level w0 w)
    have "k' \<noteq> k" using filter_lasting [OF lasting inv'(3) _ site(2)] compaction(2,3) by blast
    with kdb_lookup_remove [OF compaction(4), of L] site_t inv'(5) compaction(1) show ?thesis
      by (intro entry_inv_quiet [OF inv]) simp_all
  next
    case (idle w)
    with kdb_lookup_cong [OF idle(2), of L] site_t inv'(5) show ?thesis
      by (intro entry_inv_quiet [OF inv]) simp_all
  qed
qed

interpretation entry: safe_steps "timely L X S W view clk md" "entry_inv L X S W view rqs k md"
  for L X S W view rqs k md clk
  by unfold_locales (rule entry_inv_step)

text \<open>
  C5: an acknowledged upload stays. Under every interleaving, once an upload was answered with
  200 its metadata is what is stored under its address, and remains so as long as the clock has
  not passed its deadline, provided that every other upload for the address carries the same
  metadata and no announcement for the address is polled. The races of \<open>Interleaving\<close> show that
  neither expiry nor another writer can be left out.
\<close>

theorem acknowledged_upload_stays:
  assumes run: "(timely L X S W view clk md)\<^sup>*\<^sup>* (open_site w rqs items) t"
    and empty: "view w = Map.empty" and params: "site_world X W view" "md_roundtrip L"
    and sole: "sole_upload L rqs (body addr) md" and polled: "unannounced (body addr) items"
    and put: "route W (rqs i) = KeyResource" "rq_method (rqs i) = PUT" "screen_put L (rqs i) = Ok (addr, md, p)"
    and dn: "acts t i = Answered (Ok rs)" "status rs = 200"
  shows "kdb_lookup L view (world (shop t)) (body addr) = Some md"
proof -
  have "kdb_lookup L view w k = None" for k using empty by (simp add: kdb_lookup_def)
  then have "entry_inv L X S W view rqs (body addr) md (open_site w rqs items)"
    using open_site_inv [OF params empty] sole polled
    by (simp add: entry_inv_def open_site_def start_server_def only_entry_def gentle_def stored_by_def)
  from entry_invD(6) [OF entry.run_inv [OF run this], of i] put dn show ?thesis
    by (auto simp: stored_by_def)
qed

end
