(* ===== verification/Concurrent_Progress.thy ===== *)
theory Concurrent_Progress
  imports Concurrency
begin

text \<open>
  Progress in the concurrent server of \<open>Concurrency\<close>: every request is answered after a bounded
  number of its own actions, every announcement is treated after a bounded number of actions of
  the polling task, and neither ever waits for another; and the race between two payments.
\<close>

section \<open>Counting the steps that matter\<close>

inductive counted :: "('s \<Rightarrow> 's \<Rightarrow> bool) \<Rightarrow> ('s \<Rightarrow> 's \<Rightarrow> bool) \<Rightarrow> nat \<Rightarrow> 's \<Rightarrow> 's \<Rightarrow> bool"
  for own other where
  still: "counted own other 0 s s"
| other: "counted own other k s t \<Longrightarrow> other t u \<Longrightarrow> counted own other k s u"
| own: "counted own other k s t \<Longrightarrow> own t u \<Longrightarrow> counted own other (Suc k) s u"

text \<open>A measure that own steps lower and other steps do not raise.\<close>

locale measured =
  fixes own :: "'s \<Rightarrow> 's \<Rightarrow> bool"
    and other :: "'s \<Rightarrow> 's \<Rightarrow> bool"
    and left :: "'s \<Rightarrow> nat"
  assumes own_less: "own s t \<Longrightarrow> left t < left s"
    and other_le: "other s t \<Longrightarrow> left t \<le> left s"
begin

lemma bounded: "counted own other k s t \<Longrightarrow> k + left t \<le> left s"
proof (induction rule: counted.induct)
  case (other k s t u)
  with other_le [OF other.hyps(2)] show ?case by linarith
next
  case (own k s t u)
  with own_less [OF own.hyps(2)] show ?case by linarith
qed simp

lemma exhausted: "counted own other (left s) s t \<Longrightarrow> left t = 0"
  using bounded [of "left s" s t] by simp

end

section \<open>Requests\<close>

text \<open>The steps that are actions of request \<open>i\<close>, and all others.\<close>

definition acts_of ::
  "('pk, 'sig, 'msg, 'z) pay_lib_scheme \<Rightarrow> ('s, 'x) net_sys_scheme \<Rightarrow> settings \<Rightarrow> 's web \<Rightarrow> 's view \<Rightarrow>
     nat \<Rightarrow> 's site \<Rightarrow> 's site \<Rightarrow> bool" where
  "acts_of L X S W view i s t \<longleftrightarrow> site_step L X S W view s t \<and> acts t i \<noteq> acts s i"

definition acts_elsewhere ::
  "('pk, 'sig, 'msg, 'z) pay_lib_scheme \<Rightarrow> ('s, 'x) net_sys_scheme \<Rightarrow> settings \<Rightarrow> 's web \<Rightarrow> 's view \<Rightarrow>
     nat \<Rightarrow> 's site \<Rightarrow> 's site \<Rightarrow> bool" where
  "acts_elsewhere L X S W view i s t \<longleftrightarrow> site_step L X S W view s t \<and> acts t i = acts s i"

lemma acts_of_less:
  assumes "acts_of L X S W view i s t"
  shows "effort L (acts t i) < effort L (acts s i)"
proof -
  from assms have step: "site_step L X S W view s t" and moved: "acts t i \<noteq> acts s i"
    by (simp_all add: acts_of_def)
  from step show ?thesis
  proof cases
    case (request j a st)
    with moved have "j = i" by (auto split: if_splits)
    with request advance_less [OF request(3,2)] show ?thesis by simp
  qed (use moved in simp_all)
qed

interpretation request_progress:
  measured "acts_of L X S W view i" "acts_elsewhere L X S W view i" "\<lambda>s. effort L (acts s i)"
  for L X S W view i
  by unfold_locales (rule acts_of_less, assumption, simp add: acts_elsewhere_def)

lemma busy_request_moves:
  assumes "\<nexists>r. acts s i = Answered r"
  shows "\<exists>t. acts_of L X S W view i s t"
proof -
  obtain a st where adv: "advance L X S W (acts s i) (shop s) = (a, st)" by fastforce
  from advance_less [OF adv assms] have "a \<noteq> acts s i" by auto
  with request_step [where view = view, OF assms adv] show ?thesis unfolding acts_of_def by fastforce
qed

text \<open>
  C17: every request is answered. Whatever the other requests, the polling task and compaction
  do in between, a request makes at most five actions of its own, plus one for each output of
  the transaction it pays with; until it is answered its next action is always possible, and
  when it has used them up it is answered. A call of the node is one action: the node is taken
  to answer it.
\<close>

theorem requests_finish:
  assumes run: "counted (acts_of L X S W view i) (acts_elsewhere L X S W view i) k s t"
    and start: "acts s i = Fresh rq"
  shows "k \<le> 5 + (case screen_payment L rq of Ok (payment, tx_raw, tx) \<Rightarrow> length (tx_outputs tx) | _ \<Rightarrow> 0) \<and>
    (k = effort L (Fresh rq) \<longrightarrow> (\<exists>r. acts t i = Answered r)) \<and>
    ((\<exists>r. acts t i = Answered r) \<or> (\<exists>u. acts_of L X S W view i t u))"
proof -
  from request_progress.bounded [OF run] start
  have "k + effort L (acts t i) \<le> effort L (Fresh rq)" by simp
  then have k: "k \<le> effort L (Fresh rq)" and full: "k = effort L (Fresh rq) \<longrightarrow> effort L (acts t i) = 0"
    by linarith+
  with busy_request_moves [of t i L X S W view] effort_0 [of L "acts t i"] show ?thesis by auto
qed

section \<open>The polling task\<close>

definition polls ::
  "('pk, 'sig, 'msg, 'z) pay_lib_scheme \<Rightarrow> ('s, 'x) net_sys_scheme \<Rightarrow> settings \<Rightarrow> 's web \<Rightarrow> 's view \<Rightarrow>
     's site \<Rightarrow> 's site \<Rightarrow> bool" where
  "polls L X S W view s t \<longleftrightarrow> site_step L X S W view s t \<and> poller t \<noteq> poller s"

definition polls_not ::
  "('pk, 'sig, 'msg, 'z) pay_lib_scheme \<Rightarrow> ('s, 'x) net_sys_scheme \<Rightarrow> settings \<Rightarrow> 's web \<Rightarrow> 's view \<Rightarrow>
     's site \<Rightarrow> 's site \<Rightarrow> bool" where
  "polls_not L X S W view s t \<longleftrightarrow> site_step L X S W view s t \<and> poller t = poller s"

lemma polls_less:
  assumes "polls L X S W view s t"
  shows "poll_effort (poller t) < poll_effort (poller s)"
proof -
  from assms have step: "site_step L X S W view s t" and moved: "poller t \<noteq> poller s"
    by (simp_all add: polls_def)
  from step show ?thesis
  proof cases
    case (poll p w)
    have "poll_effort (poller s) \<noteq> 0"
    proof
      assume "poll_effort (poller s) = 0"
      with poll moved show False by (auto simp: poll_effort_0)
    qed
    from poll_advance_less [OF poll(2) this] poll show ?thesis by simp
  qed (use moved in simp_all)
qed

interpretation poll_progress:
  measured "polls L X S W view" "polls_not L X S W view" "\<lambda>s. poll_effort (poller s)"
  for L X S W view
  by unfold_locales (rule polls_less, assumption, simp add: polls_not_def)

text \<open>
  The polling task gets through its stream: at most six actions for each announcement,
  whatever the requests do, and it is never blocked before the end of the stream.
\<close>

theorem polling_finishes:
  assumes run: "counted (polls L X S W view) (polls_not L X S W view) k s t"
    and start: "poller s = Waiting items"
  shows "k \<le> 6 * length items \<and>
    (poller t = Waiting [] \<or> poller t = Halted \<or> (\<exists>u. polls L X S W view t u))"
proof -
  from poll_progress.bounded [OF run] start have k: "k \<le> 6 * length items" by simp
  have "\<exists>u. polls L X S W view t u" if busy: "poll_effort (poller t) \<noteq> 0"
  proof -
    obtain p w where adv: "poll_advance L X (poller t) (world (shop t)) = (p, w)" by fastforce
    from poll_advance_less [OF adv busy] have "p \<noteq> poller t" by auto
    with poll_step [OF adv] show ?thesis unfolding polls_def by fastforce
  qed
  with k show ?thesis by (auto simp: poll_effort_0)
qed

section \<open>Two payments of one invoice\<close>

lemma scan_claims:
  assumes "acts s i = Checking payment tx_raw outs" and "wallet (shop s) = {h}"
    and "\<exists>out \<in> set outs. pays_to out h"
  shows "(site_step L X S W view)\<^sup>*\<^sup>* s (act s i (Claiming payment tx_raw h) (shop s))"
  using assms
proof (induction outs arbitrary: s)
  case (Cons out outs)
  show ?case
  proof (cases "output_hash out = Some h")
    case True
    have "site_step L X S W view s (act s i (Claiming payment tx_raw h) (shop s))"
      by (rule request_step) (use Cons.prems True in auto)
    then show ?thesis by (rule r_into_rtranclp)
  next
    case False
    then have "\<not> pays_to out h"
      by (auto simp: pays_to_def output_hash_def extract_p2pkh)
    with Cons.prems have later: "\<exists>out \<in> set outs. pays_to out h" by simp
    let ?t = "act s i (Checking payment tx_raw outs) (shop s)"
    have "site_step L X S W view s ?t"
      by (rule request_step) (use Cons.prems False in \<open>auto split: option.split\<close>)
    moreover have "(site_step L X S W view)\<^sup>*\<^sup>* ?t (act ?t i (Claiming payment tx_raw h) (shop ?t))"
      by (rule Cons.IH) (use Cons.prems later in simp_all)
    ultimately show ?thesis by (auto intro: converse_rtranclp_into_rtranclp)
  qed
qed simp

lemma payment_claims:
  assumes "acts s i = Fresh rq" and "route W rq = PaymentResource" and "rq_method rq = POST"
    and "screen_payment L rq = Ok (payment, tx_raw, tx)" and "wallet (shop s) = {h}" and "tx_pays tx h"
  shows "(site_step L X S W view)\<^sup>*\<^sup>* s (act s i (Claiming payment tx_raw h) (shop s))"
proof -
  let ?t = "act s i (Checking payment tx_raw (tx_outputs tx)) (shop s)"
  have "site_step L X S W view s ?t"
    by (rule request_step) (use assms in \<open>simp_all add: request_begin_def\<close>)
  moreover have "(site_step L X S W view)\<^sup>*\<^sup>* ?t (act ?t i (Claiming payment tx_raw h) (shop ?t))"
    by (rule scan_claims) (use assms in \<open>simp_all add: tx_pays_def list_ex_iff\<close>)
  ultimately show ?thesis by (auto intro: converse_rtranclp_into_rtranclp)
qed

definition node_takes ::
  "('pk, 'sig, 'msg, 'z) pay_lib_scheme \<Rightarrow> ('s, 'x) net_sys_scheme \<Rightarrow> bytes \<Rightarrow> bool" where
  "node_takes L X tx_raw \<longleftrightarrow> (\<forall>w. \<exists>txid t. send_tx (hex_encode L) X tx_raw w = (Ok txid, t))"

lemma sent:
  assumes "acts s i = Sending payment tx_raw" and "node_takes L X tx_raw"
  obtains st where "site_step L X S W view s (act s i (Answered (receipt L S payment)) st)"
    and "wallet st = wallet (shop s)"
proof -
  from assms(2) obtain txid t where send: "send_tx (hex_encode L) X tx_raw (world (shop s)) = (Ok txid, t)"
    unfolding node_takes_def by blast
  show thesis
    by (rule that [of "(shop s)\<lparr>world := t\<rparr>"], rule request_step)
       (use assms(1) send in \<open>simp_all add: via_def broadcast_def map_err_io_def on_world_def\<close>)
qed

text \<open>One after the other, only the first payment is acknowledged.\<close>

lemma second_refused:
  assumes post: "route W rq = PaymentResource" "rq_method rq = POST"
      "route W rq' = PaymentResource" "rq_method rq' = POST"
    and scr: "screen_payment L rq = Ok (payment, tx_raw, tx)" "screen_payment L rq' = Ok (payment', tx_raw', tx')"
    and single: "wallet st = {h}" and pays: "tx_pays tx h"
  shows "fst (app L X S W rq' (snd (app L X S W rq st))) = Err (Payment InvalidOutputs)"
proof -
  obtain r st' where run: "settle L X S payment tx_raw tx st = (r, st')" by fastforce
  obtain ok w where claim: "check_outputs (wallet st) tx = (ok, w)" by fastforce
  from pays single wallet.claim_iff [of "wallet st" tx] claim have ok by auto
  with wallet.claim_taken [of "wallet st" tx w] claim single have "w = {}" by auto
  with settle_wallet [OF run] claim have st': "wallet st' = {}" by simp
  with wallet.claim_iff [of "{}" tx'] have "check_outputs (wallet st') tx' = (False, snd (check_outputs {} tx'))"
    by (cases "check_outputs {} tx'") auto
  from settle_unpaid [OF this, of L X S payment' tx_raw'] post scr run show ?thesis
    by (simp add: app_def payment_resource_def payment_handler_split)
qed

text \<open>
  C33: one invoice, two receipts. With a single address waiting, two concurrent payments to it
  can both be acknowledged with a token, although one after the other the second would be
  refused: membership and removal are separate critical sections of the wallet's lock.
\<close>

theorem one_invoice_two_receipts:
  assumes ij: "i \<noteq> j" and start: "acts s i = Fresh rq" "acts s j = Fresh rq'"
    and post: "route W rq = PaymentResource" "rq_method rq = POST"
      "route W rq' = PaymentResource" "rq_method rq' = POST"
    and scr: "screen_payment L rq = Ok (payment, tx_raw, tx)" "screen_payment L rq' = Ok (payment', tx_raw', tx')"
    and single: "wallet (shop s) = {h}" and pays: "tx_pays tx h" "tx_pays tx' h"
    and node: "node_takes L X tx_raw" "node_takes L X tx_raw'"
  shows "(\<exists>t. (site_step L X S W view)\<^sup>*\<^sup>* s t \<and> acts t i = Answered (receipt L S payment) \<and>
      acts t j = Answered (receipt L S payment') \<and> wallet (shop t) = {}) \<and>
    fst (app L X S W rq' (snd (app L X S W rq (shop s)))) = Err (Payment InvalidOutputs)"
proof -
  let ?step = "site_step L X S W view" and ?empty = "(shop s)\<lparr>wallet := {}\<rparr>"
  let ?s1 = "act s i (Claiming payment tx_raw h) (shop s)"
  let ?s2 = "act ?s1 j (Claiming payment' tx_raw' h) (shop s)"
  let ?s3 = "act ?s2 i (Sending payment tx_raw) ?empty"
  let ?s4 = "act ?s3 j (Sending payment' tx_raw') ?empty"
  have "?step\<^sup>*\<^sup>* s ?s1" by (rule payment_claims) (use start post scr single pays in auto)
  also have "?step\<^sup>*\<^sup>* ?s1 ?s2"
    using payment_claims [of ?s1 j rq' W L payment' tx_raw' tx' h X S view] ij start post scr single pays
    by simp
  also have "?step\<^sup>*\<^sup>* ?s2 ?s3"
    by (rule r_into_rtranclp, rule request_step)
       (use ij single in \<open>simp_all add: via_def forget_def wallet_remove_def\<close>)
  also have "?step\<^sup>*\<^sup>* ?s3 ?s4"
    by (rule r_into_rtranclp, rule request_step)
       (use ij in \<open>simp_all add: via_def forget_def wallet_remove_def\<close>)
  finally have run: "?step\<^sup>*\<^sup>* s ?s4" .
  obtain st where 5: "?step ?s4 (act ?s4 i (Answered (receipt L S payment)) st)" "wallet st = {}"
    by (rule sent [of ?s4 i payment tx_raw L X S W view, OF _ node(1)]) (use ij in simp_all)
  let ?s5 = "act ?s4 i (Answered (receipt L S payment)) st"
  obtain st' where 6: "?step ?s5 (act ?s5 j (Answered (receipt L S payment')) st')" "wallet st' = {}"
    by (rule sent [of ?s5 j payment' tx_raw' L X S W view, OF _ node(2)]) (use ij 5(2) in simp_all)
  from run 5(1) 6(1) have "?step\<^sup>*\<^sup>* s (act ?s5 j (Answered (receipt L S payment')) st')"
    by (meson rtranclp.rtrancl_into_rtrancl)
  with 6(2) ij second_refused [OF post scr single pays(1)] show ?thesis
    by - (rule conjI, rule exI, rule conjI, assumption, simp_all)
qed

end
