(* ===== verification/Replication.thy ===== *)
theory Replication
  imports Server Expiring_Map
begin

text \<open>
  Two instances of the program side by side. The second follows the transactions of the
  network and polls the first over HTTP: what it fetches is the answer of the first one's own
  application to that request, at that moment. An upload that was paid for at the first
  instance reaches the second.
\<close>

section \<open>Two instances\<close>

definition on_second :: "('b \<Rightarrow> 'r \<times> 'b) \<Rightarrow> 'a \<times> 'b \<Rightarrow> 'r \<times> 'a \<times> 'b" where
  "on_second m ab = (case m (snd ab) of (r, b) \<Rightarrow> (r, fst ab, b))"

text \<open>What the polling client gets for a request, by way of the other application.\<close>

definition fetch_over ::
  "('pk, 'sig, 'msg, 'z) pay_lib_scheme \<Rightarrow> ('a, 'x) net_sys_scheme \<Rightarrow> settings \<Rightarrow> 'a web \<Rightarrow> request \<Rightarrow>
     'a server \<Rightarrow> (ext_error + (ext_error + bytes)) \<times> 'a server" where
  "fetch_over L X S W rq a = (case app L X S W rq a of
     (r, a') \<Rightarrow> (case respond r of None \<Rightarrow> Inl ''connection closed'' | Some rs \<Rightarrow> Inr (Inr (rs_body rs)), a'))"

text \<open>
  The outside world of the second instance: its own database and node, and the first instance
  behind every URL, where \<open>visit\<close> is the request that arrives for it. Time passes for both.
\<close>

definition tandem ::
  "('pk, 'sig, 'msg, 'z) pay_lib_scheme \<Rightarrow> ('a, 'x) net_sys_scheme \<Rightarrow> settings \<Rightarrow> 'a web \<Rightarrow>
     (string \<Rightarrow> request) \<Rightarrow> ('b, 'y) net_sys_scheme \<Rightarrow> ('a server \<times> 'b) net_sys" where
  "tandem L XA SA W visit XB = \<lparr>
     rocks_get = \<lambda>k. on_second (rocks_get XB k),
     rocks_put = \<lambda>k v. on_second (rocks_put XB k v),
     rocks_delete = \<lambda>k. on_second (rocks_delete XB k),
     sys_now = on_second (sys_now XB),
     rpc_finish = rpc_finish XB,
     rpc_send = \<lambda>rq. on_second (rpc_send XB rq),
     peer_send = \<lambda>url ab. (case fetch_over L XA SA W (visit url) (fst ab) of (r, a) \<Rightarrow> (Some r, a, snd ab)),
     sleep_secs = \<lambda>n ab. ((fst ab)\<lparr>world := sleep_secs XA n (world (fst ab))\<rparr>, sleep_secs XB n (snd ab))\<rparr>"

lemma tandem_sel [simp]:
  "rocks_get (tandem L XA SA W visit XB) = (\<lambda>k. on_second (rocks_get XB k))"
  "rocks_put (tandem L XA SA W visit XB) = (\<lambda>k v. on_second (rocks_put XB k v))"
  "rocks_delete (tandem L XA SA W visit XB) = (\<lambda>k. on_second (rocks_delete XB k))"
  "sys_now (tandem L XA SA W visit XB) = on_second (sys_now XB)"
  "rpc_send (tandem L XA SA W visit XB) = (\<lambda>rq. on_second (rpc_send XB rq))"
  "peer_send (tandem L XA SA W visit XB) =
     (\<lambda>url ab. (case fetch_over L XA SA W (visit url) (fst ab) of (r, a) \<Rightarrow> (Some r, a, snd ab)))"
  "sleep_secs (tandem L XA SA W visit XB) =
     (\<lambda>n ab. ((fst ab)\<lparr>world := sleep_secs XA n (world (fst ab))\<rparr>, sleep_secs XB n (snd ab)))"
  by (simp_all add: tandem_def)

text \<open>The laws of the second instance's world carry over.\<close>

lemma tandem_rocks_ok:
  assumes "rocks_ok XB view"
  shows "rocks_ok (tandem L XA SA W visit XB) (\<lambda>ab. view (snd ab))"
  using assms unfolding rocks_ok_def
  by (auto simp: on_second_def split: prod.split) (metis snd_conv)

lemma tandem_isolated:
  assumes "net_isolated XB view"
  shows "net_isolated (tandem L XA SA W visit XB) (\<lambda>ab. view (snd ab))"
  using assms unfolding net_isolated_def
  by (auto simp: on_second_def split: prod.split) (metis snd_conv)

lemma tandem_ready:
  assumes "kdb_ready L' XB view b"
  shows "kdb_ready L' (tandem L XA SA W visit XB) (\<lambda>ab. view (snd ab)) (a, b)"
  using assms unfolding kdb_ready_def by (simp add: kdb_inv_def tandem_rocks_ok)

section \<open>Replication\<close>

text \<open>A read over HTTP of an entry that has not expired, and what the polling client makes of it.\<close>

lemma fetch_entry:
  assumes route: "route W rq = KeyResource" "rq_method rq = GET"
    and db: "rocks_ok XA view" "healthy XA" "steady XA clk" and rt: "md_roundtrip L"
    and addr: "addr_decode L (rq_addr rq) = Inr addr" "kdb_lookup L view (world a) (body addr) = Some md"
    and p: "payload_decode L (serialized_payload md) = Inr p" "sum_in_range p"
      "clk (world a) \<le> sint (timestamp p) + sint (ttl p)"
  obtains rs t where "get_key L XA rq (world a) = (Ok rs, t)" and "view t = view (world a)"
    and "fetch_over L XA SA W rq a = (Inr (Inr (rs_body rs)), a\<lparr>world := t\<rparr>)"
proof -
  from addr(2) obtain v where v: "view (world a) (body addr) = Some v" "md_decode L v = Inr md"
    by (auto simp: kdb_lookup_Some)
  obtain t where t: "kdb_get L XA addr (world a) = (Ok (Some md), t)" "view t = view (world a)"
    by (rule get_before_deadline [OF db v p])
  obtain raw where raw: "md_encode L md = Inr raw" using md_roundtripD [OF rt] by blast
  have get: "get_key L XA rq (world a) = (Ok \<lparr>status = 200, rs_headers = [], rs_body = raw\<rparr>, t)"
    using t addr(1) raw by (simp add: get_key_def try_then_def map_err_io_def)
  then have "app L XA SA W rq a = (Ok \<lparr>status = 200, rs_headers = [], rs_body = raw\<rparr>, a\<lparr>world := t\<rparr>)"
    using route by (simp add: app_def check_payment_def key_resource_def on_world_run)
  with get t(2) that show thesis by (simp add: fetch_over_def)
qed

text \<open>
  C10: a paid upload reaches the other servers. Let the first instance hold an entry under an
  address, and let a transaction pay an invoice of it for that address. When the second
  instance, without an entry of its own, sees this transaction and polls, then provided the
  entry lives for the delay of 30 seconds it holds the very same entry afterwards, and nothing
  else of either database has changed.
\<close>

theorem paid_upload_replicates:
  assumes invoice: "generate_outputs checks h peer k = Ok outs" "length h = 20"
      "map script_pubkey (tx_outputs tx) = map out_script outs"
    and peer: "rust_str peer" "peer \<noteq> []" "length peer \<le> 226" "peer \<noteq> ''http://'' @ bind_addr SB"
    and k: "length k = 20"
    and url: "addr_encode L (dflt\<lparr>body := k, addr_network := into_bch_network (s_network SB)\<rparr>) = Inr str"
      "url_parse L (peer @ ''/keys/'' @ str) = Inr url"
    and arrives: "route W (visit url) = KeyResource" "rq_method (visit url) = GET"
      "addr_decode L (rq_addr (visit url)) = Inr addr" "body addr = k"
    and A: "kdb_ready L XA view_a (world a)" "healthy XA" "steady XA clk" "net_isolated XA view_a"
    and B: "kdb_ready L XB view_b sb" "healthy XB" "net_isolated XB view_b" "view_b sb k = None"
    and entry: "kdb_lookup L view_a (world a) k = Some md"
    and p: "payload_decode L (serialized_payload md) = Inr p" "sum_in_range p"
      "clk (sleep_secs XA VALID_DURATION (world a)) \<le> sint (timestamp p) + sint (ttl p)"
  shows "\<exists>a' sb'.
    peer_polling L (tandem L XA SA W visit XB) (extract_details SB dflt [Inr tx]) (a, sb) =
      (Ok (), (a', sb')) \<and>
    kdb_lookup L view_b sb' = (kdb_lookup L view_b sb)(k \<mapsto> md) \<and>
    kdb_lookup L view_a (world a') = kdb_lookup L view_a (world a)"
proof -
  let ?X = "tandem L XA SA W visit XB" and ?view = "\<lambda>ab. view_b (snd ab)"
  let ?addr = "dflt\<lparr>body := k, addr_network := into_bch_network (s_network SB)\<rparr>"
  have items: "extract_details SB dflt [Inr tx] = [Inr (peer, ?addr)]"
    using invoice_announces [OF invoice peer(1) k peer(2-4), of dflt "[]" "[]"] by simp
  let ?a = "a\<lparr>world := sleep_secs XA VALID_DURATION (world a)\<rparr>"
  have still: "view_a (world ?a) = view_a (world a)" using delay_view [OF A(4)] by simp
  then have lk: "kdb_lookup L view_a (world ?a) (body addr) = Some md"
    using entry arrives(4) by (simp add: kdb_lookup_def)
  have ready: "kdb_ready L XA view_a (world ?a)" by (rule kdb_ready_view [OF still A(1)])
  obtain rs t where get: "get_key L XA (visit url) (world ?a) = (Ok rs, t)" and t: "view_a t = view_a (world ?a)"
    and over: "fetch_over L XA SA W (visit url) ?a = (Inr (Inr (rs_body rs)), ?a\<lparr>world := t\<rparr>)"
    by (rule fetch_entry [OF arrives(1,2) kdb_readyD(1) [OF A(1)] A(2,3) kdb_readyD(2) [OF A(1)]
        arrives(3) lk p(1,2)]) (use p(3) in simp_all)
  let ?b = "sleep_secs XB VALID_DURATION sb" and ?a' = "?a\<lparr>world := t\<rparr>"
  obtain w s2 where g: "rocks_get XB k ?b = (Inr w, s2)" using healthy_get [OF B(2)] by blast
  with rocks_getD [OF kdb_readyD(1) [OF B(1)] g] B(4) delay_view [OF B(3)] have w: "w = None" by auto
  have miss: "rocks_get ?X (body ?addr) (?a', ?b) = (Inr None, (?a', s2))"
    using g w by (simp add: on_second_def)
  have fetched: "peer_send ?X url (sleep_secs ?X VALID_DURATION (a, sb)) = (Some (Inr (Inr (rs_body rs))), (?a', ?b))"
    using over by simp
  have puts: "isl (fst (rocks_put ?X (body ?addr) raw (?a', s2))) = False" for raw
    using healthy_put [OF B(2), of k raw s2] by (auto simp: on_second_def)
  obtain md' u where poll: "poll_item L ?X (Inr (peer, ?addr)) (a, sb) = (Ok (), u)"
    and put: "rocks_put ?X (body ?addr) (rs_body rs) (?a', s2) = (Inr (), u)"
    and same: "kdb_lookup L view_a (world ?a) (body ?addr) = Some md'"
    and new: "kdb_lookup L ?view u = (kdb_lookup L ?view (a, sb))(body ?addr \<mapsto> md')"
    by (rule poll_fetched [OF ready tandem_ready [OF B(1)] get arrives(3) _ url fetched miss puts
          tandem_isolated [OF B(3)]]) (use arrives(4) in simp_all)
  obtain sb' where u: "u = (?a', sb')"
    using put by (auto simp: on_second_def split: prod.splits)
  have "md' = md" using same lk arrives(4) by simp
  with new u have "kdb_lookup L view_b sb' = (kdb_lookup L view_b sb)(k \<mapsto> md)"
    by (simp add: kdb_lookup_def fun_eq_iff)
  moreover have "kdb_lookup L view_a (world ?a') = kdb_lookup L view_a (world a)"
    using t still by (simp add: kdb_lookup_def fun_eq_iff)
  moreover have "peer_polling L ?X (extract_details SB dflt [Inr tx]) (a, sb) = (Ok (), (?a', sb'))"
    unfolding items using poll u by (simp add: try_then_def)
  ultimately show ?thesis by blast
qed

end
