(* ===== verification/Workers.thy ===== *)
theory Workers
  imports Startup
begin

text \<open>
  The worker threads of the HTTP server (\<open>HttpServer::new\<close> in \<open>src/src/main.rs\<close>) and the
  middleware as the object it is (\<open>CheckPayment\<close> and its \<open>Transform\<close> in
  \<open>src/src/net/payments.rs\<close>). A \<open>WalletState\<close> is an \<open>Arc\<close>: a reference to a cell of a heap
  that \<open>clone\<close> copies. The server that runs the factory is actix-web's, a parameter: what it
  documents is one run per worker (\<open>factory_runs\<close>). All workers share the one wallet that
  \<open>main\<close> allocates before, which is what \<open>Server\<close> takes for granted.
\<close>

section \<open>Wallets by reference\<close>

type_synonym wallet_ref = nat

record 's heap =
  cells :: "wallet_ref \<Rightarrow> wallet_state"
  next_cell :: wallet_ref
  outside :: 's

text \<open>\<open>WalletState::default\<close> allocates; \<open>clone\<close> copies the reference.\<close>

definition wallet_default :: "('s heap, wallet_ref, 'e) io" where
  "wallet_default = (\<lambda>hp. (Ok (next_cell hp),
     hp\<lparr>cells := (cells hp)(next_cell hp := default_wallet), next_cell := Suc (next_cell hp)\<rparr>))"

definition wallet_clone :: "wallet_ref \<Rightarrow> wallet_ref" where
  "wallet_clone w = w"

text \<open>A computation over a wallet and the world, on the wallet a reference points to.\<close>

definition at_wallet :: "wallet_ref \<Rightarrow> ('s server, 'a, 'e) io \<Rightarrow> ('s heap, 'a, 'e) io" where
  "at_wallet w m = (\<lambda>hp. case m \<lparr>wallet = cells hp w, world = outside hp\<rparr> of
     (r, st) \<Rightarrow> (r, hp\<lparr>cells := (cells hp)(w := wallet st), outside := world st\<rparr>))"

section \<open>The middleware\<close>

datatype check_payment_t = CheckPayment rpc_client wallet_ref

definition check_payment_new :: "rpc_client \<Rightarrow> wallet_ref \<Rightarrow> check_payment_t" where
  "check_payment_new client wallet_state = CheckPayment client wallet_state"

record 's middleware =
  mw_service :: "'s service"
  mw_client :: rpc_client
  mw_wallet :: wallet_ref

fun new_transform :: "check_payment_t \<Rightarrow> 's service \<Rightarrow> 's middleware" where
  "new_transform (CheckPayment client wallet_state) service =
     \<lparr>mw_service = service, mw_client = client, mw_wallet = wallet_clone wallet_state\<rparr>"

text \<open>\<open>call\<close> runs over the middleware's own client and wallet.\<close>

definition middleware_call ::
  "('pk, 'sig, 'msg, 'z) pay_lib_scheme \<Rightarrow> 's platform \<Rightarrow> 's rocks_handle \<Rightarrow> settings \<Rightarrow>
     's middleware \<Rightarrow> request \<Rightarrow> ('s heap, response, server_error) io" where
  "middleware_call L P key_db S mw rq =
     at_wallet (mw_wallet mw)
       (check_payment L (connect P key_db (mw_client mw)) S (mw_service mw) rq)"

section \<open>The workers\<close>

record 's worker =
  key_service :: "'s middleware"
  payment_data :: "rpc_client \<times> wallet_ref"

text \<open>The factory of \<open>HttpServer::new\<close>: one application from the captured handles.\<close>

definition app_factory ::
  "('pk, 'sig, 'msg, 'z) pay_lib_scheme \<Rightarrow> 's platform \<Rightarrow> 's rocks_handle \<Rightarrow> 's web \<Rightarrow>
     rpc_client \<Rightarrow> wallet_ref \<Rightarrow> ('s heap, 's worker, 'e) io" where
  "app_factory L P key_db W bitcoin_client wallet_state =
     (let wallet_state_inner = wallet_clone wallet_state;
          bitcoin_client_inner = bitcoin_client in
      lift (Ok \<lparr>key_service = new_transform (check_payment_new bitcoin_client_inner (wallet_clone wallet_state_inner))
                  (key_resource L (connect P key_db bitcoin_client_inner) W),
                payment_data = (bitcoin_client_inner, wallet_state_inner)\<rparr>))"

text \<open>
  \<open>main\<close> from the wallet on: one wallet, one client, and the workers that \<open>http_server\<close> makes of
  the factory.
\<close>

definition start_workers ::
  "('pk, 'sig, 'msg, 'z) pay_lib_scheme \<Rightarrow> 's platform \<Rightarrow> 's rocks_handle \<Rightarrow> settings \<Rightarrow> 's web \<Rightarrow>
     (('s heap, 's worker, 'e) io \<Rightarrow> ('s heap, 's worker list, 'e) io) \<Rightarrow>
     ('s heap, 's worker list, 'e) io" where
  "start_workers L P key_db S W http_server =
     try_then wallet_default (\<lambda>wallet_state.
     let bitcoin_client = bitcoin_client_new (node_url ''http'' (node_ip S) (rpc_port S))
           (rpc_username S) (rpc_password S) in
     http_server (app_factory L P key_db W bitcoin_client wallet_state))"

text \<open>Documented behaviour of \<open>HttpServer\<close> with \<open>n\<close> workers: the factory runs once for each.\<close>

primrec factory_runs :: "nat \<Rightarrow> ('s heap, 's worker, 'e) io \<Rightarrow> ('s heap, 's worker list, 'e) io" where
  "factory_runs 0 factory = lift (Ok [])"
| "factory_runs (Suc n) factory =
     try_then factory (\<lambda>wk. try_then (factory_runs n factory) (\<lambda>ws. lift (Ok (wk # ws))))"

text \<open>A request at one worker; static files have no use for the wallet.\<close>

definition worker_call ::
  "('pk, 'sig, 'msg, 'z) pay_lib_scheme \<Rightarrow> 's platform \<Rightarrow> 's rocks_handle \<Rightarrow> settings \<Rightarrow> 's web \<Rightarrow>
     's worker \<Rightarrow> request \<Rightarrow> ('s heap, response, server_error) io" where
  "worker_call L P key_db S W wk rq =
     (case route W rq of
        KeyResource \<Rightarrow> middleware_call L P key_db S (key_service wk) rq
      | PaymentResource \<Rightarrow>
          (case payment_data wk of (client, wallet_state) \<Rightarrow>
            at_wallet wallet_state (payment_resource L (connect P key_db client) S W rq))
      | Elsewhere \<Rightarrow> at_wallet (snd (payment_data wk)) (elsewhere W rq))"

primrec serve_all :: "('q \<Rightarrow> 's \<Rightarrow> 'r \<times> 's) \<Rightarrow> 'q list \<Rightarrow> 's \<Rightarrow> 'r list \<times> 's" where
  "serve_all service [] s = ([], s)"
| "serve_all service (rq # rqs) s =
     (case service rq s of (r, t) \<Rightarrow> (case serve_all service rqs t of (rs, u) \<Rightarrow> (r # rs, u)))"

definition serve_workers ::
  "('pk, 'sig, 'msg, 'z) pay_lib_scheme \<Rightarrow> 's platform \<Rightarrow> 's rocks_handle \<Rightarrow> settings \<Rightarrow> 's web \<Rightarrow>
     's worker list \<Rightarrow> (nat \<times> request) list \<Rightarrow> 's heap \<Rightarrow> (response, server_error) result list \<times> 's heap" where
  "serve_workers L P key_db S W ws =
     serve_all (\<lambda>(i, rq). worker_call L P key_db S W (ws ! i) rq)"

section \<open>All workers are the same application\<close>

definition the_worker ::
  "('pk, 'sig, 'msg, 'z) pay_lib_scheme \<Rightarrow> 's platform \<Rightarrow> 's rocks_handle \<Rightarrow> 's web \<Rightarrow>
     rpc_client \<Rightarrow> wallet_ref \<Rightarrow> 's worker" where
  "the_worker L P key_db W client w =
     \<lparr>key_service = \<lparr>mw_service = key_resource L (connect P key_db client) W, mw_client = client,
        mw_wallet = w\<rparr>, payment_data = (client, w)\<rparr>"

lemma app_factory_run: "app_factory L P key_db W client w = lift (Ok (the_worker L P key_db W client w))"
  by (simp add: app_factory_def the_worker_def check_payment_new_def wallet_clone_def)

lemma factory_runs_pure: "factory_runs n (lift (Ok wk)) = lift (Ok (replicate n wk))"
  by (induction n) simp_all

lemma start_workers_run:
  assumes "\<And>factory. http_server factory = factory_runs n factory"
  shows "start_workers L P key_db S W http_server hp =
     (Ok (replicate n (the_worker L P key_db W (bitcoin_client_new (node_url ''http'' (node_ip S) (rpc_port S))
        (rpc_username S) (rpc_password S)) (next_cell hp))),
      hp\<lparr>cells := (cells hp)(next_cell hp := default_wallet), next_cell := Suc (next_cell hp)\<rparr>)"
  by (simp add: start_workers_def try_then_def wallet_default_def Let_def app_factory_run assms factory_runs_pure)

lemma the_worker_call:
  "worker_call L P key_db S W (the_worker L P key_db W client w) rq =
     at_wallet w (app L (connect P key_db client) S W rq)"
  by (cases "route W rq")
     (simp_all add: worker_call_def the_worker_def middleware_call_def app_def)

text \<open>A list of requests on the wallet a reference points to.\<close>

definition points_to :: "wallet_ref \<Rightarrow> 's heap \<Rightarrow> 's server \<Rightarrow> bool" where
  "points_to w hp st \<longleftrightarrow> cells hp w = wallet st \<and> outside hp = world st"

lemma at_wallet_points:
  assumes "points_to w hp st" and "m st = (r, st')"
  obtains hp' where "at_wallet w m hp = (r, hp')" and "points_to w hp' st'"
proof -
  have "\<lparr>wallet = cells hp w, world = outside hp\<rparr> = st" using assms(1) by (simp add: points_to_def)
  with assms(2) that show thesis by (simp add: at_wallet_def points_to_def)
qed

lemma serve_all_points:
  assumes "points_to w hp st"
    and "\<And>q. q \<in> set qs \<Longrightarrow> f q = at_wallet w (g (h q))"
    and "serve_all g (map h qs) st = (rs, st')"
  shows "\<exists>hp'. serve_all f qs hp = (rs, hp') \<and> points_to w hp' st'"
  using assms
proof (induction qs arbitrary: hp st rs)
  case (Cons q qs)
  obtain r t where r: "g (h q) st = (r, t)" by fastforce
  obtain rs0 where rest: "serve_all g (map h qs) t = (rs0, st')" and rs: "rs = r # rs0"
    using Cons.prems(3) r by (auto split: prod.splits)
  obtain hp1 where one: "at_wallet w (g (h q)) hp = (r, hp1)" and pt: "points_to w hp1 t"
    by (rule at_wallet_points [where m = "g (h q)", OF Cons.prems(1) r])
  have f: "f q = at_wallet w (g (h q))" by (rule Cons.prems(2)) simp
  from Cons.IH [OF pt _ rest] Cons.prems(2) obtain hp' where
    "serve_all f qs hp1 = (rs0, hp')" "points_to w hp' st'" by auto
  with one f rs show ?case by simp
qed auto

text \<open>
  C13: the workers act as one server. However many workers the HTTP server makes and however the requests
  are dealt out to them, the answers and the wallet and world they leave are those of the
  application of \<open>Server\<close> over a single wallet that starts empty; so an invoice that one
  worker hands out can be paid at any other.
\<close>

theorem workers_act_as_one:
  assumes server: "\<And>factory. http_server factory = factory_runs n factory"
    and start: "start_workers L P key_db S W http_server hp = (Ok ws, hp1)"
    and dealt: "\<forall>(i, rq) \<in> set reqs. i < n"
    and one: "serve_all (app L (connect P key_db (bitcoin_client_new (node_url ''http'' (node_ip S) (rpc_port S))
        (rpc_username S) (rpc_password S))) S W) (map snd reqs) (start_server (outside hp)) = (rs, st)"
  shows "\<exists>hp2. serve_workers L P key_db S W ws reqs hp1 = (rs, hp2) \<and>
    outside hp2 = world st \<and> cells hp2 (next_cell hp) = wallet st"
proof -
  let ?c = "bitcoin_client_new (node_url ''http'' (node_ip S) (rpc_port S)) (rpc_username S) (rpc_password S)"
  have ws: "ws = replicate n (the_worker L P key_db W ?c (next_cell hp))"
    and hp1: "points_to (next_cell hp) hp1 (start_server (outside hp))"
    using start by (auto simp: start_workers_run [OF server] points_to_def start_server_def)
  have "(case q of (i, rq) \<Rightarrow> worker_call L P key_db S W (ws ! i) rq) =
      at_wallet (next_cell hp) (app L (connect P key_db ?c) S W (snd q))" if "q \<in> set reqs" for q
    using that dealt by (auto simp: ws the_worker_call split: prod.split)
  from serve_all_points [OF hp1 this one] show ?thesis
    by (auto simp: serve_workers_def points_to_def)
qed

end
