(* ===== verification/Test_Suite.thy ===== *)
theory Test_Suite
  imports Startup Expiring_Map
begin

text \<open>
  The tests of the repository, translated with the rest of the code: the unit tests of
  \<open>src/src/crypto/token.rs\<close>, \<open>src/src/bitcoin/mod.rs\<close> and \<open>src/src/db.rs\<close>, and the tests of the
  handlers in \<open>src/src/net/mod.rs\<close>. A test passes when it returns; a failed assertion or
  \<open>unwrap\<close> panics. They are proved to pass over every library and every world that behaves as
  documented, and not only over the ones they happen to be run with.
\<close>

section \<open>What the tests use beside the program\<close>

record ('pk, 'sig, 'msg, 'sk) test_lib = "('pk, 'sig, 'msg) pay_lib" +
  secp_sign :: "'msg \<Rightarrow> 'sk \<Rightarrow> 'sig"
  sig_serialize :: "'sig \<Rightarrow> bytes"
  payload_encode :: "payload \<Rightarrow> ext_error + bytes"
  base58_encode :: "bytes \<Rightarrow> hash_kind \<Rightarrow> bch_network \<Rightarrow> ext_error + string"
  payment_encode :: "payment_msg \<Rightarrow> ext_error + bytes"
  ack_decode :: "bytes \<Rightarrow> ext_error + payment_ack"
  details_decode :: "bytes \<Rightarrow> ext_error + payment_details"
  request_decode :: "bytes \<Rightarrow> ext_error + payment_request"
  url_parts :: "string \<Rightarrow> string \<times> string \<times> u16 \<times> string"

record 's test_sys = "'s net_sys" +
  thread_sleep :: "u64 \<Rightarrow> 's \<Rightarrow> 's"
  compact_range :: "'s \<Rightarrow> 's"

section \<open>Harness\<close>

definition assert_that :: "bool \<Rightarrow> (unit, 'e) result" where
  "assert_that b = (if b then Ok () else Panic)"

definition effect :: "('s \<Rightarrow> 's) \<Rightarrow> ('s, unit, 'e) io" where
  "effect f = (\<lambda>s. (Ok (), f s))"

text \<open>
  Calling the test application: actix-web turns an error of a handler into its response. A
  test request is made for a path of the test server.
\<close>

definition call_app ::
  "(request \<Rightarrow> ('s, response, server_error) io) \<Rightarrow> request \<Rightarrow> ('s, response, 'e) io" where
  "call_app service rq = (\<lambda>s. case service rq s of
      (Ok rs, t) \<Rightarrow> (Ok rs, t)
    | (Err e, t) \<Rightarrow> (Ok (server_response e), t)
    | (Panic, t) \<Rightarrow> (Panic, t))"

definition test_request ::
  "http_method \<Rightarrow> string \<Rightarrow> (string \<rightharpoonup> bytes) \<Rightarrow> bytes \<Rightarrow> request" where
  "test_request m path hs b =
     \<lparr>rq_method = m, rq_path = path, rq_scheme = ''http'', rq_host = ''localhost:8080'',
      rq_header = hs, rq_addr = drop 6 path, rq_chunks = [Inr b]\<rparr>"

text \<open>A test passes from a state when it returns; the rules run it step by step.\<close>

definition passes :: "('s, unit, unit) io \<Rightarrow> 's \<Rightarrow> bool" where
  "passes m s \<longleftrightarrow> fst (m s) = Ok ()"

lemma passes_step: "m s = (Ok a, t) \<Longrightarrow> passes (f a) t \<Longrightarrow> passes (try_then m f) s"
  by (simp add: passes_def try_then_run)

lemma passes_lift_step: "r = Ok a \<Longrightarrow> passes (f a) s \<Longrightarrow> passes (try_then (lift r) f) s"
  by simp

lemma passes_assert [simp]: "passes (lift (assert_that b)) s \<longleftrightarrow> b"
  by (simp add: passes_def assert_that_def)

lemma passes_assert_step [simp]:
  "passes (try_then (lift (assert_that b)) f) s \<longleftrightarrow> b \<and> passes (f ()) s"
  by (cases b) (simp_all add: assert_that_def passes_def)

lemma passes_effect_step [simp]: "passes (try_then (effect e) f) s \<longleftrightarrow> passes (f ()) (e s)"
  by (simp add: passes_def try_then_def effect_def)

lemma call_app_run:
  "service rq s = (Ok rs, t) \<Longrightarrow> call_app service rq s = (Ok rs, t)"
  "service rq s = (Err e, t) \<Longrightarrow> call_app service rq s = (Ok (server_response e), t)"
  by (simp_all add: call_app_def)

section \<open>Tokens\<close>

definition test_validate ::
  "('pk, 'sig, 'msg, 'z) crypto_lib_scheme \<Rightarrow> bytes \<Rightarrow> (unit, unit) result" where
  "test_validate L secret_key =
     (let msg = as_bytes ''DEADBEEF''; token = generate_token L msg secret_key in
      assert_that (validate_token L msg secret_key token))"

definition test_validate_wrong_sig ::
  "('pk, 'sig, 'msg, 'z) crypto_lib_scheme \<Rightarrow> bytes \<Rightarrow> bytes \<Rightarrow> (unit, unit) result" where
  "test_validate_wrong_sig L secret_a secret_b =
     (let msg = as_bytes ''DEADBEEF''; token = generate_token L msg secret_a in
      assert_that (\<not> validate_token L msg secret_b token))"

definition test_validate_wrong_msg ::
  "('pk, 'sig, 'msg, 'z) crypto_lib_scheme \<Rightarrow> bytes \<Rightarrow> (unit, unit) result" where
  "test_validate_wrong_msg L secret_key =
     (let msg_a = as_bytes ''DEADBEEF''; msg_b = as_bytes ''BEDEAD'';
          token = generate_token L msg_a secret_key in
      assert_that (\<not> validate_token L msg_b secret_key token))"

definition test_validate_wrong_token ::
  "('pk, 'sig, 'msg, 'z) crypto_lib_scheme \<Rightarrow> bytes \<Rightarrow> (unit, unit) result" where
  "test_validate_wrong_token L secret_key =
     (let msg = as_bytes ''DEADBEEF''; token = as_bytes ''BEEFEED'' in
      assert_that (\<not> validate_token L msg secret_key token))"

text \<open>
  The tests of the token pass. The first needs only that the comparison decides equality; the
  others need what they test: different secrets or messages give different tags, and a tag is
  no 7 byte string.
\<close>

theorem token_tests_pass:
  assumes "ct_eq_decides L" and len: "length (hmac_sha256 L secret_a (as_bytes ''DEADBEEF'')) = 32"
    and "hmac_sha256 L secret_a (as_bytes ''DEADBEEF'') \<noteq> hmac_sha256 L secret_b (as_bytes ''DEADBEEF'')"
    and "hmac_sha256 L secret_a (as_bytes ''DEADBEEF'') \<noteq> hmac_sha256 L secret_a (as_bytes ''BEDEAD'')"
  shows "test_validate L secret_a = Ok () \<and> test_validate_wrong_sig L secret_a secret_b = Ok () \<and>
    test_validate_wrong_msg L secret_a = Ok () \<and> test_validate_wrong_token L secret_a = Ok ()"
proof -
  have "length (as_bytes ''BEEFEED'') \<noteq> length (hmac_sha256 L secret_a (as_bytes ''DEADBEEF''))"
    by (simp add: len)
  then have "as_bytes ''BEEFEED'' \<noteq> hmac_sha256 L secret_a (as_bytes ''DEADBEEF'')" by metis
  with assms(3,4) show ?thesis
    unfolding test_validate_def test_validate_wrong_sig_def test_validate_wrong_msg_def
      test_validate_wrong_token_def Let_def validate_token_iff [OF assms(1)] assert_that_def
    by (simp add: generate_token_def)
qed

section \<open>Invoice outputs\<close>

definition test_gen_check_output :: "bool \<Rightarrow> (unit, server_error) result" where
  "test_gen_check_output checks =
     (let pk_hash = replicate 20 3 in
      and_then (generate_outputs checks pk_hash [] pk_hash) (\<lambda>outs.
      and_then (unwrap_opt (get_first outs)) (\<lambda>out.
      and_then (unwrap_opt (amount out)) (\<lambda>paid.
      and_then (assert_that (PRICE = paid)) (\<lambda>_.
      and_then (unwrap_opt (extract_pubkey_hash (out_script out))) (\<lambda>extracted_pkh.
      assert_that (pk_hash = extracted_pkh)))))))"

theorem output_test_passes: "test_gen_check_output checks = Ok ()"
  by (simp add: test_gen_check_output_def generate_outputs_eq add_u8_def assert_that_def extract_p2pkh)

section \<open>Time to live\<close>

definition test_ttl_ok ::
  "('pk, 'sig, 'msg, 'sk, 'z) test_lib_scheme \<Rightarrow> ('s, 'x) test_sys_scheme \<Rightarrow> 'pk \<Rightarrow> ('s, unit, unit) io" where
  "test_ttl_ok T X pk =
     try_then (read_clock X) (\<lambda>now.
     try_then (lift (unix_secs now)) (\<lambda>stamp.
     let p = \<lparr>timestamp = stamp, ttl = 10, entries = []\<rparr> in
     try_then (lift (unwrap (from_sum (payload_encode T p)))) (\<lambda>raw_payload.
     let metadata = \<lparr>pub_key = [], serialized_payload = raw_payload, signature = [], scheme = 1\<rparr>;
         addr = (addr_default T)\<lparr>body := to_raw_address T (secp256k1 T) pk\<rparr> in
     try_then (expect_io (kdb_put T X addr metadata)) (\<lambda>_.
     try_then (expect_io (kdb_get T X addr)) (\<lambda>found.
     try_then (lift (assert_that (found \<noteq> None))) (\<lambda>_.
     try_then (effect (thread_sleep X 12)) (\<lambda>_.
     try_then (effect (compact_range X)) (\<lambda>_.
     try_then (expect_io (kdb_get T X addr)) (\<lambda>found.
     lift (assert_that (found = None)))))))))))"

text \<open>
  Documented behaviour of the encoders, of \<open>thread::sleep\<close>, which sleeps at least as long as
  it is told, and of a compaction, which may only remove entries.
\<close>

definition payloads_roundtrip :: "('pk, 'sig, 'msg, 'sk, 'z) test_lib_scheme \<Rightarrow> bool" where
  "payloads_roundtrip T \<longleftrightarrow>
     (\<forall>p. \<exists>raw. payload_encode T p = Inr raw \<and> payload_decode T raw = Inr p)"

definition sleeps :: "('s, 'x) test_sys_scheme \<Rightarrow> 's view \<Rightarrow> ('s \<Rightarrow> int) \<Rightarrow> bool" where
  "sleeps X view clk \<longleftrightarrow>
     (\<forall>n s. view (thread_sleep X n s) = view s \<and> clk s + uint n \<le> clk (thread_sleep X n s)) \<and>
     (\<forall>k s. clk s \<le> clk (compact_range X s) \<and>
        (view (compact_range X s) k = view s k \<or> view (compact_range X s) k = None))"

lemma sleepsD:
  assumes "sleeps X view clk"
  shows "view (thread_sleep X n s) = view s" and "clk s + uint n \<le> clk (thread_sleep X n s)"
    and "clk s \<le> clk (compact_range X s)"
    and "view (compact_range X s) k = view s k \<or> view (compact_range X s) k = None"
  using assms by (simp_all add: sleeps_def)

text \<open>
  The test of the time to live passes: an entry that lives for 10 seconds is read at once, and
  12 seconds later it is gone, whether the forced compaction removed it or not.
\<close>

theorem ttl_test_passes:
  assumes lib: "md_roundtrip T" "payloads_roundtrip T"
    and db: "rocks_ok X view" "healthy X" and time: "steady X clk" "sleeps X view clk"
    and far: "clk s + 10 < 2 ^ 63"
  shows "passes (test_ttl_ok T X pk) s"
proof -
  let ?p = "\<lparr>timestamp = word_of_int (clk s), ttl = 10, entries = []\<rparr> :: payload"
  let ?a = "(addr_default T)\<lparr>body := to_raw_address T (secp256k1 T) pk\<rparr>"
  obtain raw where raw: "payload_encode T ?p = Inr raw" "payload_decode T raw = Inr ?p"
    using lib(2) unfolding payloads_roundtrip_def by blast
  let ?md = "\<lparr>pub_key = [], serialized_payload = raw, signature = [], scheme = 1\<rparr>"
  note rng = steadyD(2) [OF time(1), of s]
  have now: "sys_now X s = (clk s, s)" and pos: "0 \<le> clk s"
    using steadyD(1) [OF time(1)] rng by (auto simp: clock_in_range_def)
  have deadline: "sint (timestamp ?p) + sint (ttl ?p) = clk s + 10"
    using sint_of_clock [OF rng] by simp
  have p: "payload_decode T (serialized_payload ?md) = Inr ?p" "sum_in_range ?p"
    using raw far pos deadline by (simp_all add: sum_in_range_def)
  obtain t1 v where 1: "kdb_put T X ?a ?md s = (Ok (), t1)" "view t1 = (view s)(body ?a \<mapsto> v)"
      "md_decode T v = Inr ?md" "clk t1 = clk s"
    by (rule put_healthy [OF db time(1) lib(1)])
  obtain t2 where 2: "kdb_get T X ?a t1 = (Ok (Some ?md), t2)" "view t2 = view t1" "clk t2 = clk t1"
    by (rule get_before_deadline [where s = t1 and a = ?a, OF db time(1) _ 1(3) p]) (use 1 deadline in simp_all)
  let ?u = "compact_range X (thread_sleep X 12 t2)"
  have there: "view ?u (body ?a) = Some v \<or> view ?u (body ?a) = None"
    using sleepsD(1) [OF time(2), of 12 t2] sleepsD(4) [OF time(2), of "thread_sleep X 12 t2" "body ?a"] 1 2
    by simp
  have "clk t2 + 12 \<le> clk ?u"
    using sleepsD(2) [OF time(2), of t2 12] sleepsD(3) [OF time(2), of "thread_sleep X 12 t2"] by simp
  then have late: "sint (timestamp ?p) + sint (ttl ?p) < clk ?u" using deadline 1 2 by simp
  obtain t3 where 3: "kdb_get T X ?a ?u = (Ok None, t3)"
    by (rule get_after_deadline [OF db time(1) there 1(3) p late])
  show ?thesis
    using raw 1 2 3
    by (simp add: test_ttl_ok_def passes_def try_then_def now unix_secs_def not_less pos expect_io_def effect_def
        assert_that_def Let_def)
qed

section \<open>Uploads and reads\<close>

definition generate_address_metadata ::
  "('pk, 'sig, 'msg, 'sk, 'z) test_lib_scheme \<Rightarrow> ('s, 'x) db_sys_scheme \<Rightarrow> settings \<Rightarrow> 'sk \<Rightarrow> 'pk \<Rightarrow>
     ('s, string \<times> bytes, 'e) io" where
  "generate_address_metadata T X S sk pk =
     (let pubkey_raw = key_serialize (secp256k1 T) pk;
          address_raw = to_raw_address T (secp256k1 T) pk in
      try_then (lift (unwrap (from_sum
        (base58_encode T address_raw Key (into_bch_network (s_network S)))))) (\<lambda>address_base58.
      let hds = [\<lparr>hd_name = ''Type'', hd_value = ''EgoBoost''\<rparr>];
          es = [\<lparr>kind = ''text_utf8'', headers = hds,
                 entry_data = as_bytes ''This is going to be so much faster than Go''\<rparr>] in
      try_then (read_clock X) (\<lambda>now.
      try_then (lift (unix_secs now)) (\<lambda>stamp.
      let p = \<lparr>timestamp = stamp, ttl = 3000, entries = es\<rparr> in
      try_then (lift (unwrap (from_sum (payload_encode T p)))) (\<lambda>raw_payload.
      try_then (lift (unwrap (from_sum (msg_from_slice T (sha256 T raw_payload))))) (\<lambda>msg.
      let metadata = \<lparr>pub_key = pubkey_raw, serialized_payload = raw_payload,
            signature = sig_serialize T (secp_sign T msg sk), scheme = 1\<rparr> in
      try_then (lift (unwrap (from_sum (md_encode T metadata)))) (\<lambda>metadata_raw.
      lift (Ok (address_base58, metadata_raw)))))))))"

definition key_path :: "string \<Rightarrow> string" where
  "key_path addr = ''/keys/'' @ addr"

definition test_index_put_ok ::
  "('pk, 'sig, 'msg, 'sk, 'z) test_lib_scheme \<Rightarrow> ('s, 'x) db_sys_scheme \<Rightarrow> settings \<Rightarrow> 'sk \<Rightarrow> 'pk \<Rightarrow>
     ('s, unit, unit) io" where
  "test_index_put_ok T X S sk pk =
     try_then (generate_address_metadata T X S sk pk) (\<lambda>(address_base58, metadata_raw).
     let rq = test_request PUT (key_path address_base58) Map.empty metadata_raw in
     try_then (call_app (put_key T X) rq) (\<lambda>resp.
     lift (assert_that (status resp = 200))))"

definition test_index_put_malformed_payload ::
  "('pk, 'sig, 'msg, 'sk, 'z) test_lib_scheme \<Rightarrow> ('s, 'x) db_sys_scheme \<Rightarrow> settings \<Rightarrow> 'sk \<Rightarrow> 'pk \<Rightarrow>
     ('s, unit, unit) io" where
  "test_index_put_malformed_payload T X S sk pk =
     try_then (generate_address_metadata T X S sk pk) (\<lambda>(address_base58, _).
     let rq = test_request PUT (key_path address_base58) Map.empty [2, 3, 5] in
     try_then (call_app (put_key T X) rq) (\<lambda>resp.
     lift (assert_that (status resp = 400))))"

definition test_index_put_invalid_address ::
  "('pk, 'sig, 'msg, 'sk, 'z) test_lib_scheme \<Rightarrow> ('s, 'x) db_sys_scheme \<Rightarrow> settings \<Rightarrow> 'sk \<Rightarrow> 'pk \<Rightarrow>
     ('s, unit, unit) io" where
  "test_index_put_invalid_address T X S sk pk =
     try_then (generate_address_metadata T X S sk pk) (\<lambda>(_, metadata_raw).
     let rq = test_request PUT (key_path ''invalid'') Map.empty metadata_raw in
     try_then (call_app (put_key T X) rq) (\<lambda>resp.
     lift (assert_that (status resp = 400))))"

definition test_index_get_invalid_address ::
  "('pk, 'sig, 'msg, 'sk, 'z) test_lib_scheme \<Rightarrow> ('s, 'x) db_sys_scheme \<Rightarrow> ('s, unit, unit) io" where
  "test_index_get_invalid_address T X =
     (let rq = test_request GET (key_path ''invalid'') Map.empty [] in
      try_then (call_app (get_key T X) rq) (\<lambda>resp.
      lift (assert_that (status resp = 400))))"

definition test_index_get_not_found ::
  "('pk, 'sig, 'msg, 'sk, 'z) test_lib_scheme \<Rightarrow> ('s, 'x) db_sys_scheme \<Rightarrow> settings \<Rightarrow> 'sk \<Rightarrow> 'pk \<Rightarrow>
     ('s, unit, unit) io" where
  "test_index_get_not_found T X S sk pk =
     try_then (generate_address_metadata T X S sk pk) (\<lambda>(address_base58, _).
     let rq = test_request GET (key_path address_base58) Map.empty [] in
     try_then (call_app (get_key T X) rq) (\<lambda>resp.
     lift (assert_that (status resp = 404))))"

definition test_index_put_get ::
  "('pk, 'sig, 'msg, 'sk, 'z) test_lib_scheme \<Rightarrow> ('s, 'x) db_sys_scheme \<Rightarrow> settings \<Rightarrow> 'sk \<Rightarrow> 'pk \<Rightarrow>
     ('s, unit, unit) io" where
  "test_index_put_get T X S sk pk =
     try_then (generate_address_metadata T X S sk pk) (\<lambda>(address_base58, metadata_raw).
     let rq = test_request PUT (key_path address_base58) Map.empty metadata_raw in
     try_then (call_app (put_key T X) rq) (\<lambda>resp.
     try_then (lift (assert_that (status resp = 200))) (\<lambda>_.
     let rq = test_request GET (key_path address_base58) Map.empty [] in
     try_then (call_app (get_key T X) rq) (\<lambda>resp.
     try_then (lift (assert_that (status resp = 200))) (\<lambda>_.
     lift (assert_that (rs_body resp = metadata_raw)))))))"

text \<open>
  What the fixture relies on: a generated pair signs and verifies, a public key hash has 20
  bytes, and an address of it is written in the Base58 alphabet and read back.
\<close>

definition keypair_ok :: "('pk, 'sig, 'msg, 'sk, 'z) test_lib_scheme \<Rightarrow> 'sk \<Rightarrow> 'pk \<Rightarrow> bool" where
  "keypair_ok T sk pk \<longleftrightarrow>
     pk_from_slice T (pk_serialize T pk) = Inr pk \<and> length (hash160 T (pk_serialize T pk)) = 20 \<and>
     (\<forall>m. sig_from_compact T (sig_serialize T (secp_sign T m sk)) = Inr (secp_sign T m sk) \<and>
          secp_verify T m (secp_sign T m sk) pk = Inr ())"

definition base58_alphabet :: string where
  "base58_alphabet = ''123456789ABCDEFGHJKLMNPQRSTUVWXYZabcdefghijkmnopqrstuvwxyz''"

text \<open>
  Base58 gives the hash and its kind back. It does not give the network back: \<open>Test\<close> and
  \<open>Regtest\<close> share their version byte.
\<close>

definition addresses_roundtrip :: "('pk, 'sig, 'msg, 'sk, 'z) test_lib_scheme \<Rightarrow> bool" where
  "addresses_roundtrip T \<longleftrightarrow>
     (\<forall>h n. length h = 20 \<longrightarrow> (\<exists>s a. base58_encode T h Key n = Inr s \<and> set s \<subseteq> set base58_alphabet \<and>
        addr_decode T s = Inr a \<and> body a = h \<and> hash_type a = Key))"

definition fixtures_ok :: "('pk, 'sig, 'msg, 'sk, 'z) test_lib_scheme \<Rightarrow> 'sk \<Rightarrow> 'pk \<Rightarrow> bool" where
  "fixtures_ok T sk pk \<longleftrightarrow> md_roundtrip T \<and> payloads_roundtrip T \<and> addresses_roundtrip T \<and>
     digests_accepted T \<and> keypair_ok T sk pk"

text \<open>What \<open>generate_address_metadata\<close> makes at clock reading \<open>n\<close>.\<close>

definition fixture ::
  "('pk, 'sig, 'msg, 'sk, 'z) test_lib_scheme \<Rightarrow> 'pk \<Rightarrow> int \<Rightarrow> string \<times> bytes \<Rightarrow> address \<Rightarrow>
     address_metadata \<Rightarrow> payload \<Rightarrow> bool" where
  "fixture T pk n f a md p \<longleftrightarrow>
     addr_decode T (fst f) = Inr a \<and> body a = hash160 T (pk_serialize T pk) \<and>
     set (fst f) \<subseteq> set base58_alphabet \<and> length (body a) = 20 \<and>
     md_encode T md = Inr (snd f) \<and> md_decode T (snd f) = Inr md \<and> scheme md = 1 \<and>
     authentic T (body a) md \<and> payload_decode T (serialized_payload md) = Inr p \<and>
     timestamp p = word_of_int n \<and> ttl p = 3000"

lemma generate_fixture:
  assumes lib: "fixtures_ok T sk pk" and now: "sys_now X s = (n, t)" and pos: "0 \<le> n"
  obtains f a md p where "fixture T pk n f a md p"
    and "generate_address_metadata T X S sk pk s = (Ok f, t)"
proof -
  let ?h = "hash160 T (pk_serialize T pk)"
  let ?p = "\<lparr>timestamp = word_of_int n, ttl = 3000, entries = [\<lparr>kind = ''text_utf8'',
    headers = [\<lparr>hd_name = ''Type'', hd_value = ''EgoBoost''\<rparr>],
    entry_data = as_bytes ''This is going to be so much faster than Go''\<rparr>]\<rparr> :: payload"
  from lib have pair: "pk_from_slice T (pk_serialize T pk) = Inr pk" and len: "length ?h = 20"
    and sig: "\<And>m. sig_from_compact T (sig_serialize T (secp_sign T m sk)) = Inr (secp_sign T m sk)"
      "\<And>m. secp_verify T m (secp_sign T m sk) pk = Inr ()"
    by (simp_all add: fixtures_ok_def keypair_ok_def)
  obtain str a where a: "base58_encode T ?h Key (into_bch_network (s_network S)) = Inr str"
      "set str \<subseteq> set base58_alphabet" "addr_decode T str = Inr a" "body a = ?h"
    using lib len unfolding fixtures_ok_def addresses_roundtrip_def by blast
  obtain raw where raw: "payload_encode T ?p = Inr raw" "payload_decode T raw = Inr ?p"
    using lib unfolding fixtures_ok_def payloads_roundtrip_def by blast
  obtain msg where msg: "msg_from_slice T (sha256 T raw) = Inr msg"
    using lib digests_acceptedD unfolding fixtures_ok_def by blast
  let ?md = "\<lparr>pub_key = pk_serialize T pk, serialized_payload = raw,
    signature = sig_serialize T (secp_sign T msg sk), scheme = 1\<rparr>"
  obtain mdr where md: "md_encode T ?md = Inr mdr" "md_decode T mdr = Inr ?md"
    using lib md_roundtripD unfolding fixtures_ok_def by blast
  have "authentic T ?h ?md" by (simp add: authentic_def pair sig msg)
  with a raw md len have "fixture T pk n (str, mdr) a ?md ?p" by (simp add: fixture_def)
  moreover have "generate_address_metadata T X S sk pk s = (Ok (str, mdr), t)"
    using a raw msg md pos now
    by (simp add: generate_address_metadata_def try_then_def unix_secs_def Let_def secp256k1_def
        secp_key_serialize_def to_raw_address_def)
  ultimately show thesis using that by blast
qed

text \<open>An upload of a fixture to an address without entry, and a read of it.\<close>

lemma fixtureD:
  assumes "fixture T pk n f a md p"
  shows "addr_decode T (fst f) = Inr a" and "body a = hash160 T (pk_serialize T pk)"
    and "md_encode T md = Inr (snd f)" and "md_decode T (snd f) = Inr md" and "scheme md = 1"
    and "authentic T (body a) md" and "payload_decode T (serialized_payload md) = Inr p"
    and "timestamp p = word_of_int n" and "ttl p = 3000" and "length (body a) = 20"
    and "set (fst f) \<subseteq> set base58_alphabet"
  using assms unfolding fixture_def by blast+

lemma put_fixture:
  assumes fx: "fixture T pk n f a md p" and ok: "rocks_ok X view" and h: "healthy X" and st: "steady X clk"
    and none: "view s (body a) = None"
    and rq: "rq_addr rq = fst f" "rq_chunks rq = [Inr (snd f)]"
  obtains t where "put_key T X rq s = (Ok \<lparr>status = 200, rs_headers = [], rs_body = []\<rparr>, t)"
    and "view t = (view s)(body a \<mapsto> snd f)" and "clk t = clk s"
proof -
  have screen: "screen_put T rq = Ok (a, md, p)"
    using fixtureD [OF fx] rq by (simp add: screen_put_Ok)
  obtain w s1 where g: "rocks_get X (body a) s = (Inr w, s1)" using healthy_get [OF h] by blast
  with rocks_getD [OF ok g] none have w: "w = None" and v1: "view s1 = view s" by auto
  have check: "check_timestamp T X a p s = (Ok (Inr ()), s1)"
    using kdb_get_absent [OF g [unfolded w], of T] by (simp add: check_timestamp_def try_then_def)
  obtain t where put: "rocks_put X (body a) (snd f) s1 = (Inr (), t)" using healthy_put [OF h] by blast
  have "kdb_put T X a md s1 = (Ok (), t)"
    using fixtureD(3) [OF fx] put by (simp add: kdb_put_def from_sum_io_def)
  with check screen have "put_key T X rq s = (Ok \<lparr>status = 200, rs_headers = [], rs_body = []\<rparr>, t)"
    by (simp add: put_key_split store_put_Ok)
  moreover have "view t = (view s)(body a \<mapsto> snd f)" using rocks_putD [OF ok put] v1 by simp
  moreover have "clk t = clk s" using steadyD(3) [OF st g] steadyD(4) [OF st put] by simp
  ultimately show thesis using that by blast
qed

lemma fixture_in_range:
  assumes fx: "fixture T pk n f a md p" and "clock_in_range n" and "n + 3000 < 2 ^ 63"
  shows "sum_in_range p" and "sint (timestamp p) + sint (ttl p) = n + 3000"
proof -
  show sum: "sint (timestamp p) + sint (ttl p) = n + 3000"
    using fixtureD(8,9) [OF fx] sint_of_clock [OF assms(2)] by simp
  show "sum_in_range p" unfolding sum_in_range_def sum using assms(2,3) by (simp add: clock_in_range_def)
qed

lemma get_fixture:
  assumes fx: "fixture T pk n f a md p" and db: "rocks_ok X view" "healthy X" and st: "steady X clk"
    and stored: "view s (body a) = Some (snd f)" and rng: "clock_in_range n" "n + 3000 < 2 ^ 63"
    and time: "clk s \<le> n + 3000" and rq: "rq_addr rq = fst f"
  obtains t where "get_key T X rq s = (Ok \<lparr>status = 200, rs_headers = [], rs_body = snd f\<rparr>, t)"
proof -
  note p = fixture_in_range [OF fx rng]
  obtain t where "kdb_get T X a s = (Ok (Some md), t)"
    by (rule get_before_deadline [where s = s and a = a, OF db st stored fixtureD(4) [OF fx] fixtureD(7) [OF fx] p(1)])
       (use time p in simp_all)
  with fixtureD [OF fx] rq that show thesis
    by (simp add: get_key_def try_then_def map_err_io_def)
qed

lemma test_request_sel [simp]:
  "rq_method (test_request m path hs b) = m"
  "rq_path (test_request m path hs b) = path" "rq_scheme (test_request m path hs b) = ''http''"
  "rq_host (test_request m path hs b) = ''localhost:8080''"
  "rq_header (test_request m path hs b) = hs"
  "rq_addr (test_request m (key_path a) hs b) = a" "rq_chunks (test_request m path hs b) = [Inr b]"
  by (simp_all add: test_request_def key_path_def)

lemma test_call:
  assumes "service rq s = (r, t)" and "r \<noteq> Panic"
  shows "call_app service rq s =
    (Ok (case r of Ok rs \<Rightarrow> rs | Err e \<Rightarrow> server_response e), t)"
  using assms by (cases r) (simp_all add: call_app_def)

text \<open>
  C31: the tests of the key handlers pass. Over every lawful library and database, from any state
  in which the fresh key has no entry: an upload is answered 200, one that is no protobuf
  message or whose path is no address 400, a read of a wrong path 400, of a key without entry
  404, and a read after an upload returns the very bytes that were uploaded.
\<close>

theorem index_tests_pass:
  assumes lib: "fixtures_ok T sk pk" and db: "rocks_ok X view" "healthy X" and st: "steady X clk"
    and far: "clk s + 3000 < 2 ^ 63"
    and none: "view s (hash160 T (pk_serialize T pk)) = None"
    and junk: "isl (md_decode T [2, 3, 5])" "isl (addr_decode T ''invalid'')"
  shows "passes (test_index_put_ok T X S sk pk) s \<and>
    passes (test_index_put_malformed_payload T X S sk pk) s \<and>
    passes (test_index_put_invalid_address T X S sk pk) s \<and>
    passes (test_index_get_invalid_address T X) s \<and>
    passes (test_index_get_not_found T X S sk pk) s \<and>
    passes (test_index_put_get T X S sk pk) s"
proof -
  note rng = steadyD(2) [OF st, of s]
  have pos: "0 \<le> clk s" using rng by (simp add: clock_in_range_def)
  obtain f a md p where fx: "fixture T pk (clk s) f a md p"
    and gen: "generate_address_metadata T X S sk pk s = (Ok f :: (string \<times> bytes, unit) result, s)"
    by (rule generate_fixture [OF lib steadyD(1) [OF st] pos])
  obtain addr raw where f: "f = (addr, raw)" by fastforce
  note fxD = fixtureD [OF fx, unfolded f fst_conv snd_conv]
  have absent: "view s (body a) = None" using none fxD(2) by simp
  let ?put = "test_request PUT (key_path addr) Map.empty raw"
  obtain t where put: "put_key T X ?put s = (Ok \<lparr>status = 200, rs_headers = [], rs_body = []\<rparr>, t)"
    and vt: "view t = (view s)(body a \<mapsto> raw)" "clk t = clk s"
    by (rule put_fixture [OF fx db st absent, of ?put]) (simp_all add: f)
  let ?get = "test_request GET (key_path addr) Map.empty []"
  obtain u where get: "get_key T X ?get t = (Ok \<lparr>status = 200, rs_headers = [], rs_body = raw\<rparr>, u)"
    by (rule get_fixture [OF fx db st, of t ?get]) (use vt rng far in \<open>simp_all add: f\<close>)
  obtain w q where miss: "rocks_get X (body a) s = (w, q)" by fastforce
  with rocks_getD(2) [OF db(1) miss] absent healthy_get [OF db(2), of "body a" s] have "w = Inr None" by auto
  note missed = kdb_get_absent [OF miss [unfolded this], of T]
  have none: "get_key T X ?get s = (Err NotFound, q)"
    using missed fxD(1) by (simp add: get_key_def try_then_def map_err_io_def)
  obtain x y where junk1: "md_decode T [2, 3, 5] = Inl x" and junk2: "addr_decode T ''invalid'' = Inl y"
    using junk by (auto simp: isl_def)
  have bad1: "put_key T X (test_request PUT (key_path addr) Map.empty [2, 3, 5]) s = (Err MetadataDecode, s)"
    by (simp add: put_key_def junk1)
  have bad2: "put_key T X (test_request PUT (key_path ''invalid'') Map.empty raw) s = (Err (from_address_errors y), s)"
    by (simp add: put_key_def fxD(4) junk2)
  have bad3: "get_key T X (test_request GET (key_path ''invalid'') Map.empty []) s = (Err (from_address_errors y), s)"
    by (simp add: get_key_def junk2)
  have y: "status (server_response (from_address_errors y)) = 400"
    by (cases y) (simp add: from_address_errors_def)
  show ?thesis
    using gen put get none bad1 bad2 bad3 y
    by (simp add: passes_def try_then_def f call_app_def assert_that_def Let_def
        test_index_put_ok_def test_index_put_malformed_payload_def test_index_put_invalid_address_def
        test_index_get_invalid_address_def test_index_get_not_found_def test_index_put_get_def)
qed

end
