(* ===== verification/Test_Node.thy ===== *)
theory Test_Node
  imports Test_Suite Complex_Main
begin

text \<open>
  \<open>generate_raw_tx\<close> of the tests in \<open>src/src/net/payments.rs\<close>: a regtest node is asked for an
  unspent output, for a transaction that spends it to an address, and for the signature. The
  node, its JSON answers and hexadecimal are parameters.
\<close>

section \<open>The node\<close>

datatype json = JString string | JUInt u32 | JDecimal rat | JArray "json list" |
  JObject "(string \<times> json) list"

record outpoint =
  txid :: string
  vout :: u32
  op_amount :: rat
  op_address :: string

record signed_hex =
  hex :: string

record ('s, 'j) test_node =
  tn_finish :: "string \<Rightarrow> json list \<Rightarrow> ext_error + string \<times> json list"
  tn_send :: "string \<times> json list \<Rightarrow> 's \<Rightarrow> (ext_error + 'j) \<times> 's"
  into_outpoints :: "'j \<Rightarrow> (ext_error + outpoint list) option"
  into_string :: "'j \<Rightarrow> (ext_error + string) option"
  into_signed :: "'j \<Rightarrow> (ext_error + signed_hex) option"
  hex_decode :: "string \<Rightarrow> ext_error + bytes"

text \<open>A request that is built, sent and read, every step unwrapped.\<close>

definition ask ::
  "('s, 'j, 'z) test_node_scheme \<Rightarrow> ('j \<Rightarrow> (ext_error + 'a) option) \<Rightarrow> string \<Rightarrow> json list \<Rightarrow>
     ('s, 'a, 'e) io" where
  "ask N into_result method params =
     try_then (lift (unwrap (from_sum (tn_finish N method params)))) (\<lambda>req.
     try_then (expect_io (from_sum_io (tn_send N req))) (\<lambda>response.
     try_then (lift (unwrap_opt (into_result response))) (\<lambda>res.
     lift (unwrap (from_sum res)))))"

definition coins :: "int \<Rightarrow> rat" where
  "coins sat = of_int sat / 100000000"

definition generate_raw_tx ::
  "('pk, 'sig, 'msg, 'sk, 'y) test_lib_scheme \<Rightarrow> ('s, 'j, 'z) test_node_scheme \<Rightarrow> settings \<Rightarrow> bytes \<Rightarrow>
     ('s, bytes, 'e) io" where
  "generate_raw_tx T N S recv_addr =
     try_then (ask N (into_outpoints N) ''listunspent'' []) (\<lambda>utxos.
     try_then (lift (unwrap_opt (get_first utxos))) (\<lambda>utxo.
     let inputs_json = JArray [JObject [(''txid'', JString (txid utxo)), (''vout'', JUInt (vout utxo))]];
         bitcoin_amount = coins (uint PRICE);
         fee = coins 400;
         change = op_amount utxo - bitcoin_amount - fee in
     try_then (lift (unwrap (from_sum
       (base58_encode T recv_addr Key (into_bch_network (s_network S)))))) (\<lambda>recv.
     let outputs_json = JArray [JObject [(recv, JDecimal bitcoin_amount)],
           JObject [(op_address utxo, JDecimal change)]] in
     try_then (ask N (into_string N) ''createrawtransaction'' [inputs_json, outputs_json]) (\<lambda>unsigned_raw_tx.
     try_then (ask N (into_signed N) ''signrawtransactionwithwallet'' [JString unsigned_raw_tx]) (\<lambda>signed.
     lift (unwrap (from_sum (hex_decode N (hex signed)))))))))"

section \<open>Documented behaviour\<close>

text \<open>
  A regtest node whose wallet has coins, asked for one payment at a time; there the client
  builds any request with a method. \<open>held w\<close> are the hashes of the addresses that have unspent
  outputs in the state \<open>w\<close>.

  \<open>listunspent\<close> lists an output \<open>u\<close> of the wallet, at one of these addresses, worth more than the
  price and the fee. Then \<open>createrawtransaction\<close> over exactly this output drafts a transaction
  with at most two outputs to different addresses, each \<open>u\<close>'s own or a base58 address of the
  node's network, of positive amounts that leave 400 satoshi of \<open>u\<close> as the fee;
  \<open>signrawtransactionwithwallet\<close> signs this draft, because the wallet has the key of \<open>u\<close>; what it
  answers is the hexadecimal form of a transaction with these outputs; and
  \<open>sendrawtransaction\<close> accepts this transaction (a regtest node has no dust limit).
\<close>

definition output_json :: "string \<times> rat \<Rightarrow> json" where
  "output_json o' = JObject [(fst o', JDecimal (snd o'))]"

definition input_json :: "outpoint \<Rightarrow> json" where
  "input_json u = JObject [(''txid'', JString (txid u)), (''vout'', JUInt (vout u))]"

definition destination :: "('pk, 'sig, 'msg, 'sk, 'y) test_lib_scheme \<Rightarrow> string \<Rightarrow> bytes option" where
  "destination T a = (case addr_decode T a of Inl _ \<Rightarrow> None | Inr addr \<Rightarrow> Some (body addr))"

definition fundable ::
  "('pk, 'sig, 'msg, 'sk, 'y) test_lib_scheme \<Rightarrow> settings \<Rightarrow> outpoint \<Rightarrow> (string \<times> rat) list \<Rightarrow> bool" where
  "fundable T S u outs \<longleftrightarrow>
     length outs \<le> 2 \<and> distinct (map (\<lambda>o'. destination T (fst o')) outs) \<and>
     (\<forall>(a, x) \<in> set outs. 0 < x \<and>
        (a = op_address u \<or> (\<exists>h. base58_encode T h Key (into_bch_network (s_network S)) = Inr a))) \<and>
     sum_list (map snd outs) + coins 400 = op_amount u"

definition pays_all ::
  "('pk, 'sig, 'msg, 'sk, 'y) test_lib_scheme \<Rightarrow> (string \<times> rat) list \<Rightarrow> transaction \<Rightarrow> bool" where
  "pays_all T outs tx \<longleftrightarrow>
     (\<forall>(a, x) \<in> set outs. \<forall>addr. addr_decode T a = Inr addr \<and> hash_type addr = Key \<longrightarrow>
        \<lparr>txo_value = word_of_int \<lfloor>x * 100000000\<rfloor>, script_pubkey = p2pkh_script (body addr)\<rparr> \<in> set (tx_outputs tx))"

text \<open>The three answers to the requests for one payment, from the state after the listing on.\<close>

definition spends ::
  "('pk, 'sig, 'msg, 'sk, 'y) test_lib_scheme \<Rightarrow> ('s, 'x) net_sys_scheme \<Rightarrow> ('s, 'j, 'z) test_node_scheme \<Rightarrow>
     's view \<Rightarrow> outpoint \<Rightarrow> (string \<times> rat) list \<Rightarrow> 's \<Rightarrow> bool" where
  "spends T X N view u outs t1 \<longleftrightarrow>
     (\<exists>j2 t2 draft j3 t3 sh raw tx txid t4.
        tn_send N (''createrawtransaction'', [JArray [input_json u], JArray (map output_json outs)]) t1 = (Inr j2, t2) \<and>
        into_string N j2 = Some (Inr draft) \<and>
        tn_send N (''signrawtransactionwithwallet'', [JString draft]) t2 = (Inr j3, t3) \<and>
        into_signed N j3 = Some (Inr sh) \<and> view t3 = view t1 \<and>
        hex_decode N (hex sh) = Inr raw \<and> tx_deserialize T raw = Inr tx \<and> pays_all T outs tx \<and>
        send_tx (hex_encode T) X raw t3 = (Ok txid, t4))"

definition regtest_ok ::
  "('pk, 'sig, 'msg, 'sk, 'y) test_lib_scheme \<Rightarrow> ('s, 'x) net_sys_scheme \<Rightarrow> ('s, 'j, 'z) test_node_scheme \<Rightarrow>
     settings \<Rightarrow> 's view \<Rightarrow> ('s \<Rightarrow> bytes set) \<Rightarrow> bool" where
  "regtest_ok T X N S view held \<longleftrightarrow>
     (\<forall>m ps. tn_finish N m ps = Inr (m, ps)) \<and>
     (\<forall>w. \<exists>j t u us own. tn_send N (''listunspent'', []) w = (Inr j, t) \<and> view t = view w \<and>
        into_outpoints N j = Some (Inr (u # us)) \<and> coins (uint PRICE + 400) < op_amount u \<and>
        destination T (op_address u) = Some own \<and> own \<in> held w \<and>
        (\<forall>outs. fundable T S u outs \<longrightarrow> spends T X N view u outs t))"

lemma regtest_okD:
  assumes "regtest_ok T X N S view held"
  shows "tn_finish N m ps = Inr (m, ps)"
    and "\<exists>j t u us own. tn_send N (''listunspent'', []) w = (Inr j, t) \<and> view t = view w \<and>
      into_outpoints N j = Some (Inr (u # us)) \<and> coins (uint PRICE + 400) < op_amount u \<and>
      destination T (op_address u) = Some own \<and> own \<in> held w \<and>
      (\<forall>outs. fundable T S u outs \<longrightarrow> spends T X N view u outs t)"
  using assms unfolding regtest_ok_def by blast+

lemma ask_run:
  assumes "tn_finish N m ps = Inr rq" and "tn_send N rq w = (Inr j, t)" and "into_result j = Some (Inr a)"
  shows "ask N into_result m ps w = (Ok a, t)"
  using assms by (simp add: ask_def try_then_def from_sum_io_def expect_io_def)

section \<open>The transaction pays the address\<close>

lemma coins_sat: "\<lfloor>coins sat * 100000000\<rfloor> = sat"
  by (simp add: coins_def)

text \<open>
  A transaction of \<open>generate_raw_tx\<close> for an address without unspent outputs has an output of
  exactly the price to its hash, and the node accepts it.
\<close>

lemma raw_tx_pays:
  assumes node: "regtest_ok T X N S view held" and addrs: "addresses_roundtrip T"
    and h: "length h = 20" "h \<notin> held w"
  obtains raw t tx tid t' where "generate_raw_tx T N S h w = (Ok raw, t)" and "view t = view w"
    and "tx_deserialize T raw = Inr tx"
    and "\<lparr>txo_value = PRICE, script_pubkey = p2pkh_script h\<rparr> \<in> set (tx_outputs tx)"
    and "send_tx (hex_encode T) X raw t = (Ok tid, t')"
proof -
  obtain j1 t1 u us own where unspent: "tn_send N (''listunspent'', []) w = (Inr j1, t1)" "view t1 = view w"
    "into_outpoints N j1 = Some (Inr (u # us))" "coins (uint PRICE + 400) < op_amount u"
    and own: "destination T (op_address u) = Some own" "own \<in> held w"
    and funded: "\<And>outs. fundable T S u outs \<Longrightarrow> spends T X N view u outs t1"
    using regtest_okD(2) [OF node, of w] by blast
  obtain str a where recv: "base58_encode T h Key (into_bch_network (s_network S)) = Inr str"
    "addr_decode T str = Inr a" "body a = h" "hash_type a = Key"
    using addrs h(1) unfolding addresses_roundtrip_def by blast
  let ?change = "op_amount u - coins (uint PRICE) - coins 400"
  let ?outs = "[(str, coins (uint PRICE)), (op_address u, ?change)]"
  have sum: "coins (uint PRICE + 400) = coins (uint PRICE) + coins 400"
    by (simp add: coins_def add_divide_distrib)
  have "destination T str \<noteq> destination T (op_address u)"
    using own h(2) recv(2,3) by (auto simp: destination_def)
  moreover have "0 < coins (uint PRICE)" by (simp add: coins_def PRICE_def)
  ultimately have "fundable T S u ?outs" using recv(1) unspent(4) sum by (auto simp: fundable_def)
  from funded [OF this, unfolded spends_def output_json_def input_json_def list.map fst_conv snd_conv]
  obtain j2 t2 draft j3 t3 sh raw tx tid t4 where
    made: "tn_send N (''createrawtransaction'', [JArray [JObject [(''txid'', JString (txid u)), (''vout'', JUInt (vout u))]],
      JArray [JObject [(str, JDecimal (coins (uint PRICE)))], JObject [(op_address u, JDecimal ?change)]]]) t1 = (Inr j2, t2)"
      "into_string N j2 = Some (Inr draft)"
    and sign: "tn_send N (''signrawtransactionwithwallet'', [JString draft]) t2 = (Inr j3, t3)"
      "into_signed N j3 = Some (Inr sh)" "view t3 = view t1"
    and raw: "hex_decode N (hex sh) = Inr raw" "tx_deserialize T raw = Inr tx"
    and pays: "pays_all T ?outs tx" and sent: "send_tx (hex_encode T) X raw t3 = (Ok tid, t4)"
    by (elim exE conjE) (rule that)
  note asked = ask_run [where into_result = "into_outpoints N", OF regtest_okD(1) [OF node] unspent(1,3)]
    ask_run [where into_result = "into_string N", OF regtest_okD(1) [OF node] made]
    ask_run [where into_result = "into_signed N", OF regtest_okD(1) [OF node] sign(1,2)]
  have "generate_raw_tx T N S h w = (Ok raw, t3)"
    using recv(1) raw(1) by (simp add: generate_raw_tx_def try_then_def Let_def asked)
  moreover have "\<lparr>txo_value = PRICE, script_pubkey = p2pkh_script h\<rparr> \<in> set (tx_outputs tx)"
    using pays recv(2-4) by (auto simp: pays_all_def coins_sat)
  ultimately show thesis using that raw(2) unspent(2) sign(3) sent by simp
qed

end
