(* ===== verification/Payment_Tests.thy ===== *)
theory Payment_Tests
  imports Test_Node
begin

text \<open>
  The two tests of \<open>src/src/net/payments.rs\<close>: an upload without a token is answered with an
  invoice, and the whole exchange of a client that asks for an invoice, pays it, gets a token
  and uploads with it. The transaction that pays comes from \<open>generate_raw_tx\<close> of \<open>Test_Node\<close>.
\<close>

section \<open>The tests\<close>

definition test_host :: string where
  "test_host = ''http://localhost:8080''"

text \<open>The path of a URL of the test server, and \<open>test::call_service\<close>, which unwraps.\<close>

definition uri_path :: "string \<Rightarrow> string" where
  "uri_path url = drop (length test_host) url"

definition call_service ::
  "(request \<Rightarrow> ('s, response, server_error) io) \<Rightarrow> request \<Rightarrow> ('s, response, 'e) io" where
  "call_service service rq = expect_io (service rq)"

definition put_service ::
  "('pk, 'sig, 'msg, 'z) pay_lib_scheme \<Rightarrow> ('s, 'x) net_sys_scheme \<Rightarrow> settings \<Rightarrow> 's service" where
  "put_service T X S = check_payment T X S (call_app (\<lambda>rq. on_world (put_key T X rq)))"

definition test_put_no_token ::
  "('pk, 'sig, 'msg, 'sk, 'z) test_lib_scheme \<Rightarrow> ('s, 'x) net_sys_scheme \<Rightarrow> settings \<Rightarrow> 'sk \<Rightarrow> 'pk \<Rightarrow>
     ('s server, unit, unit) io" where
  "test_put_no_token T X S sk pk =
     try_then (on_world (generate_address_metadata T X S sk pk)) (\<lambda>(address_base58, metadata_raw).
     let key_url = test_host @ key_path address_base58;
         rq = test_request PUT (uri_path key_url) Map.empty metadata_raw in
     try_then (call_service (put_service T X S) rq) (\<lambda>resp.
     try_then (lift (assert_that (status resp = 402))) (\<lambda>_.
     try_then (lift (unwrap (from_sum (request_decode T (rs_body resp))))) (\<lambda>invoice.
     try_then (lift (unwrap (from_sum (details_decode T (serialized_payment_details invoice))))) (\<lambda>details.
     try_then (lift (unwrap_opt (pd_network details))) (\<lambda>net.
     try_then (lift (assert_that (net = ''regnet''))) (\<lambda>_.
     try_then (lift (unwrap_opt (expires details))) (\<lambda>until.
     try_then (lift (assert_that (time details < until))) (\<lambda>_.
     try_then (on_world (read_clock X)) (\<lambda>now.
     try_then (lift (unix_secs now)) (\<lambda>secs.
     try_then (lift (assert_that (time details \<le> secs))) (\<lambda>_.
     try_then (lift (unwrap_opt (payment_url details))) (\<lambda>url.
     try_then (lift (assert_that (url = ''http://localhost:8080/payments''))) (\<lambda>_.
     try_then (lift (unwrap_opt (pd_merchant_data details))) (\<lambda>merchant.
     lift (assert_that (merchant = as_bytes key_url)))))))))))))))))"




section \<open>What the tests rely on\<close>

text \<open>
  The codecs of the BIP70 messages are inverse to each other. The node hands out addresses of
  public key hashes on the configured network, new ones that have no unspent outputs, and time
  does not run backwards while it is asked.
\<close>

definition inverse :: "('a \<Rightarrow> ext_error + bytes) \<Rightarrow> (bytes \<Rightarrow> ext_error + 'a) \<Rightarrow> bool" where
  "inverse enc dec \<longleftrightarrow> (\<forall>a. \<exists>raw. enc a = Inr raw \<and> dec raw = Inr a)"

lemma inverseD: "inverse enc dec \<Longrightarrow> \<exists>raw. enc a = Inr raw \<and> dec raw = Inr a"
  by (simp add: inverse_def)

definition messages_roundtrip :: "('pk, 'sig, 'msg, 'sk, 'z) test_lib_scheme \<Rightarrow> bool" where
  "messages_roundtrip T \<longleftrightarrow>
     inverse (details_encode T) (details_decode T) \<and> inverse (request_encode T) (request_decode T) \<and>
     inverse (payment_encode T) (payment_decode T) \<and> inverse (ack_encode T) (ack_decode T)"

lemma messages_roundtripD:
  assumes "messages_roundtrip T"
  shows "\<exists>raw. details_encode T d = Inr raw \<and> details_decode T raw = Inr d"
    and "\<exists>raw. request_encode T i = Inr raw \<and> request_decode T raw = Inr i"
    and "\<exists>raw. payment_encode T pm = Inr raw \<and> payment_decode T raw = Inr pm"
    and "\<exists>raw. ack_encode T ack = Inr raw \<and> ack_decode T raw = Inr ack"
  using assms by (simp_all add: messages_roundtrip_def inverse_def)

definition node_ok ::
  "('pk, 'sig, 'msg, 'z) pay_lib_scheme \<Rightarrow> ('s, 'x) net_sys_scheme \<Rightarrow> settings \<Rightarrow> ('s \<Rightarrow> int) \<Rightarrow>
     ('s \<Rightarrow> bytes set) \<Rightarrow> bool" where
  "node_ok T X S clk held \<longleftrightarrow>
     (\<forall>w. \<exists>str t a. get_new_addr X w = (Ok str, t) \<and> clk w \<le> clk t \<and>
        addr_decode T str = Inr a \<and> hash_type a = Key \<and>
        from_bch_network (addr_network a) = s_network S \<and> length (body a) = 20 \<and> body a \<notin> held t)"


section \<open>The invoice\<close>

lemma issue_invoice_run:
  assumes "sys_now X (world st) = (n, t)" and "is_ascii (rq_path rq)" and "6 \<le> length (rq_path rq)"
    and "addr_decode T (drop 6 (rq_path rq)) = Inr a"
    and "fetch_address T X S (st\<lparr>world := t\<rparr>) = (Ok h, st')"
    and "generate_outputs (overflow_checks T) h (rq_scheme rq @ ''://'' @ rq_host rq) (body a) = Ok outs"
  shows "issue_invoice T X S rq st =
    (invoice_response T S (rq_scheme rq @ ''://'' @ rq_host rq) (merchant_url_of rq) n (n + 30) outs, st')"
proof -
  have "uint VALID_DURATION = 30" by (simp add: VALID_DURATION_def)
  with assms show ?thesis
    by (simp add: issue_invoice_def try_then_def on_world_def Let_def str_from_ascii merchant_url_of_def)
qed

lemma base58_ascii: "set a \<subseteq> set base58_alphabet \<Longrightarrow> is_ascii (key_path a)"
proof -
  have "list_all (\<lambda>c. byte_of c < 128) base58_alphabet"
    by (simp add: base58_alphabet_def byte_of_def)
  then have "byte_of c < 128" if "c \<in> set base58_alphabet" for c using that by (simp add: list_all_iff)
  moreover have "list_all (\<lambda>c. byte_of c < 128) ''/keys/''" by (simp add: byte_of_def)
  ultimately show "set a \<subseteq> set base58_alphabet \<Longrightarrow> is_ascii (key_path a)"
    by (auto simp: is_ascii_def key_path_def list_all_iff)
qed

text \<open>An upload without a token to a test path is answered with an invoice that decodes.\<close>

lemma invoice_for_test:
  assumes rt: "messages_roundtrip T" and node: "node_ok T X S clk held" and iso: "net_isolated X view"
    and now: "sys_now X (world st) = (n, world st)" and n: "clock_in_range n"
    and a: "set addr \<subseteq> set base58_alphabet" "addr_decode T addr = Inr pa"
  obtains h inv details rs st' len where
    "issue_invoice T X S (test_request PUT (key_path addr) hs b) st = (Ok rs, st')" and "status rs = 402"
    and "request_decode T (rs_body rs) = Inr inv"
    and "details_decode T (serialized_payment_details inv) = Inr details" and "length h = 20"
    and "h \<notin> held (world st')"
    and "wallet st' = insert h (wallet st)" and "view (world st') = view (world st)"
    and "clk (world st) \<le> clk (world st')"
    and "details = \<lparr>pd_network = Some (network_to_string (s_network S)), time = word_of_int n,
      expires = Some (word_of_int (n + 30)), pd_memo = None,
      pd_merchant_data = Some (as_bytes (test_host @ key_path addr)),
      outputs = [\<lparr>amount = Some PRICE, out_script = p2pkh_script h\<rparr>,
        \<lparr>amount = Some 0, out_script = op_return_script len (body pa) test_host\<rparr>],
      payment_url = Some (test_host @ PAYMENT_PATH)\<rparr>"
proof -
  let ?rq = "test_request PUT (key_path addr) hs b"
  have host: "rq_scheme ?rq @ ''://'' @ rq_host ?rq = test_host" by (simp add: test_host_def)
  have url: "merchant_url_of ?rq = test_host @ key_path addr"
    by (simp add: merchant_url_of_def test_host_def)
  obtain str t ad where get: "get_new_addr X (world st) = (Ok str, t)" and clk: "clk (world st) \<le> clk t"
    and ad: "addr_decode T str = Inr ad" "hash_type ad = Key"
      "from_bch_network (addr_network ad) = s_network S" "length (body ad) = 20" "body ad \<notin> held t"
    using node unfolding node_ok_def by blast
  let ?st = "st\<lparr>world := t, wallet := insert (body ad) (wallet st)\<rparr>"
  have fetch: "fetch_address T X S (st\<lparr>world := world st\<rparr>) = (Ok (body ad), ?st)"
    using get ad by (simp add: fetch_address_Ok)
  have "add_u8 (overflow_checks T) 29 (word_of_nat (length test_host)) = (Ok 50 :: (u8, server_error) result)"
    by (simp add: test_host_def add_u8_def)
  then have outs: "generate_outputs (overflow_checks T) (body ad) test_host (body pa) =
      Ok [\<lparr>amount = Some PRICE, out_script = p2pkh_script (body ad)\<rparr>,
          \<lparr>amount = Some 0, out_script = op_return_script 50 (body pa) test_host\<rparr>]"
    by (simp add: generate_outputs_Ok)
  let ?d = "\<lparr>pd_network = Some (network_to_string (s_network S)), time = word_of_int n,
      expires = Some (word_of_int (n + 30)), pd_memo = None,
      pd_merchant_data = Some (as_bytes (test_host @ key_path addr)),
      outputs = [\<lparr>amount = Some PRICE, out_script = p2pkh_script (body ad)\<rparr>,
        \<lparr>amount = Some 0, out_script = op_return_script 50 (body pa) test_host\<rparr>],
      payment_url = Some (test_host @ PAYMENT_PATH)\<rparr>"
  obtain ser where ser: "details_encode T ?d = Inr ser" "details_decode T ser = Inr ?d"
    using messages_roundtripD(1) [OF rt, of ?d] by (elim exE conjE)
  let ?i = "\<lparr>pki_type = Some ''none'', pki_data = None, payment_details_version = Some 1,
      serialized_payment_details = ser, pr_signature = None\<rparr> :: payment_request"
  obtain raw where raw: "request_encode T ?i = Inr raw" "request_decode T raw = Inr ?i"
    using messages_roundtripD(2) [OF rt, of ?i] by (elim exE conjE)
  have dec: "addr_decode T (drop 6 (rq_path ?rq)) = Inr pa" using a(2) by (simp add: key_path_def)
  have len: "6 \<le> length (rq_path ?rq)" by (simp add: key_path_def)
  have asc: "is_ascii (rq_path ?rq)" using base58_ascii [OF a(1)] by simp
  note run = issue_invoice_run [OF now asc len dec fetch, unfolded host url, OF outs]
  obtain rs where resp: "invoice_response T S test_host (test_host @ key_path addr) n (n + 30)
      [\<lparr>amount = Some PRICE, out_script = p2pkh_script (body ad)\<rparr>,
       \<lparr>amount = Some 0, out_script = op_return_script 50 (body pa) test_host\<rparr>] = Ok rs"
    and status: "status rs = 402" and body: "rs_body rs = raw"
    using n ser(1) raw(1) by (auto simp: clock_in_range_def invoice_response_Ok)
  show thesis
  proof (rule that)
    show "issue_invoice T X S ?rq st = (Ok rs, ?st)" using run unfolding resp .
    show "status rs = 402" by (rule status)
    show "request_decode T (rs_body rs) = Inr ?i" unfolding body by (rule raw)
    show "details_decode T (serialized_payment_details ?i) = Inr ?d" using ser(2) by simp
    show "length (body ad) = 20" by (rule ad)
    show "body ad \<notin> held (world ?st)" using ad by simp
    show "wallet ?st = insert (body ad) (wallet st)" by simp
    show "view (world ?st) = view (world st)" using get_new_addr_view [OF iso get] by simp
    show "clk (world st) \<le> clk (world ?st)" using clk by simp
  qed (rule refl)
qed

lemma uri_path_host [simp]: "uri_path (test_host @ path) = path"
  by (simp add: uri_path_def)

lemma call_service_Ok: "service rq s = (Ok rs, t) \<Longrightarrow> call_service service rq s = (Ok rs :: (response, unit) result, t)"
  by (simp add: call_service_def)

lemma on_world_same: "m (world st) = (r, world st) \<Longrightarrow> on_world m st = (r, st)"
  by (simp add: on_world_def)

lemma uint_of_secs: "0 \<le> m \<Longrightarrow> m < 2 ^ 64 \<Longrightarrow> uint (word_of_int m :: u64) = m"
  by (simp add: unsigned_of_int take_bit_int_eq_self)

lemma fixture_made:
  assumes lib: "fixtures_ok T sk pk" and st: "steady X clk"
  obtains addr raw a md p where "fixture T pk (clk (world st)) (addr, raw) a md p"
    and "on_world (generate_address_metadata T X S sk pk) st = (Ok (addr, raw) :: (string \<times> bytes, unit) result, st)"
proof -
  have pos: "0 \<le> clk (world st)" using steadyD(2) [OF st, of "world st"] by (simp add: clock_in_range_def)
  obtain f a md p where fx: "fixture T pk (clk (world st)) f a md p"
    and gen: "generate_address_metadata T X S sk pk (world st) = (Ok f :: (string \<times> bytes, unit) result, world st)"
    by (rule generate_fixture [OF lib steadyD(1) [OF st] pos])
  with that [of "fst f" "snd f" a md p] on_world_same [of "generate_address_metadata T X S sk pk", OF gen]
  show thesis by simp
qed

lemma clock_word_less:
  assumes "clock_in_range n"
  shows "(word_of_int n :: u64) < word_of_int (n + 30)"
proof -
  have "uint (word_of_int n :: u64) = n" and "uint (word_of_int (n + 30) :: u64) = n + 30"
    by (rule uint_of_secs; use assms in \<open>simp add: clock_in_range_def\<close>)+
  then show ?thesis unfolding word_less_def by linarith
qed

lemma clock_word_le:
  assumes "clock_in_range m" and "clock_in_range n" and "m \<le> n"
  shows "(word_of_int m :: u64) \<le> word_of_int n"
proof -
  have "uint (word_of_int m :: u64) = m" and "uint (word_of_int n :: u64) = n"
    by (rule uint_of_secs; use assms in \<open>simp add: clock_in_range_def\<close>)+
  with assms(3) show ?thesis unfolding word_le_def by linarith
qed

text \<open>
  The test of the invoice passes: an upload without a token gets a 402 whose body decodes to an
  invoice for the network, with a validity that lies ahead, the payment URL of the server and
  the URL of the upload as merchant data.
\<close>

theorem no_token_test_passes:
  assumes lib: "fixtures_ok T sk pk" "messages_roundtrip T"
    and net: "node_ok T X S clk held" "net_isolated X view" and st: "steady X clk"
    and S: "s_network S = Regnet"
  shows "passes (test_put_no_token T X S sk pk) st"
proof -
  let ?n = "clk (world st)"
  note now = steadyD(1) [OF st, of "world st"] and rng = steadyD(2) [OF st, of "world st"]
  obtain addr raw a md p where fx: "fixture T pk ?n (addr, raw) a md p"
    and made: "on_world (generate_address_metadata T X S sk pk) st = (Ok (addr, raw) :: (string \<times> bytes, unit) result, st)"
    by (rule fixture_made [OF lib(1) st])
  note fxD = fixtureD [OF fx, unfolded fst_conv snd_conv]
  let ?rq = "test_request PUT (key_path addr) Map.empty raw"
  obtain h inv details rs st' len where
    run: "issue_invoice T X S ?rq st = (Ok rs, st')" and rs: "status rs = 402"
      "request_decode T (rs_body rs) = Inr inv"
      "details_decode T (serialized_payment_details inv) = Inr details"
    and later: "?n \<le> clk (world st')"
    and d: "details = \<lparr>pd_network = Some (network_to_string (s_network S)), time = word_of_int ?n,
      expires = Some (word_of_int (?n + 30)), pd_memo = None,
      pd_merchant_data = Some (as_bytes (test_host @ key_path addr)),
      outputs = [\<lparr>amount = Some PRICE, out_script = p2pkh_script h\<rparr>,
        \<lparr>amount = Some 0, out_script = op_return_script len (body a) test_host\<rparr>],
      payment_url = Some (test_host @ PAYMENT_PATH)\<rparr>"
    by (rule invoice_for_test [OF lib(2) net now rng fxD(11,1)])
  have call: "call_service (put_service T X S) ?rq st = (Ok rs :: (response, unit) result, st')"
    by (rule call_service_Ok) (simp add: put_service_def check_payment_def run)
  note now' = steadyD(1) [OF st, of "world st'"] and rng' = steadyD(2) [OF st, of "world st'"]
  have secs: "unix_secs (clk (world st')) = (Ok (word_of_int (clk (world st'))) :: (u64, unit) result)"
    using rng' by (simp add: unix_secs_def clock_in_range_def)
  have url: "test_host @ PAYMENT_PATH = ''http://localhost:8080/payments''"
    by (simp add: test_host_def PAYMENT_PATH_def)
  show ?thesis
    using made call rs
      on_world_same [of "read_clock X" st' "Ok (clk (world st'))"] now'
      clock_word_less [OF rng] clock_word_le [OF rng rng' later]
    by (simp add: test_put_no_token_def passes_def try_then_def Let_def d assert_that_def secs url S
        on_world_def)
qed

section \<open>The payment\<close>












end
