(* ===== verification/Sample_World.thy ===== *)
theory Sample_World
  imports Startup Expiring_Map Scheduling
begin

text \<open>
  A concrete instance of every parameter of the development: an in-memory database with a
  clock, toy cryptography, and small lawful codecs. It shows that the hypotheses on the
  parameters can hold together, and it is what the properties are applied to in
  \<open>Witnesses\<close>. Nothing here models code of the program.
\<close>

section \<open>Codecs\<close>

fun join_field :: "bytes \<Rightarrow> bytes" where
  "join_field [] = [0]"
| "join_field (x # b) = 1 # x # join_field b"

fun split_field :: "bytes \<Rightarrow> (bytes \<times> bytes) option" where
  "split_field [] = None"
| "split_field [t] = (if t = 0 then Some ([], []) else None)"
| "split_field (t # x # r) =
    (if t = 0 then Some ([], x # r)
     else map_option (\<lambda>(b, q). (x # b, q)) (split_field r))"

lemma split_join [simp]: "split_field (join_field b @ r) = Some (b, r)"
  by (induction b; cases r) simp_all

definition toy_md_encode :: "address_metadata \<Rightarrow> ext_error + bytes" where
  "toy_md_encode md = Inr (join_field (pub_key md) @ join_field (serialized_payload md) @
     join_field (signature md) @ replicate (unat (scheme md)) 1)"

definition toy_md_decode :: "bytes \<Rightarrow> ext_error + address_metadata" where
  "toy_md_decode raw =
     (case split_field raw of None \<Rightarrow> Inl ''truncated'' | Some (pk, r1) \<Rightarrow>
      (case split_field r1 of None \<Rightarrow> Inl ''truncated'' | Some (pl, r2) \<Rightarrow>
      (case split_field r2 of None \<Rightarrow> Inl ''truncated'' | Some (sg, r3) \<Rightarrow>
         Inr \<lparr>pub_key = pk, serialized_payload = pl, signature = sg,
              scheme = word_of_nat (length r3)\<rparr>)))"

lemma toy_roundtrip: "toy_md_decode (projr (toy_md_encode md)) = Inr md"
  by (simp add: toy_md_encode_def toy_md_decode_def)

definition toy_payload :: "bytes \<Rightarrow> ext_error + payload" where
  "toy_payload b = (case b of
      [t, l] \<Rightarrow> Inr \<lparr>timestamp = ucast t, ttl = ucast l, entries = []\<rparr>
    | _ \<Rightarrow> Inl ''payload'')"

definition toy_b64_encode :: "bytes \<Rightarrow> string" where
  "toy_b64_encode b = concat (map (\<lambda>x. [char_of (97 + unat x div 16), char_of (97 + unat x mod 16)]) b)"

fun toy_b64_decode :: "string \<Rightarrow> ext_error + bytes" where
  "toy_b64_decode [] = Inr []"
| "toy_b64_decode [c] = Inl ''base64''"
| "toy_b64_decode (c # d # s) =
    (case toy_b64_decode s of Inl e \<Rightarrow> Inl e
     | Inr b \<Rightarrow> Inr (word_of_nat (16 * (of_char c - 97) + (of_char d - 97)) # b))"

lemma nibble_char: "n < 16 \<Longrightarrow> of_char (char_of (97 + n :: nat)) = (97 + n :: nat)"
  by simp

lemma toy_b64_roundtrip: "toy_b64_decode (toy_b64_encode b) = Inr b"
proof (induction b)
  case (Cons x b)
  have n: "unat x < 256" using unsigned_less [of x] by simp
  have "unat x div 16 < 16" and "unat x mod 16 < 16" using n by simp_all
  then have "16 * ((of_char (char_of (97 + unat x div 16)) :: nat) - 97) +
      (of_char (char_of (97 + unat x mod 16)) - 97) = unat x"
    by (simp only: nibble_char) simp
  with Cons show ?case by (simp add: toy_b64_encode_def del: of_char_of)
qed (simp add: toy_b64_encode_def)

lemma toy_b64_ascii: "is_ascii (toy_b64_encode b)"
proof (induction b)
  case (Cons x b)
  have n: "unat x < 256" using unsigned_less [of x] by simp
  have small: "byte_of (char_of (97 + k)) < 128" if "k < 16" for k :: nat
    using that by (simp only: byte_of_def nibble_char) (simp add: word_less_nat_alt unsigned_of_nat
      take_bit_nat_eq_self del: of_nat_add)
  have "unat x div 16 < 16" and "unat x mod 16 < 16" using n by simp_all
  with Cons small show ?case by (simp add: toy_b64_encode_def is_ascii_def)
qed (simp add: toy_b64_encode_def is_ascii_def)

section \<open>Libraries\<close>

definition toy_address :: "bytes \<Rightarrow> address" where
  "toy_address b = \<lparr>body = take 20 (b @ replicate 20 0), addr_format = CashAddr, hash_type = Key,
     addr_network = Regtest\<rparr>"

definition toy_tx :: "bytes \<Rightarrow> transaction" where
  "toy_tx raw = \<lparr>tx_outputs = [\<lparr>txo_value = PRICE,
     script_pubkey = p2pkh_script (take 20 (raw @ replicate 20 0))\<rparr>]\<rparr>"

definition toy_hdr_to_str :: "bytes \<Rightarrow> ext_error + string" where
  "toy_hdr_to_str v = (let s = map char_of_byte v in if is_ascii s then Inr s else Inl ''header'')"

definition toy :: "(bytes, bytes, bytes) pay_lib" where
  "toy = \<lparr>
     pk_from_slice = \<lambda>b. if length b = 2 then Inr b else Inl ''key'',
     pk_serialize = \<lambda>b. b,
     sig_from_compact = \<lambda>b. if length b = 1 then Inr b else Inl ''signature'',
     msg_from_slice = \<lambda>d. if length d = 32 then Inr d else Inl ''digest'',
     secp_verify = \<lambda>m s k. if s = take 1 m then Inr () else Inl ''mismatch'',
     hash160 = \<lambda>b. take 20 (b @ replicate 20 0),
     sha256 = \<lambda>b. take 32 (b @ replicate 32 0),
     hmac_sha256 = \<lambda>k m. k @ m,
     ct_eq = \<lambda>a b. if a = b then 1 else 0,
     overflow_checks = False,
     md_decode = toy_md_decode, md_encode = toy_md_encode, payload_decode = toy_payload,
     addr_decode = \<lambda>s. if s = [] then Inl (''empty'', ''empty'') else Inr (toy_address (as_bytes s)),
     addr_encode = \<lambda>a. Inr (map char_of_byte (take 2 (body a))),
     addr_default = toy_address [],
     hex_encode = \<lambda>b. map char_of_byte b,
     b64_encode = toy_b64_encode, b64_decode = toy_b64_decode,
     hdr_to_str = toy_hdr_to_str,
     url_parse = \<lambda>s. Inr s,
     tx_deserialize = \<lambda>raw. Inr (toy_tx raw),
     payment_decode = \<lambda>raw. Inr \<lparr>merchant_data = Some raw, memo = None, refund_to = [], transactions = [[7]]\<rparr>,
     ack_encode = \<lambda>a. Inr [1], details_encode = \<lambda>d. Inr [2], request_encode = \<lambda>r. Inr [3]\<rparr>"

record mem =
  kv :: "bytes \<rightharpoonup> bytes"
  clock :: nat

text \<open>The outside world; a peer answers with \<open>reply\<close>, the node accepts every transaction.\<close>

definition toy_sys :: "bytes \<Rightarrow> mem net_sys" where
  "toy_sys reply = \<lparr>
     rocks_get = \<lambda>k s. (Inr (kv s k), s),
     rocks_put = \<lambda>k v s. (Inr (), s\<lparr>kv := (kv s)(k \<mapsto> v)\<rparr>),
     rocks_delete = \<lambda>k s. (Inr (), s\<lparr>kv := (kv s)(k := None)\<rparr>),
     sys_now = \<lambda>s. (int (clock s), s),
     rpc_finish = \<lambda>rq. Inr rq,
     rpc_send = \<lambda>rq s. (Inr \<lparr>rp_is_error = False, rp_error = None, rp_result = Some (Inr [CHR 0x07])\<rparr>, s),
     peer_send = \<lambda>url s. (Some (Inr (Inr reply)), s),
     sleep_secs = \<lambda>n s. s\<lparr>clock := clock s + unat n\<rparr>\<rparr>"

definition toy_settings :: settings where
  "toy_settings = \<lparr>bind_addr = ''127.0.0.1:8080'', node_ip = ''127.0.0.1'', rpc_port = 18443,
     rpc_username = ''u'', rpc_password = ''p'', zmq_port = 28332, secret = ''k'', db_path = ''d'',
     s_network = Regnet\<rparr>"

definition toy_web :: "mem web" where
  "toy_web = \<lparr>
     route = \<lambda>rq. if is_ascii (rq_path rq) \<and> take 6 (rq_path rq) = ''/keys/'' then KeyResource
             else if rq_path rq = ''/payments'' then PaymentResource else Elsewhere,
     elsewhere = \<lambda>rq. lift (Ok \<lparr>status = 404, rs_headers = [], rs_body = []\<rparr>),
     no_method = \<lambda>rq. lift (Ok \<lparr>status = 405, rs_headers = [], rs_body = []\<rparr>)\<rparr>"

section \<open>The laws hold\<close>

lemma toy_sys_sel [simp]:
  "rocks_get (toy_sys r) = (\<lambda>k s. (Inr (kv s k), s))"
  "rocks_put (toy_sys r) = (\<lambda>k v s. (Inr (), s\<lparr>kv := (kv s)(k \<mapsto> v)\<rparr>))"
  "rocks_delete (toy_sys r) = (\<lambda>k s. (Inr (), s\<lparr>kv := (kv s)(k := None)\<rparr>))"
  "sys_now (toy_sys r) = (\<lambda>s. (int (clock s), s))"
  "rpc_finish (toy_sys r) = (\<lambda>rq. Inr rq)"
  "rpc_send (toy_sys r) = (\<lambda>rq s. (Inr \<lparr>rp_is_error = False, rp_error = None, rp_result = Some (Inr [CHR 0x07])\<rparr>, s))"
  "peer_send (toy_sys r) = (\<lambda>url s. (Some (Inr (Inr r)), s))"
  "sleep_secs (toy_sys r) = (\<lambda>n s. s\<lparr>clock := clock s + unat n\<rparr>)"
  by (simp_all add: toy_sys_def)

lemma toy_sel [simp]:
  "pk_from_slice toy = (\<lambda>b. if length b = 2 then Inr b else Inl ''key'')"
  "pk_serialize toy = (\<lambda>b. b)"
  "sig_from_compact toy = (\<lambda>b. if length b = 1 then Inr b else Inl ''signature'')"
  "msg_from_slice toy = (\<lambda>d. if length d = 32 then Inr d else Inl ''digest'')"
  "secp_verify toy = (\<lambda>m s k. if s = take 1 m then Inr () else Inl ''mismatch'')"
  "hash160 toy = (\<lambda>b. take 20 (b @ replicate 20 0))"
  "sha256 toy = (\<lambda>b. take 32 (b @ replicate 32 0))"
  "hmac_sha256 toy = (\<lambda>k m. k @ m)"
  "ct_eq toy = (\<lambda>a b. if a = b then 1 else 0)"
  "overflow_checks toy = False"
  "md_decode toy = toy_md_decode" "md_encode toy = toy_md_encode" "payload_decode toy = toy_payload"
  "addr_decode toy = (\<lambda>s. if s = [] then Inl (''empty'', ''empty'') else Inr (toy_address (as_bytes s)))"
  "addr_encode toy = (\<lambda>a. Inr (map char_of_byte (take 2 (body a))))"
  "b64_encode toy = toy_b64_encode" "b64_decode toy = toy_b64_decode" "hdr_to_str toy = toy_hdr_to_str"
  "hex_encode toy = (\<lambda>b. map char_of_byte b)"
  "url_parse toy = (\<lambda>s. Inr s)" "tx_deserialize toy = (\<lambda>raw. Inr (toy_tx raw))"
  "payment_decode toy =
    (\<lambda>raw. Inr \<lparr>merchant_data = Some raw, memo = None, refund_to = [], transactions = [[7]]\<rparr>)"
  "ack_encode toy = (\<lambda>a. Inr [1])" "details_encode toy = (\<lambda>d. Inr [2])" "request_encode toy = (\<lambda>r. Inr [3])"
  by (simp_all add: toy_def)

lemma toy_rocks_ok: "rocks_ok (toy_sys r) kv"
  by (simp add: rocks_ok_def)

lemma toy_healthy: "healthy (toy_sys r)"
  by (simp add: healthy_def)

lemma toy_md_roundtrip: "md_roundtrip toy"
  unfolding md_roundtrip_def toy_sel by (simp add: toy_roundtrip) (simp add: toy_md_encode_def)

lemma toy_digests: "digests_accepted toy"
  by (auto simp: digests_accepted_def min_def)

lemma toy_ct_eq: "ct_eq_decides toy"
  by (simp add: ct_eq_decides_def)

lemma toy_isolated: "net_isolated (toy_sys r) kv"
  by (simp add: net_isolated_def)

lemma toy_rpc_ok: "rpc_ok (toy_sys r)"
  by (auto simp: rpc_ok_def)

lemma toy_headers_ascii: "headers_ascii toy"
  by (auto simp: headers_ascii_def toy_hdr_to_str_def Let_def split: if_splits)

lemma toy_headers_roundtrip: "headers_roundtrip toy"
proof -
  have "is_ascii (''POP '' @ toy_b64_encode b)" for b
    using toy_b64_ascii [of b] by (simp add: is_ascii_def) (simp add: byte_of_def)
  then show ?thesis
    unfolding headers_roundtrip_def toy_sel toy_hdr_to_str_def Let_def map_char_of_as_bytes
    by (simp add: toy_b64_roundtrip)
qed

lemma toy_encoders: "encoders_total toy"
  by (simp add: encoders_total_def)

lemma toy_router: "router_ok toy_web"
proof -
  have "6 \<le> length path" if "take 6 path = ''/keys/''" for path :: string
    using arg_cong [OF that, of length] by simp
  then show ?thesis by (simp add: router_ok_def toy_web_def calm_def)
qed

lemma toy_web_isolated: "web_isolated toy_web kv"
  by (simp add: web_isolated_def toy_web_def)

section \<open>Sample data\<close>

text \<open>Metadata of the key \<open>ab\<close>, with a time stamp and a time to live of one byte each.\<close>

definition sample_md :: "u8 \<Rightarrow> u8 \<Rightarrow> i32 \<Rightarrow> address_metadata" where
  "sample_md t l s = \<lparr>pub_key = [97, 98], serialized_payload = [t, l], signature = [t], scheme = s\<rparr>"

definition sample_raw :: "u8 \<Rightarrow> u8 \<Rightarrow> i32 \<Rightarrow> bytes" where
  "sample_raw t l s = projr (toy_md_encode (sample_md t l s))"

definition sample_key :: bytes where
  "sample_key = [97, 98] @ replicate 18 0"

definition sample_addr :: address where
  "sample_addr = toy_address [97, 98]"

definition sample_payload :: "u8 \<Rightarrow> u8 \<Rightarrow> payload" where
  "sample_payload t l = \<lparr>timestamp = ucast t, ttl = ucast l, entries = []\<rparr>"

definition holding :: "u8 \<Rightarrow> u8 \<Rightarrow> nat \<Rightarrow> mem" where
  "holding t l n = \<lparr>kv = [sample_key \<mapsto> sample_raw t l 1], clock = n\<rparr>"

definition empty_mem :: "nat \<Rightarrow> mem" where
  "empty_mem n = \<lparr>kv = Map.empty, clock = n\<rparr>"

lemma empty_mem_sel [simp]: "kv (empty_mem n) = Map.empty" "clock (empty_mem n) = n"
  by (simp_all add: empty_mem_def)

lemma holding_sel [simp]:
  "kv (holding t l n) = [sample_key \<mapsto> sample_raw t l 1]" "clock (holding t l n) = n"
  by (simp_all add: holding_def)

lemma sample_encode [simp]: "toy_md_encode (sample_md t l s) = Inr (sample_raw t l s)"
  by (simp add: sample_raw_def toy_md_encode_def)

lemma sample_decode [simp]: "toy_md_decode (sample_raw t l s) = Inr (sample_md t l s)"
  unfolding sample_raw_def by (rule toy_roundtrip)

lemma sample_payload_decode [simp]:
  "toy_payload (serialized_payload (sample_md t l s)) = Inr (sample_payload t l)"
  by (simp add: sample_md_def toy_payload_def sample_payload_def)

lemma sample_scheme [simp]: "scheme (sample_md t l s) = s"
  by (simp add: sample_md_def)

lemma sample_body [simp]: "body sample_addr = sample_key"
  by (simp add: sample_addr_def toy_address_def sample_key_def)

lemma sample_addr_decode: "addr_decode toy ''ab'' = Inr sample_addr"
  by (simp add: sample_addr_def as_bytes_def byte_of_def)

lemma sample_authentic [simp]: "authentic toy sample_key (sample_md t l s)"
  by (simp add: authentic_def sample_md_def sample_key_def)

lemma sample_admissible [simp]: "admissible toy sample_key (sample_md t l s)"
  by (simp add: admissible_def)

lemma sint_of_byte [simp]: "sint (ucast (b :: u8) :: i64) = uint b"
proof -
  have "uint b < 256" using uint_lt2p [of b] by simp
  then have "clock_in_range (uint b)" by (simp add: clock_in_range_def)
  from sint_of_clock [OF this] show ?thesis by simp
qed

lemma sample_payload_sel [simp]:
  "sint (timestamp (sample_payload t l)) = uint t" "sint (ttl (sample_payload t l)) = uint l"
  by (simp_all add: sample_payload_def)

lemma sample_in_range [simp]: "sum_in_range (sample_payload t l)"
proof -
  have "uint t < 256" and "uint l < 256" and "0 \<le> uint t" and "0 \<le> uint l"
    using uint_lt2p [of t] uint_lt2p [of l] by simp_all
  then show ?thesis unfolding sum_in_range_def sample_payload_sel
    by (intro conjI) (rule order_trans [of _ 0], simp_all)
qed

lemma ready_empty [simp]: "kdb_ready toy (toy_sys r) kv (empty_mem n)"
  by (simp add: kdb_ready_def toy_rocks_ok toy_md_roundtrip kdb_inv_def)

lemma ready_holding [simp]: "kdb_ready toy (toy_sys r) kv (holding t l n)"
  by (simp add: kdb_ready_def toy_rocks_ok toy_md_roundtrip kdb_inv_def stored_ok_def)

lemma lookup_holding [simp]:
  "kdb_lookup toy kv (holding t l n) sample_key = Some (sample_md t l 1)"
  by (simp add: kdb_lookup_Some)

definition sample_request :: "http_method \<Rightarrow> string \<Rightarrow> (string \<rightharpoonup> bytes) \<Rightarrow> bytes \<Rightarrow> request" where
  "sample_request m path hs b = \<lparr>rq_method = m, rq_path = path, rq_scheme = ''http'', rq_host = ''h'',
     rq_header = hs, rq_addr = drop 6 path, rq_chunks = [Inr b]\<rparr>"

lemma sample_request_sel [simp]:
  "rq_method (sample_request m path hs b) = m" "rq_path (sample_request m path hs b) = path"
  "rq_scheme (sample_request m path hs b) = ''http''" "rq_host (sample_request m path hs b) = ''h''"
  "rq_header (sample_request m path hs b) = hs" "rq_addr (sample_request m path hs b) = drop 6 path"
  "rq_chunks (sample_request m path hs b) = [Inr b]"
  by (simp_all add: sample_request_def)

end
