(* ===== verification/Sample_Codecs.thy ===== *)
theory Sample_Codecs
  imports Models
begin

text \<open>
  Lawful codecs for the messages of \<open>Models\<close>, put together from a few combinators. They show
  that the laws the development asks of encoders and decoders can hold for whole messages.
  Nothing here models code of the program.
\<close>

section \<open>Combinators\<close>

type_synonym 'a enc = "'a \<Rightarrow> bytes"
type_synonym 'a dec = "bytes \<Rightarrow> ('a \<times> bytes) option"

text \<open>
  A decoder reads back what its encoder wrote, whatever follows. An encoder is binary when it
  writes the bytes 0 and 1 only.
\<close>

definition reads_back :: "'a enc \<Rightarrow> 'a dec \<Rightarrow> bool" where
  "reads_back e d \<longleftrightarrow> (\<forall>a r. d (e a @ r) = Some (a, r))"

definition binary :: "'a enc \<Rightarrow> bool" where
  "binary e \<longleftrightarrow> (\<forall>a. set (e a) \<subseteq> {0, 1})"

lemma reads_backD [simp]: "reads_back e d \<Longrightarrow> d (e a @ r) = Some (a, r)"
  by (simp add: reads_back_def)

lemma binaryD: "binary e \<Longrightarrow> set (e a) \<subseteq> {0, 1}"
  by (simp add: binary_def)

definition enc_nat :: "nat enc" where
  "enc_nat n = replicate n 1 @ [0]"

fun dec_nat :: "nat dec" where
  "dec_nat [] = None"
| "dec_nat (b # r) = (if b = 0 then Some (0, r) else map_option (\<lambda>(n, q). (Suc n, q)) (dec_nat r))"

lemma nat_codec [simp]: "reads_back enc_nat dec_nat" "binary enc_nat"
proof -
  have "dec_nat (replicate n 1 @ 0 # r) = Some (n, r)" for n r by (induction n) simp_all
  then show "reads_back enc_nat dec_nat" by (simp add: reads_back_def enc_nat_def)
  show "binary enc_nat" by (auto simp: binary_def enc_nat_def)
qed

definition enc_via :: "('a \<Rightarrow> 'b) \<Rightarrow> 'b enc \<Rightarrow> 'a enc" where
  "enc_via f e a = e (f a)"

definition dec_via :: "('b \<Rightarrow> 'a) \<Rightarrow> 'b dec \<Rightarrow> 'a dec" where
  "dec_via g d r = map_option (\<lambda>(b, q). (g b, q)) (d r)"

lemma via_codec:
  "reads_back e d \<Longrightarrow> (\<And>a. g (f a) = a) \<Longrightarrow> reads_back (enc_via f e) (dec_via g d)"
  "binary e \<Longrightarrow> binary (enc_via f e)"
  by (simp_all add: reads_back_def binary_def enc_via_def dec_via_def)

definition enc_pair :: "'a enc \<Rightarrow> 'b enc \<Rightarrow> ('a \<times> 'b) enc" where
  "enc_pair e1 e2 ab = e1 (fst ab) @ e2 (snd ab)"

definition dec_pair :: "'a dec \<Rightarrow> 'b dec \<Rightarrow> ('a \<times> 'b) dec" where
  "dec_pair d1 d2 r = (case d1 r of None \<Rightarrow> None | Some (a, q) \<Rightarrow>
     map_option (\<lambda>(b, p). ((a, b), p)) (d2 q))"

lemma pair_codec:
  "reads_back e1 d1 \<Longrightarrow> reads_back e2 d2 \<Longrightarrow> reads_back (enc_pair e1 e2) (dec_pair d1 d2)"
  "binary e1 \<Longrightarrow> binary e2 \<Longrightarrow> binary (enc_pair e1 e2)"
  by (simp_all add: reads_back_def binary_def enc_pair_def dec_pair_def)

primrec enc_list :: "'a enc \<Rightarrow> 'a list enc" where
  "enc_list e [] = [0]"
| "enc_list e (x # xs) = 1 # e x @ enc_list e xs"

text \<open>The length of the input is fuel enough, one byte being read per element.\<close>

fun dec_items :: "'a dec \<Rightarrow> nat \<Rightarrow> 'a list dec" where
  "dec_items d 0 r = None"
| "dec_items d (Suc n) [] = None"
| "dec_items d (Suc n) (b # r) = (if b = 0 then Some ([], r)
     else (case d r of None \<Rightarrow> None | Some (a, q) \<Rightarrow>
       map_option (\<lambda>(xs, p). (a # xs, p)) (dec_items d n q)))"

definition dec_list :: "'a dec \<Rightarrow> 'a list dec" where
  "dec_list d r = dec_items d (length r) r"

lemma list_codec:
  assumes "reads_back e d"
  shows "reads_back (enc_list e) (dec_list d)"
proof -
  have "length xs < n \<Longrightarrow> dec_items d n (enc_list e xs @ r) = Some (xs, r)" for n xs r
  proof (induction xs arbitrary: n)
    case Nil
    then show ?case by (cases n) simp_all
  next
    case (Cons x xs)
    then show ?case using assms by (cases n) simp_all
  qed
  moreover have "length xs < length (enc_list e xs @ r)" for xs r by (induction xs) simp_all
  ultimately show ?thesis by (simp only: reads_back_def dec_list_def) blast
qed

lemma list_binary: "binary e \<Longrightarrow> binary (enc_list e)"
  unfolding binary_def
proof (intro allI)
  fix xs assume "\<forall>a. set (e a) \<subseteq> {0, 1}"
  then show "set (enc_list e xs) \<subseteq> {0, 1}" by (induction xs) auto
qed

lemmas codecs = nat_codec via_codec pair_codec list_codec list_binary

text \<open>Words and characters by their number, options as lists of at most one element.\<close>

definition enc_word :: "'w::len word enc" where
  "enc_word = enc_via unat enc_nat"

definition dec_word :: "'w::len word dec" where
  "dec_word = dec_via word_of_nat dec_nat"

lemma word_codec [simp]: "reads_back enc_word dec_word" "binary enc_word"
  unfolding enc_word_def dec_word_def by (simp_all add: codecs)

definition enc_char :: "char enc" where
  "enc_char = enc_via of_char enc_nat"

definition dec_char :: "char dec" where
  "dec_char = dec_via char_of dec_nat"

lemma char_codec [simp]: "reads_back enc_char dec_char" "binary enc_char"
  unfolding enc_char_def dec_char_def by (simp_all add: codecs)

definition enc_opt :: "'a enc \<Rightarrow> 'a option enc" where
  "enc_opt e = enc_via (case_option [] (\<lambda>a. [a])) (enc_list e)"

definition dec_opt :: "'a dec \<Rightarrow> 'a option dec" where
  "dec_opt d = dec_via (\<lambda>xs. case xs of [] \<Rightarrow> None | a # _ \<Rightarrow> Some a) (dec_list d)"

lemma opt_codec: "reads_back e d \<Longrightarrow> reads_back (enc_opt e) (dec_opt d)"
  unfolding enc_opt_def dec_opt_def by (rule via_codec(1), erule list_codec) (simp split: option.split)

section \<open>Messages\<close>

definition message_encode :: "'a enc \<Rightarrow> 'a \<Rightarrow> ext_error + bytes" where
  "message_encode e a = Inr (e a)"

definition message_decode :: "'a dec \<Rightarrow> bytes \<Rightarrow> ext_error + 'a" where
  "message_decode d raw = (case d raw of Some (a, []) \<Rightarrow> Inr a | _ \<Rightarrow> Inl ''malformed'')"

lemma message_codec:
  "reads_back e d \<Longrightarrow> \<exists>raw. message_encode e a = Inr raw \<and> message_decode d raw = Inr a"
  using reads_backD [of e d a "[]"] by (simp add: message_encode_def message_decode_def)

abbreviation "enc_str \<equiv> enc_list enc_char"
abbreviation "dec_str \<equiv> dec_list dec_char"
abbreviation "enc_bytes \<equiv> enc_list (enc_word :: u8 enc)"
abbreviation "dec_bytes \<equiv> dec_list (dec_word :: u8 dec)"

lemma string_codec [simp]: "reads_back enc_str dec_str" "reads_back enc_bytes dec_bytes" "binary enc_bytes"
  by (simp_all add: codecs)

definition enc_header :: "entry_header enc" where
  "enc_header = enc_via (\<lambda>h. (hd_name h, hd_value h)) (enc_pair enc_str enc_str)"

definition dec_header :: "entry_header dec" where
  "dec_header = dec_via (\<lambda>(n, v). \<lparr>hd_name = n, hd_value = v\<rparr>) (dec_pair dec_str dec_str)"

definition enc_entry :: "entry enc" where
  "enc_entry = enc_via (\<lambda>x. (kind x, headers x, entry_data x))
     (enc_pair enc_str (enc_pair (enc_list enc_header) enc_bytes))"

definition dec_entry :: "entry dec" where
  "dec_entry = dec_via (\<lambda>(k, h, b). \<lparr>kind = k, headers = h, entry_data = b\<rparr>)
     (dec_pair dec_str (dec_pair (dec_list dec_header) dec_bytes))"

definition enc_payload :: "payload enc" where
  "enc_payload = enc_via (\<lambda>p. (timestamp p, ttl p, entries p))
     (enc_pair enc_word (enc_pair enc_word (enc_list enc_entry)))"

definition dec_payload :: "payload dec" where
  "dec_payload = dec_via (\<lambda>(t, l, es). \<lparr>timestamp = t, ttl = l, entries = es\<rparr>)
     (dec_pair dec_word (dec_pair dec_word (dec_list dec_entry)))"

lemma payload_codec: "reads_back enc_payload dec_payload"
proof -
  have 1: "reads_back enc_header dec_header"
    unfolding enc_header_def dec_header_def by (intro via_codec pair_codec) simp_all
  have 2: "reads_back enc_entry dec_entry"
    unfolding enc_entry_def dec_entry_def by (intro via_codec pair_codec list_codec 1) simp_all
  show ?thesis
    unfolding enc_payload_def dec_payload_def by (intro via_codec pair_codec list_codec 2) simp_all
qed

definition enc_output :: "tx_output enc" where
  "enc_output = enc_via (\<lambda>o'. (amount o', out_script o')) (enc_pair (enc_opt enc_word) enc_bytes)"

definition dec_output :: "tx_output dec" where
  "dec_output = dec_via (\<lambda>(a, s). \<lparr>amount = a, out_script = s\<rparr>) (dec_pair (dec_opt dec_word) dec_bytes)"

lemma output_codec: "reads_back enc_output dec_output"
  unfolding enc_output_def dec_output_def by (intro via_codec pair_codec opt_codec) simp_all

definition enc_details :: "payment_details enc" where
  "enc_details = enc_via (\<lambda>d. (pd_network d, time d, expires d, pd_memo d, pd_merchant_data d, outputs d,
       payment_url d))
     (enc_pair (enc_opt enc_str) (enc_pair enc_word (enc_pair (enc_opt enc_word)
       (enc_pair (enc_opt enc_str) (enc_pair (enc_opt enc_bytes) (enc_pair (enc_list enc_output)
         (enc_opt enc_str)))))))"

definition dec_details :: "payment_details dec" where
  "dec_details = dec_via (\<lambda>(n, t, x, m, md, os, u). \<lparr>pd_network = n, time = t, expires = x, pd_memo = m,
       pd_merchant_data = md, outputs = os, payment_url = u\<rparr>)
     (dec_pair (dec_opt dec_str) (dec_pair dec_word (dec_pair (dec_opt dec_word)
       (dec_pair (dec_opt dec_str) (dec_pair (dec_opt dec_bytes) (dec_pair (dec_list dec_output)
         (dec_opt dec_str)))))))"

lemma details_codec: "reads_back enc_details dec_details"
  unfolding enc_details_def dec_details_def
  by (intro via_codec pair_codec opt_codec list_codec output_codec) simp_all

definition enc_invoice :: "payment_request enc" where
  "enc_invoice = enc_via (\<lambda>i. (pki_type i, pki_data i, payment_details_version i,
       serialized_payment_details i, pr_signature i))
     (enc_pair (enc_opt enc_str) (enc_pair (enc_opt enc_bytes) (enc_pair (enc_opt enc_word)
       (enc_pair enc_bytes (enc_opt enc_bytes)))))"

definition dec_invoice :: "payment_request dec" where
  "dec_invoice = dec_via (\<lambda>(t, d, v, s, g). \<lparr>pki_type = t, pki_data = d, payment_details_version = v,
       serialized_payment_details = s, pr_signature = g\<rparr>)
     (dec_pair (dec_opt dec_str) (dec_pair (dec_opt dec_bytes) (dec_pair (dec_opt dec_word)
       (dec_pair dec_bytes (dec_opt dec_bytes)))))"

lemma invoice_codec: "reads_back enc_invoice dec_invoice"
  unfolding enc_invoice_def dec_invoice_def by (intro via_codec pair_codec opt_codec) simp_all

definition enc_payment :: "payment_msg enc" where
  "enc_payment = enc_via (\<lambda>p. (merchant_data p, memo p, refund_to p, transactions p))
     (enc_pair (enc_opt enc_bytes) (enc_pair (enc_opt enc_str) (enc_pair (enc_list enc_output)
       (enc_list enc_bytes))))"

definition dec_payment :: "payment_msg dec" where
  "dec_payment = dec_via (\<lambda>(m, s, r, t). \<lparr>merchant_data = m, memo = s, refund_to = r, transactions = t\<rparr>)
     (dec_pair (dec_opt dec_bytes) (dec_pair (dec_opt dec_str) (dec_pair (dec_list dec_output)
       (dec_list dec_bytes))))"

lemma payment_codec: "reads_back enc_payment dec_payment"
  unfolding enc_payment_def dec_payment_def
  by (intro via_codec pair_codec opt_codec list_codec output_codec) simp_all

definition enc_ack :: "payment_ack enc" where
  "enc_ack = enc_via (\<lambda>a. (ack_payment a, ack_memo a)) (enc_pair enc_payment (enc_opt enc_str))"

definition dec_ack :: "payment_ack dec" where
  "dec_ack = dec_via (\<lambda>(p, m). \<lparr>ack_payment = p, ack_memo = m\<rparr>) (dec_pair dec_payment (dec_opt dec_str))"

lemma ack_codec: "reads_back enc_ack dec_ack"
  unfolding enc_ack_def dec_ack_def by (intro via_codec pair_codec opt_codec payment_codec) simp_all

definition enc_tx :: "transaction enc" where
  "enc_tx = enc_via (\<lambda>tx. map (\<lambda>o'. (txo_value o', script_pubkey o')) (tx_outputs tx))
     (enc_list (enc_pair enc_word enc_bytes))"

definition dec_tx :: "transaction dec" where
  "dec_tx = dec_via (\<lambda>os. \<lparr>tx_outputs = map (\<lambda>(v, s). \<lparr>txo_value = v, script_pubkey = s\<rparr>) os\<rparr>)
     (dec_list (dec_pair dec_word dec_bytes))"

lemma txout_eta: "\<lparr>txo_value = txo_value x, script_pubkey = script_pubkey x\<rparr> = x"
  by (cases x) simp

lemma tx_codec: "reads_back enc_tx dec_tx"
  unfolding enc_tx_def dec_tx_def by (intro via_codec pair_codec list_codec) (simp_all add: comp_def txout_eta)

section \<open>Addresses\<close>

text \<open>A network and a hash as a string of the letters \<open>a\<close> and \<open>b\<close>.\<close>

definition network_code :: "bch_network \<Rightarrow> nat" where
  "network_code n = (case n of Main \<Rightarrow> 0 | Test \<Rightarrow> 1 | Regtest \<Rightarrow> 2)"

definition network_of :: "nat \<Rightarrow> bch_network" where
  "network_of k = (if k = 0 then Main else if k = 1 then Test else Regtest)"

definition letter_of :: "u8 \<Rightarrow> char" where
  "letter_of b = (if b = 0 then CHR ''a'' else CHR ''b'')"

definition bit_of :: "char \<Rightarrow> u8" where
  "bit_of c = (if c = CHR ''a'' then 0 else 1)"

definition enc_place :: "(bch_network \<times> bytes) enc" where
  "enc_place = enc_pair (enc_via network_code enc_nat) enc_bytes"

definition dec_place :: "(bch_network \<times> bytes) dec" where
  "dec_place = dec_pair (dec_via network_of dec_nat) dec_bytes"

lemma place_codec: "reads_back enc_place dec_place" "binary enc_place"
proof -
  have "network_of (network_code n) = n" for n by (cases n) (simp_all add: network_of_def network_code_def)
  then show "reads_back enc_place dec_place"
    unfolding enc_place_def dec_place_def by (intro via_codec pair_codec) simp_all
  show "binary enc_place" unfolding enc_place_def by (intro via_codec pair_codec) simp_all
qed

definition letters :: "bch_network \<Rightarrow> bytes \<Rightarrow> string" where
  "letters n h = map letter_of (enc_place (n, h))"

definition unletters :: "string \<Rightarrow> (bch_network \<times> bytes) option" where
  "unletters s = (if set s \<subseteq> {CHR ''a'', CHR ''b''}
     then (case dec_place (map bit_of s) of Some (a, []) \<Rightarrow> Some a | _ \<Rightarrow> None) else None)"

lemma letters_set: "set (letters n h) \<subseteq> {CHR ''a'', CHR ''b''}"
  by (auto simp: letters_def letter_of_def)

lemma unletters_letters [simp]: "unletters (letters n h) = Some (n, h)"
proof -
  have "map (bit_of \<circ> letter_of) bs = bs" if "set bs \<subseteq> {0, 1}" for bs
    using that by (induction bs) (auto simp: bit_of_def letter_of_def)
  from this [OF binaryD [OF place_codec(2)]] have "map bit_of (letters n h) = enc_place (n, h)"
    by (simp add: letters_def)
  then show ?thesis
    using letters_set reads_backD [OF place_codec(1), of "(n, h)" "[]"] by (simp add: unletters_def)
qed

end
