(* ===== verification/Witnesses.thy ===== *)
theory Witnesses
  imports Sample_World Ledger Replication Workers Routing
begin

text \<open>
  Each property that has hypotheses, applied at a concrete input of \<open>Sample_World\<close> where the
  hypotheses hold.
\<close>

abbreviation sys :: "mem net_sys" where
  "sys \<equiv> toy_sys []"

section \<open>Validation and the database\<close>

theorem validate_decides_witness:
  "validate toy (secp256k1 toy) sample_addr (sample_md 5 10 1) = Ok () \<and>
   validate toy (secp256k1 toy) (toy_address [1]) (sample_md 5 10 1) = Err Preimage"
proof -
  have "pub_key (sample_md 5 10 1) = [97, 98]" by (simp add: sample_md_def)
  moreover have "body (toy_address [1]) \<noteq> [97, 98] @ replicate 18 0"
    by (simp add: toy_address_def)
  moreover have "\<not> authentic toy (body (toy_address [1])) (sample_md 5 10 1)"
    by (simp add: authentic_def sample_md_def toy_address_def)
  ultimately show ?thesis
    using validate_decides [OF toy_digests, of sample_addr "sample_md 5 10 1"]
      validate_decides [OF toy_digests, of "toy_address [1]" "sample_md 5 10 1"]
    by simp
qed

theorem get_respects_ttl_witness:
  "kdb_get toy sys sample_addr (holding 5 10 15) = (Ok (Some (sample_md 5 10 1)), holding 5 10 15) \<and>
   fst (kdb_get toy sys sample_addr (holding 5 10 16)) = Ok None"
  using get_respects_ttl [of sys sample_addr "holding 5 10 15" "sample_raw 5 10 1" "holding 5 10 15"
      toy "sample_md 5 10 1" "sample_payload 5 10" 15 "holding 5 10 15"]
    get_respects_ttl [of sys sample_addr "holding 5 10 16" "sample_raw 5 10 1" "holding 5 10 16"
      toy "sample_md 5 10 1" "sample_payload 5 10" 16 "holding 5 10 16"]
  by (simp add: clock_in_range_def)

lemma sample_put: "kdb_put toy sys sample_addr (sample_md t l 1) (empty_mem n) = (Ok (), holding t l n)"
  by (simp add: kdb_put_def from_sum_io_def empty_mem_def holding_def)

theorem put_get_roundtrip_witness:
  "kdb_get toy sys sample_addr (holding 5 10 3) = (Ok (Some (sample_md 5 10 1)), holding 5 10 3) \<and>
   kv (holding 5 10 3) = kv (holding 5 10 3)"
  by (rule put_get_roundtrip [OF toy_rocks_ok toy_md_roundtrip sample_put refl,
        where p = "sample_payload 5 10" and w = "Some (sample_raw 5 10 1)" and n = 3
          and ?t1.0 = "holding 5 10 3"])
     (simp_all add: clock_in_range_def)

theorem reads_never_panic_witness:
  "fst (kdb_get toy sys sample_addr (holding 5 10 16)) \<noteq> Panic \<and>
   fst (check_timestamp toy sys sample_addr (sample_payload 4 10) (holding 5 10 16)) \<noteq> Panic"
  by (rule reads_never_panic [OF ready_holding]) simp_all

theorem ttl_overflow_witness:
  "expired toy sys \<lparr>timestamp = 0x7fffffffffffffff, ttl = 1, entries = []\<rparr> (empty_mem 3) =
     (Ok True, empty_mem 3) \<and>
   expired (toy\<lparr>overflow_checks := True\<rparr>) sys
     \<lparr>timestamp = 0x7fffffffffffffff, ttl = 1, entries = []\<rparr> (empty_mem 3) = (Panic, empty_mem 3)"
  using ttl_overflow [of "\<lparr>timestamp = 0x7fffffffffffffff, ttl = 1, entries = []\<rparr>" sys "empty_mem 3" 3
      "empty_mem 3" toy]
    ttl_overflow [of "\<lparr>timestamp = 0x7fffffffffffffff, ttl = 1, entries = []\<rparr>" sys "empty_mem 3" 3
      "empty_mem 3" "toy\<lparr>overflow_checks := True\<rparr>"]
  by (simp add: clock_in_range_def)

lemma sample_filter:
  "ttl_filter toy sys level k (sample_raw 5 10 1) (empty_mem 20) = (Ok Remove, empty_mem 20)"
  using expired_exact [of sys "empty_mem 20" 20 "empty_mem 20" "sample_payload 5 10" toy]
  by (simp add: ttl_filter_def try_then_def clock_in_range_def)

theorem compaction_unobservable_witness:
  "fst (kdb_get toy sys sample_addr (holding 5 10 30)) = fst (kdb_get toy sys sample_addr (empty_mem 30)) \<or>
   (\<exists>e. fst (kdb_get toy sys sample_addr (holding 5 10 30)) = Err e)"
  by (rule compaction_unobservable [OF sample_filter, where md = "sample_md 5 10 1"
        and p = "sample_payload 5 10" and ?n0.0 = 20 and n = 30
        and ?s1.0 = "holding 5 10 30" and ?s2.0 = "holding 5 10 30"])
     (simp_all add: clock_in_range_def)

theorem check_timestamp_table_witness:
  "check_timestamp toy sys sample_addr (sample_payload 4 30) (holding 5 10 12) =
     (Ok (Inl Outdated), holding 5 10 12) \<and>
   check_timestamp toy sys sample_addr (sample_payload 6 3) (holding 5 10 12) =
     (Ok (Inl ExpiredTTL), holding 5 10 12) \<and>
   check_timestamp toy sys sample_addr (sample_payload 6 3) (empty_mem 12) = (Ok (Inr ()), empty_mem 12)"
proof -
  have hit: "check_timestamp toy sys sample_addr new (holding 5 10 12) =
      (if sint (timestamp new) < 5 then (Ok (Inl Outdated), holding 5 10 12)
       else if sint (timestamp new) + sint (ttl new) < 12 then (Ok (Inl ExpiredTTL), holding 5 10 12)
       else (Ok (Inr ()), holding 5 10 12))" if "sum_in_range new" for new
    using check_timestamp_table [of sys sample_addr "holding 5 10 12" "Some (sample_raw 5 10 1)"
        "holding 5 10 12" toy "sample_md 5 10 1" "sample_payload 5 10" 12 "holding 5 10 12" 12
        "holding 5 10 12" new] that
    by (simp add: clock_in_range_def)
  have miss: "check_timestamp toy sys sample_addr new (empty_mem 12) = (Ok (Inr ()), empty_mem 12)"
    if "sum_in_range new" for new
    using check_timestamp_table [of sys sample_addr "empty_mem 12" None "empty_mem 12" toy undefined
        undefined 12 "empty_mem 12" 12 "empty_mem 12" new] that
    by (simp add: clock_in_range_def)
  show ?thesis by (simp add: hit miss)
qed

section \<open>The key handlers\<close>

definition sample_upload :: "u8 \<Rightarrow> u8 \<Rightarrow> i32 \<Rightarrow> request" where
  "sample_upload t l s = sample_request PUT ''/keys/ab'' Map.empty (sample_raw t l s)"

definition sample_read :: request where
  "sample_read = sample_request GET ''/keys/ab'' Map.empty []"

lemma sample_screen: "screen_put toy (sample_upload t l 1) = Ok (sample_addr, sample_md t l 1, sample_payload t l)"
  using sample_addr_decode by (simp add: screen_put_Ok sample_upload_def)

lemma sample_upload_run:
  "put_key toy sys (sample_upload t l 1) (empty_mem n) =
     (Ok \<lparr>status = 200, rs_headers = [], rs_body = []\<rparr>, holding t l n)"
proof -
  have "check_timestamp toy sys sample_addr p (empty_mem n) = (Ok (Inr ()), empty_mem n)" for p
    using kdb_get_absent [of sys sample_addr "empty_mem n" "empty_mem n" toy]
    by (simp add: check_timestamp_def try_then_def)
  then show ?thesis
    by (simp add: put_key_split sample_screen store_put_def try_then_def map_err_io_def sample_put)
qed

lemma sample_read_run:
  "get_key toy sys sample_read (holding 5 10 15) =
     (Ok \<lparr>status = 200, rs_headers = [], rs_body = sample_raw 5 10 1\<rparr>, holding 5 10 15)"
proof -
  have "kdb_get toy sys sample_addr (holding 5 10 15) = (Ok (Some (sample_md 5 10 1)), holding 5 10 15)"
    by (rule get_live [where p = "sample_payload 5 10" and n = 15 and ?s1.0 = "holding 5 10 15"
        and v = "sample_raw 5 10 1"]) (simp_all add: clock_in_range_def)
  then show ?thesis
    using sample_addr_decode by (simp add: get_key_def sample_read_def try_then_def map_err_io_def)
qed

text \<open>A newer upload over a live entry, and an older one that is refused.\<close>

lemma sample_live: "kdb_get toy (toy_sys r) sample_addr (holding t 100 33) = (Ok (Some (sample_md t 100 1)), holding t 100 33)"
  if "uint t \<le> 100"
  by (rule get_live [where p = "sample_payload t 100" and n = 33 and ?s1.0 = "holding t 100 33"
      and v = "sample_raw t 100 1"]) (simp_all add: clock_in_range_def)

lemma sample_unexpired: "expired toy (toy_sys r) (sample_payload t 100) (holding t' 100 33) = (Ok False, holding t' 100 33)"
proof -
  have "0 \<le> uint t" by simp
  then have "\<not> 67 + uint t < 0" by linarith
  then show ?thesis
    using expired_exact [of "toy_sys r" "holding t' 100 33" 33 "holding t' 100 33" "sample_payload t 100" toy]
    by (simp add: clock_in_range_def)
qed

lemma sample_fresher:
  "check_timestamp toy (toy_sys r) sample_addr (sample_payload 5 100) (holding 1 100 33) =
     (Ok (Inr ()), holding 1 100 33)"
  using sample_live [of 1] sample_unexpired [of r 5 1] by (simp add: check_timestamp_def try_then_def)

lemma sample_older:
  "check_timestamp toy (toy_sys r) sample_addr (sample_payload 1 100) (holding 5 100 33) =
     (Ok (Inl Outdated), holding 5 100 33)"
  using sample_live [of 5] by (simp add: check_timestamp_def try_then_def)

lemma sample_overwrite:
  "kdb_put toy (toy_sys r) sample_addr (sample_md 5 100 1) (holding 1 100 33) = (Ok (), holding 5 100 33)"
  by (simp add: kdb_put_def from_sum_io_def holding_def)

lemma stamp_sample: "stamp_of toy (sample_md t l s) = uint t"
  by (simp add: stamp_of_def)

lemma sample_not_lapsed: "\<not> lapsed toy (toy_sys r) sample_key (sample_md 1 100 1) (holding 1 100 33)"
  using sample_unexpired [of r 1 1] by (simp add: lapsed_def)

theorem put_key_accepts_witness:
  "kdb_lookup toy kv (holding 1 100 33) sample_key = Some (sample_md 1 100 1) \<and>
   kdb_lookup toy kv (holding 5 100 33) sample_key = Some (sample_md 5 100 1) \<and>
   stamp_of toy (sample_md 1 100 1) \<le> stamp_of toy (sample_md 5 100 1) \<and>
   \<not> lapsed toy sys sample_key (sample_md 1 100 1) (holding 1 100 33)"
proof -
  have run: "put_key toy sys (sample_upload 5 100 1) (holding 1 100 33) =
      (Ok \<lparr>status = 200, rs_headers = [], rs_body = []\<rparr>, holding 5 100 33)"
    by (simp add: put_key_split sample_screen store_put_def try_then_def map_err_io_def sample_fresher
        sample_overwrite)
  have there: "kdb_lookup toy kv (holding 1 100 33) sample_key = Some (sample_md 1 100 1)" by simp
  from put_key_accepts [OF ready_holding run] obtain md addr p where
    md: "addr_decode toy (rq_addr (sample_upload 5 100 1)) = Inr addr" "kdb_lookup toy kv (holding 5 100 33) (body addr) = Some md"
    and order: "\<forall>old. kdb_lookup toy kv (holding 1 100 33) (body addr) = Some old \<longrightarrow>
       stamp_of toy old \<le> stamp_of toy md \<or> lapsed toy sys (body addr) old (holding 1 100 33)" by blast
  have "body addr = sample_key" using md(1) sample_addr_decode by (simp add: sample_upload_def)
  with md(2) order there sample_not_lapsed [of "[]"] show ?thesis by auto
qed

lemma sample_outdated:
  "put_key toy sys (sample_upload 1 100 1) (holding 5 100 33) = (Err (Validation Outdated), holding 5 100 33)"
  by (simp add: put_key_split sample_screen store_put_def try_then_def map_err_io_def sample_older
      from_validation_error_def)

theorem put_key_refuses_witness:
  "\<exists>u. put_key toy sys (sample_upload 1 100 1) (holding 5 100 33) = (Err (Validation Outdated), u) \<and>
     kv u = kv (holding 5 100 33)"
  using put_key_refuses [OF ready_holding sample_outdated] sample_outdated by auto

theorem get_key_authentic_witness:
  "\<exists>addr md. addr_decode toy ''ab'' = Inr addr \<and> authentic toy (body addr) md \<and>
     md_encode toy md = Inr (sample_raw 5 10 1)"
  using get_key_authentic [OF ready_holding sample_read_run] by (auto simp: sample_read_def)

theorem expired_first_upload_witness:
  "put_key toy sys (sample_upload 5 10 1) (empty_mem 20) =
     (Ok \<lparr>status = 200, rs_headers = [], rs_body = []\<rparr>, holding 5 10 20) \<and>
   get_key toy sys sample_read (holding 5 10 20) = (Err NotFound, empty_mem 20)"
  by (rule expired_first_upload [OF sample_screen, where raw = "sample_raw 5 10 1" and n = 20
        and ?s1.0 = "empty_mem 20" and ?s3.0 = "holding 5 10 20" and ?s4.0 = "holding 5 10 20"])
     (simp_all add: clock_in_range_def sample_upload_def sample_read_def empty_mem_def holding_def)

section \<open>Scripts and the wallet\<close>

lemma sample_str: "rust_str ''http://h''"
  by (simp add: rust_str_def as_bytes_def byte_of_def)

lemma sample_outputs:
  "generate_outputs False h ''http://h'' k = Ok
     [\<lparr>amount = Some PRICE, out_script = p2pkh_script h\<rparr>,
      \<lparr>amount = Some 0, out_script = op_return_script 37 k ''http://h''\<rparr>]"
  by (simp add: generate_outputs_eq add_u8_def)

theorem announcement_readable_witness:
  "extract_op_return toy_settings sample_addr (op_return_script 37 sample_key ''http://h'') =
     Some (''http://h'', sample_addr\<lparr>body := sample_key, addr_network := Regtest\<rparr>) \<and>
   extract_op_return toy_settings sample_addr (op_return_script 37 [1, 2] ''http://h'') = None"
  using announcement_readable [OF sample_outputs sample_str, of toy_settings sample_addr sample_key]
    announcement_readable [OF sample_outputs sample_str, of toy_settings sample_addr "[1, 2]"]
  by (simp add: toy_settings_def sample_key_def)

definition hash7 :: bytes where
  "hash7 = 7 # replicate 19 0"

lemma hash7_pays: "pays_to \<lparr>txo_value = PRICE, script_pubkey = p2pkh_script hash7\<rparr> hash7"
  by (simp add: pays_to_def hash7_def)

lemma toy_tx7: "toy_tx [7] = \<lparr>tx_outputs = [\<lparr>txo_value = PRICE, script_pubkey = p2pkh_script hash7\<rparr>]\<rparr>"
  by (simp add: toy_tx_def hash7_def)

lemma toy_tx7_checked: "check_outputs {hash7} (toy_tx [7]) = (True, {})"
  using check_p2pkh_True [OF _ hash7_pays, of "{hash7}"] by (simp add: check_outputs_def toy_tx7)

lemma toy_tx7_unchecked: "check_outputs {} (toy_tx [7]) = (False, {})"
  using check_p2pkh_False [of "{}"] by (simp add: check_outputs_def toy_tx7)

theorem payments_bounded_witness:
  "(1::nat) + card ({} :: bytes set) \<le>
     card ({} :: bytes set) + adds [Add hash7, Claim (toy_tx [7]), Claim (toy_tx [7])]"
  by (rule payments_bounded_by_invoices)
     (simp_all add: wallet_add_def toy_tx7_checked toy_tx7_unchecked)

definition race0 :: race where
  "race0 = \<lparr>pool = {hash7}, payer_of = \<lambda>_. Scan (tx_outputs (toy_tx [7]))\<rparr>"

theorem alone_refines_check_outputs_witness:
  "race_step\<^sup>*\<^sup>* race0 (race0\<lparr>pool := {}, payer_of := (payer_of race0)(0 := Done True)\<rparr>)"
  using alone_refines_check_outputs [of race0 0 "toy_tx [7]"]
  by (simp add: race0_def toy_tx7_checked)

theorem double_redemption_witness:
  "\<exists>t. (quiet_step {})\<^sup>*\<^sup>* race0 t \<and> payer_of t 0 = Done True \<and> payer_of t 1 = Done True \<and>
     pool t = pool race0 - {hash7}"
  by (rule double_redemption [OF hash7_pays, where outs = "[]" and outs' = "[]"])
     (simp_all add: race0_def toy_tx7)

lemma race0_accepts:
  "(quiet_step {hash7})\<^sup>*\<^sup>* race0 (race0\<lparr>pool := {}, payer_of := (payer_of race0)(0 := Done True)\<rparr>)"
proof -
  let ?out = "\<lparr>txo_value = PRICE, script_pubkey = p2pkh_script hash7\<rparr>"
  let ?a = "race0\<lparr>payer_of := (payer_of race0)(0 := Seen hash7 [])\<rparr>"
  have "race_step race0 ?a"
    by (rule race_step.present [where out = ?out])
       (simp_all add: race0_def toy_tx7 output_hash_iff hash7_pays)
  moreover have "race_step ?a (?a\<lparr>pool := wallet_remove (pool ?a) hash7,
      payer_of := (payer_of ?a)(0 := Done True)\<rparr>)"
    by (rule race_step.flush [where outs = "[]"]) simp
  ultimately have "quiet_step {hash7} race0 ?a"
    and "quiet_step {hash7} ?a (race0\<lparr>pool := {}, payer_of := (payer_of race0)(0 := Done True)\<rparr>)"
    by (auto simp: quiet_step_def race0_def wallet_remove_def)
  then show ?thesis by (meson converse_rtranclp_into_rtranclp rtranclp.rtrancl_refl)
qed

theorem accepted_pays_issued_witness:
  "\<exists>out h. out \<in> set (tx_outputs (toy_tx [7])) \<and> h \<in> {hash7} \<and> pays_to out h"
  by (rule accepted_pays_issued [OF race0_accepts, where i = 0]) (simp_all add: race0_def)

section \<open>Payments\<close>

theorem send_tx_outcome_witness:
  "send_tx (hex_encode toy) sys [7] (empty_mem 3) = (Ok [CHR 0x07], empty_mem 3)"
  using send_tx_outcome [OF toy_rpc_ok, of "[]" "hex_encode toy" "[7]" "empty_mem 3"] by simp

definition sample_url :: string where
  "sample_url = ''http://h/keys/ab''"

lemma sample_url_str: "from_utf8 (as_bytes sample_url) = Some sample_url"
  by (rule from_utf8_as_bytes) (simp add: sample_url_def rust_str_def as_bytes_def byte_of_def)

lemma sample_merchant: "merchant_url_of (sample_request m ''/keys/ab'' hs b) = sample_url"
  by (simp add: merchant_url_of_def sample_url_def)

definition sample_pop :: string where
  "sample_pop = pop_header toy (as_bytes ''k'' @ as_bytes sample_url)"

definition sample_paid :: "u8 \<Rightarrow> u8 \<Rightarrow> request" where
  "sample_paid t l = sample_request PUT ''/keys/ab'' [''authorization'' \<mapsto> as_bytes sample_pop]
     (sample_raw t l 1)"

lemma sample_paid_authorised: "authorised toy toy_settings (sample_paid t l)"
  using authorised_pop [OF toy_headers_roundtrip, of "sample_paid t l" _ toy_settings]
  by (simp add: sample_paid_def sample_pop_def sample_merchant toy_settings_def)

lemma sample_upload_unauthorised: "\<not> authorised toy toy_settings (sample_upload t l s)"
  by (simp add: authorised_def sample_upload_def)

theorem upload_needs_token_witness:
  "check_payment toy sys toy_settings (key_resource toy sys toy_web) (sample_paid 5 10) =
     key_resource toy sys toy_web (sample_paid 5 10) \<and>
   check_payment toy sys toy_settings (key_resource toy sys toy_web) (sample_upload 5 10 1) =
     issue_invoice toy sys toy_settings (sample_upload 5 10 1)"
  using upload_needs_token [OF toy_ct_eq toy_headers_ascii, of "sample_paid 5 10" toy_settings sys]
    upload_needs_token [OF toy_ct_eq toy_headers_ascii, of "sample_upload 5 10 1" toy_settings sys]
    sample_paid_authorised [of 5 10] sample_upload_unauthorised [of 5 10 1]
  by (simp add: sample_paid_def sample_upload_def)

theorem unauthorised_upload_inert_witness:
  "kv (world (snd (check_payment toy sys toy_settings (key_resource toy sys toy_web)
     (sample_upload 5 10 1) (start_server (holding 1 9 3))))) = [sample_key \<mapsto> sample_raw 1 9 1]"
proof -
  have "kv (world (snd (check_payment toy sys toy_settings (key_resource toy sys toy_web)
      (sample_upload 5 10 1) (start_server (holding 1 9 3))))) = kv (world (start_server (holding 1 9 3)))"
    by (rule unauthorised_upload_inert [OF toy_ct_eq toy_headers_ascii _ toy_isolated toy_rocks_ok
          sample_upload_unauthorised prod.collapse [symmetric]]) (simp add: sample_upload_def)
  then show ?thesis by (simp add: start_server_def)
qed

definition sample_pay :: request where
  "sample_pay = sample_request POST ''/payments''
     [''content-type'' \<mapsto> as_bytes ''application/bitcoincash-payment'',
      ''accept'' \<mapsto> as_bytes ''application/bitcoincash-paymentack''] (as_bytes sample_url)"

definition sample_payment :: payment_msg where
  "sample_payment = \<lparr>merchant_data = Some (as_bytes sample_url), memo = None, refund_to = [],
     transactions = [[7]]\<rparr>"

definition sample_receipt :: response where
  "sample_receipt = \<lparr>status = 202,
     rs_headers = [(''location'', sample_url), (''authorization'', sample_pop), (''pragma'', ''no-cache'')],
     rs_body = [1]\<rparr>"

definition waiting :: "mem server" where
  "waiting = \<lparr>wallet = {hash7}, world = empty_mem 3\<rparr>"

definition served :: "mem server" where
  "served = \<lparr>wallet = {}, world = empty_mem 3\<rparr>"

lemma sample_pay_screen: "screen_payment toy sample_pay = Ok (sample_payment, [7], toy_tx [7])"
  by (simp add: screen_payment_Ok sample_pay_def well_addressed_def sample_payment_def)

lemma sample_send: "send_tx h sys [7] (empty_mem 3) = (Ok [CHR 0x07], empty_mem 3)"
  by (simp add: send_tx_def try_then_def map_err_io_def from_sum_io_def rpc_outcome_def)

lemma sample_receipt_Ok: "receipt toy toy_settings sample_payment = Ok sample_receipt"
  by (simp add: receipt_Ok sample_payment_def sample_url_str sample_receipt_def sample_pop_def
      pop_header_def toy_settings_def)

lemma sample_pay_run: "payment_handler toy sys toy_settings sample_pay waiting = (Ok sample_receipt, served)"
  using settle_paid [of waiting "toy_tx [7]" "{}" toy sys "[7]" "Ok [CHR 0x07]" "empty_mem 3"
      toy_settings sample_payment]
  by (simp add: payment_handler_split sample_pay_screen waiting_def served_def toy_tx7_checked
      sample_send sample_receipt_Ok del: toy_sel)

theorem payment_accepted_witness:
  "\<exists>tx h merchant. h \<in> {hash7} \<and> tx_pays tx h \<and> wallet served = {hash7} - {h} \<and>
     from_utf8 merchant = Some sample_url"
  using payment_accepted [OF sample_pay_run]
  by (auto simp: waiting_def served_def sample_receipt_def)

definition down :: "mem net_sys" where
  "down = sys\<lparr>rpc_send := \<lambda>rq s. (Inl ''refused'', s)\<rparr>"

lemma down_send: "send_tx h down [7] (empty_mem 3) = (Err (Http ''refused''), empty_mem 3)"
  by (simp add: down_def send_tx_def try_then_def map_err_io_def from_sum_io_def)

theorem refused_broadcast_forfeits_witness:
  "payment_handler toy down toy_settings sample_pay waiting =
     (Err (Payment InvalidTx), waiting\<lparr>wallet := {}, world := empty_mem 3\<rparr>) \<and>
   payment_handler toy down toy_settings sample_pay (waiting\<lparr>wallet := {}, world := empty_mem 9\<rparr>) =
     (Err (Payment InvalidOutputs), waiting\<lparr>wallet := {}, world := empty_mem 9\<rparr>)"
  by (rule refused_broadcast_forfeits [OF sample_pay_screen])
     (simp_all add: waiting_def toy_tx7_checked down_send del: toy_sel)

definition issued :: "mem server" where
  "issued = \<lparr>wallet = {hash7}, world = empty_mem 3\<rparr>"

definition sample_invoice :: response where
  "sample_invoice = \<lparr>status = 402,
     rs_headers = [(''content-type'', ''application/bitcoincash-paymentrequest''),
                   (''content-transfer-encoding'', ''binary'')], rs_body = [3]\<rparr>"

lemma node_address: "addr_decode toy [CHR 0x07] = Inr \<lparr>body = hash7, addr_format = CashAddr,
    hash_type = Key, addr_network = Regtest\<rparr>"
  by (simp add: toy_address_def hash7_def as_bytes_def byte_of_def)

lemma sample_fetch:
  "fetch_address toy sys toy_settings (start_server (empty_mem 3)) = (Ok hash7, issued)"
proof -
  have "get_new_addr sys (empty_mem 3) = (Ok [CHR 0x07], empty_mem 3)"
    by (simp add: get_new_addr_def try_then_def map_err_io_def from_sum_io_def rpc_outcome_def)
  with node_address show ?thesis
    by (simp add: fetch_address_Ok start_server_def default_wallet_def issued_def toy_settings_def)
qed

lemma sample_path: "str_from ''/keys/ab'' 6 = Ok ''ab''"
  by (simp add: str_from_def is_char_boundary_def is_continuation_def byte_of_def)

lemma sample_clock: "on_world (read_clock sys) (start_server (empty_mem 3)) = (Ok 3, start_server (empty_mem 3))"
  by (simp add: on_world_def start_server_def)

lemma sample_issue:
  "issue_invoice toy sys toy_settings (sample_upload 5 10 1) (start_server (empty_mem 3)) =
     (Ok sample_invoice, issued)"
proof -
  have "invoice_response toy toy_settings b m 3 33 outs = Ok sample_invoice" for b m outs
    by (simp add: invoice_response_Ok sample_invoice_def)
  then show ?thesis
    using sample_outputs [of hash7 sample_key] sample_addr_decode sample_fetch
    by (simp add: issue_invoice_def try_then_def sample_upload_def VALID_DURATION_def sample_path
        sample_clock Let_def del: toy_sys_sel)
qed

theorem invoice_payable_witness:
  "\<exists>h (details :: payment_details). wallet issued = {h} \<and> pd_merchant_data details = Some (as_bytes sample_url) \<and>
     fst (check_outputs (wallet issued) (toy_tx [7]))"
  using invoice_payable [OF sample_issue]
proof (elim exE conjE, goal_cases)
  case (1 now t addr_str addr details serialized put_addr len)
  have "length hash7 = 20" by (simp add: hash7_def)
  moreover have w: "wallet (start_server (empty_mem 3)) = {}" "wallet issued = {hash7}"
    by (simp_all add: start_server_def default_wallet_def issued_def)
  then have "body addr = hash7" using 1(6) by simp
  ultimately have "fst (check_outputs (wallet issued) (toy_tx [7]))" using 1(18) by (simp add: toy_tx7)
  moreover have "pd_merchant_data details = Some (as_bytes sample_url)"
    using 1(14) by (simp add: sample_upload_def sample_merchant)
  ultimately show ?case using w(2) by blast
qed

section \<open>Announcements and peers\<close>

definition sample_announcement :: transaction where
  "sample_announcement = \<lparr>tx_outputs =
     [\<lparr>txo_value = PRICE, script_pubkey = p2pkh_script hash7\<rparr>,
      \<lparr>txo_value = 0, script_pubkey = op_return_script 37 sample_key ''http://h''\<rparr>]\<rparr>"

lemma sample_key_length [simp]: "length sample_key = 20"
  by (simp add: sample_key_def)

lemma sample_extract:
  "extract_op_return toy_settings sample_addr (op_return_script 37 sample_key ''http://h'') =
     Some (''http://h'', sample_addr)"
  using extract_op_return_built [of 37 "''http://h''" toy_settings sample_addr sample_key] sample_str
  by (simp add: announceable_def toy_settings_def sample_addr_def toy_address_def sample_key_def)

theorem details_are_announced_witness:
  "\<exists>tx out len. Inr tx \<in> set [Inl (Subscription ''lost''), Inr sample_announcement] \<and>
     out \<in> set (tx_outputs tx) \<and>
     script_pubkey out = op_return_script len (body sample_addr) ''http://h'' \<and>
     unat len = 29 + length ''http://h'' \<and> length (body sample_addr) = 20 \<and>
     addr_network sample_addr = into_bch_network (s_network toy_settings) \<and>
     ''http://h'' \<noteq> ''http://'' @ bind_addr toy_settings"
proof -
  have "extract_op_return toy_settings sample_addr (p2pkh_script hash7) = None"
    by (simp add: extract_op_return_def p2pkh_script_def hash7_def)
  then show ?thesis
    by (intro details_are_announced [where dflt = sample_addr])
       (simp add: announced_by_def sample_announcement_def sample_extract)
qed

theorem invoice_announces_witness:
  "extract_details toy_settings sample_addr [Inl (Subscription ''lost''), Inr sample_announcement, Inr (toy_tx [7])] =
     extract_details toy_settings sample_addr [Inl (Subscription ''lost'')] @
     Inr (''http://h'', sample_addr\<lparr>body := sample_key, addr_network := Regtest\<rparr>) #
     extract_details toy_settings sample_addr [Inr (toy_tx [7])]"
  using invoice_announces [OF sample_outputs [of hash7 sample_key], of sample_announcement toy_settings
      sample_addr "[Inl (Subscription ''lost'')]" "[Inr (toy_tx [7])]"] sample_str
  by (simp add: sample_announcement_def hash7_def toy_settings_def)

abbreviation peer_sys :: "u8 \<Rightarrow> u8 \<Rightarrow> i32 \<Rightarrow> mem net_sys" where
  "peer_sys t l s \<equiv> toy_sys (sample_raw t l s)"

definition sample_item :: "stream_error + string \<times> address" where
  "sample_item = Inr (''http://h'', sample_addr)"

lemma sample_pull:
  "pull_metadata toy (peer_sys t l 1) sample_addr (sample_raw t l 1) (empty_mem n) = (Ok (), holding t l n)"
  by (rule pull_first [where md = "sample_md t l 1" and raw' = "sample_raw t l 1"
        and p = "sample_payload t l" and ?s1.0 = "empty_mem n"])
     (simp_all add: empty_mem_def holding_def)

lemma sample_encode_addr: "addr_encode toy sample_addr = Inr ''ab''"
proof -
  have "take 2 sample_key = as_bytes ''ab''" by (simp add: sample_key_def as_bytes_def byte_of_def)
  then show ?thesis by (simp only: toy_sel sample_body map_char_of_as_bytes)
qed

lemma sample_poll: "poll_item toy (peer_sys 5 10 1) sample_item (empty_mem 3) = (Ok (), holding 5 10 33)"
proof -
  have "sleep_secs (peer_sys 5 10 1) VALID_DURATION (empty_mem 3) = empty_mem 33"
    by (simp add: VALID_DURATION_def empty_mem_def)
  then show ?thesis
    using sample_encode_addr sample_pull [of 5 10 33]
    by (simp add: poll_item_def sample_item_def delay_for_def get_metadata_def try_then_def attempt_def
        await_def del: toy_sys_sel(8))
qed

theorem peers_cannot_forge_witness:
  "kdb_ready toy (peer_sys 5 10 1) kv (holding 5 10 33) \<and>
   authentic toy sample_key (sample_md 5 10 1)"
proof -
  have "peer_polling toy (peer_sys 5 10 1) [sample_item] (empty_mem 3) = (Ok (), holding 5 10 33)"
    using sample_poll by (simp add: try_then_def)
  from peers_cannot_forge [OF ready_empty toy_isolated this] show ?thesis
    using lookup_holding [of 5 10 33] by (auto simp: kdb_lookup_def)
qed

lemma sample_replace:
  "poll_item toy (peer_sys 5 100 1) sample_item (holding 1 100 3) = (Ok (), holding 5 100 33)"
proof -
  have sl: "sleep_secs (peer_sys 5 100 1) VALID_DURATION (holding 1 100 3) = holding 1 100 33"
    by (simp add: VALID_DURATION_def holding_def)
  have "validate toy (secp256k1 toy) sample_addr (sample_md 5 100 1) = Ok ()"
    by (simp add: validate_Ok_iff)
  then have "pull_metadata toy (peer_sys 5 100 1) sample_addr (sample_raw 5 100 1) (holding 1 100 33) =
      (Ok (), holding 5 100 33)"
    by (simp add: pull_metadata_def try_then_def attempt_def sample_fresher sample_overwrite)
  with sl sample_encode_addr show ?thesis
    by (simp add: poll_item_def sample_item_def delay_for_def get_metadata_def try_then_def attempt_def
        await_def del: toy_sys_sel(8))
qed

theorem pull_in_order_witness:
  "authentic toy sample_key (sample_md 5 100 1) \<and>
   stamp_of toy (sample_md 1 100 1) \<le> stamp_of toy (sample_md 5 100 1)"
proof -
  have "sample_md 5 100 1 \<noteq> sample_md 1 100 1" by (simp add: sample_md_def)
  from pull_in_order [OF ready_holding toy_isolated sample_replace lookup_holding lookup_holding this]
  obtain str raw t where
    fetched: "get_metadata toy (peer_sys 5 100 1) ''http://h'' str
      (sleep_secs (peer_sys 5 100 1) VALID_DURATION (holding 1 100 3)) = (Ok raw, t)"
    and auth: "authentic toy sample_key (sample_md 5 100 1)"
    and order: "stamp_of toy (sample_md 1 100 1) \<le> stamp_of toy (sample_md 5 100 1) \<or>
      lapsed toy (peer_sys 5 100 1) sample_key (sample_md 1 100 1) t"
    by (auto simp: sample_item_def)
  have "t = holding 1 100 33"
    using fetched by (simp add: get_metadata_def try_then_def await_def VALID_DURATION_def holding_def)
  with order sample_not_lapsed auth show ?thesis by blast
qed

text \<open>Peers that never answer: the items before them are treated, the ones after them never.\<close>

definition mute :: "mem net_sys" where
  "mute = sys\<lparr>peer_send := \<lambda>url s. (None, s)\<rparr>"

lemma mute_laws: "kdb_ready toy mute kv (empty_mem n)" "net_isolated mute kv"
  by (simp_all add: mute_def kdb_ready_def toy_md_roundtrip kdb_inv_def rocks_ok_def net_isolated_def)

lemma mute_unanswered: "unanswered toy mute sample_item s"
  using sample_encode_addr by (simp add: unanswered_def sample_item_def mute_def)

lemma toy_answers: "\<not> unanswered toy (toy_sys r) item s"
  by (simp add: unanswered_def)

theorem polling_until_silence_witness:
  "(\<exists>t. peer_polling toy sys [Inl (Subscription ''lost''), sample_item] (empty_mem 3) = (Ok (), t)) \<and>
   (\<exists>u. peer_polling toy mute [sample_item] (empty_mem 3) = (Panic, u) \<and>
      peer_polling toy mute [sample_item, sample_item] (empty_mem 3) = (Panic, u) \<and> kv u = Map.empty)"
proof
  have release: "\<not> overflow_checks toy" by simp
  have clock: "\<And>u. 0 \<le> fst (sys_now sys u)" "\<And>u. 0 \<le> fst (sys_now mute u)" by (simp_all add: mute_def)
  from polling_until_silence [OF ready_empty toy_isolated toy_digests release clock(1),
      where stream = "[Inl (Subscription ''lost''), sample_item]"] toy_answers
  show "\<exists>t. peer_polling toy sys [Inl (Subscription ''lost''), sample_item] (empty_mem 3) = (Ok (), t)" by metis
  from polling_until_silence [OF mute_laws toy_digests release clock(2), of "[sample_item]" 3]
  show "\<exists>u. peer_polling toy mute [sample_item] (empty_mem 3) = (Panic, u) \<and>
      peer_polling toy mute [sample_item, sample_item] (empty_mem 3) = (Panic, u) \<and> kv u = Map.empty"
  proof (elim disjE exE conjE, goal_cases)
    case (1 t)
    then have "\<exists>w. \<not> unanswered toy mute sample_item w" by (metis append_Nil)
    with mute_unanswered show ?case by blast
  next
    case (2 before item after w u)
    then have "before = []" "item = sample_item" by (simp_all add: Cons_eq_append_conv)
    with 2 have w: "kv u = kv (empty_mem 3)"
      and stuck: "\<And>later. peer_polling toy mute (sample_item # later) (empty_mem 3) = (Panic, u)"
      by (simp_all del: peer_polling.simps(2))
    from w stuck [of "[]"] stuck [of "[sample_item]"] show ?case
      by (intro exI [of _ u]) (simp del: peer_polling.simps)
  qed
qed

theorem polling_replicates_witness:
  "\<exists>md u. poll_item toy (peer_sys 5 10 1) (Inr (''http://h'', sample_addr)) (empty_mem 3) = (Ok (), u) \<and>
     kdb_lookup toy kv (holding 5 10 15) (body sample_addr) = Some md \<and>
     kdb_lookup toy kv u = (kdb_lookup toy kv (empty_mem 3))(body sample_addr \<mapsto> md)"
proof -
  have "addr_decode toy (rq_addr sample_read) = Inr sample_addr"
    using sample_addr_decode by (simp add: sample_read_def)
  then show ?thesis
    by (rule polling_replicates [OF ready_holding ready_empty sample_read_run _ refl sample_encode_addr,
        where url = "''http://h/keys/ab''" and ?s1.0 = "empty_mem 33" and ?s2.0 = "empty_mem 33"])
       (simp_all add: VALID_DURATION_def empty_mem_def toy_isolated)
qed

theorem scheme_checked_on_upload_only_witness:
  "put_key toy sys (sample_upload 5 10 2) (empty_mem 3) = (Err UnsupportedSigScheme, empty_mem 3) \<and>
   pull_metadata toy sys sample_addr (sample_raw 5 10 2) (empty_mem 3) =
     (Ok (), (empty_mem 3)\<lparr>kv := [sample_key \<mapsto> sample_raw 5 10 2]\<rparr>)"
  using scheme_checked_on_upload_only [of toy "sample_raw 5 10 2" "sample_md 5 10 2" "sample_raw 5 10 2"
      sample_addr "sample_payload 5 10" "sample_upload 5 10 2" sys "empty_mem 3" "empty_mem 3"
      "(empty_mem 3)\<lparr>kv := [sample_key \<mapsto> sample_raw 5 10 2]\<rparr>"] sample_addr_decode
  by (simp add: sample_upload_def)

section \<open>Interleavings\<close>

definition shared0 :: "mem \<Rightarrow> mem shared" where
  "shared0 d = \<lparr>db = d, thread_of = \<lambda>_. Begin\<rparr>"

definition sample_answer :: response where
  "sample_answer = \<lparr>status = 200, rs_headers = [], rs_body = sample_raw 5 10 1\<rparr>"

lemma sample_handler:
  "handler toy sys (Get sample_addr) (holding 5 10 15) = (Ok sample_answer, holding 5 10 15)"
  using sample_read_run sample_addr_decode
  by (simp add: get_key_handler sample_read_def sample_answer_def del: handler.simps)

theorem alone_refines_handler_witness:
  "(db_step toy sys kv (\<lambda>_. Get sample_addr))\<^sup>*\<^sup>* (shared0 (holding 5 10 15))
     (shared0 (holding 5 10 15)\<lparr>db := holding 5 10 15,
        thread_of := (thread_of (shared0 (holding 5 10 15)))(0 := Over (Ok sample_answer))\<rparr>)"
  by (rule alone_refines_handler) (simp_all add: shared0_def sample_handler del: handler.simps)

definition two_puts :: "nat \<Rightarrow> job" where
  "two_puts i = (if i = 0 then Put sample_addr (sample_md 9 50 1) (sample_payload 9 50)
     else Put sample_addr (sample_md 5 50 1) (sample_payload 5 50))"

lemma sample_look:
  "look toy sys (Get sample_addr) (holding 5 10 15) = (Over (Ok sample_answer), holding 5 10 15)"
proof -
  have "expired toy sys (sample_payload 5 10) (holding 5 10 15) = (Ok False, holding 5 10 15)"
    using expired_exact [of sys "holding 5 10 15" 15 "holding 5 10 15" "sample_payload 5 10" toy]
    by (simp add: clock_in_range_def)
  then have "kdb_peek toy sys sample_addr (holding 5 10 15) =
      (Ok (Some (sample_md 5 10 1, False)), holding 5 10 15)"
    by (simp add: kdb_peek_def try_then_def from_sum_io_def)
  then show ?thesis by (simp add: look_def serve_def sample_answer_def)
qed

theorem interleaving_authentic_witness:
  "\<exists>md. authentic toy (body sample_addr) md \<and> md_encode toy md = Inr (rs_body sample_answer)"
proof -
  let ?jobs = "\<lambda>_. Get sample_addr" and ?s = "shared0 (holding 5 10 15)"
  let ?t = "?s\<lparr>db := holding 5 10 15, thread_of := (thread_of ?s)(0 := Over (Ok sample_answer))\<rparr>"
  have "db_step toy sys kv ?jobs ?s ?t"
    by (rule db_step.look) (simp_all add: shared0_def sample_look)
  then have "(db_step toy sys kv ?jobs)\<^sup>*\<^sup>* ?s ?t" by (rule r_into_rtranclp)
  from interleaving_authentic [OF this] show ?thesis by (simp add: shared0_def)
qed

theorem older_overwrites_newer_witness:
  "\<exists>t. (db_step toy sys kv two_puts)\<^sup>*\<^sup>* (shared0 (empty_mem 3)) t \<and>
     thread_of t 0 = Over (Ok \<lparr>status = 200, rs_headers = [], rs_body = []\<rparr>) \<and>
     thread_of t 1 = Over (Ok \<lparr>status = 200, rs_headers = [], rs_body = []\<rparr>) \<and>
     kdb_lookup toy kv (db t) (body sample_addr) = Some (sample_md 5 50 1)"
  by (rule older_overwrites_newer [OF toy_rocks_ok toy_healthy toy_md_roundtrip, where
        newer = "sample_md 9 50 1" and p = "sample_payload 9 50" and q = "sample_payload 5 50"
        and b = sample_addr])
     (simp_all add: two_puts_def shared0_def)

definition get_and_put :: "nat \<Rightarrow> job" where
  "get_and_put i = (if i = 0 then Get sample_addr
     else Put sample_addr (sample_md 90 50 1) (sample_payload 90 50))"

definition frozen :: "mem net_sys" where
  "frozen = sys\<lparr>sys_now := \<lambda>s. (100, s)\<rparr>"

theorem fresh_upload_lost_witness:
  "\<exists>t. (db_step toy frozen kv get_and_put)\<^sup>*\<^sup>* (shared0 (holding 5 10 100)) t \<and>
     thread_of t 0 = Over (Err NotFound) \<and>
     thread_of t 1 = Over (Ok \<lparr>status = 200, rs_headers = [], rs_body = []\<rparr>) \<and>
     kdb_lookup toy kv (db t) (body sample_addr) = None"
proof -
  have "rocks_ok frozen kv" and "healthy frozen"
    by (simp_all add: rocks_ok_def healthy_def frozen_def)
  moreover have "fst (expired toy frozen (sample_payload 5 10) u) = Ok True" for u
    using expired_exact [of frozen u 100 u "sample_payload 5 10" toy]
    by (simp add: frozen_def clock_in_range_def)
  ultimately show ?thesis
    by (intro fresh_upload_lost [OF _ _ toy_md_roundtrip, where b = sample_addr and
          fresh = "sample_md 90 50 1" and p = "sample_payload 90 50" and v = "sample_raw 5 10 1"
          and md = "sample_md 5 10 1" and q = "sample_payload 5 10"])
       (simp_all add: get_and_put_def shared0_def)
qed

text \<open>A clock that stops before it overflows, and a history in which an entry expires.\<close>

definition stopped :: "mem net_sys" where
  "stopped = sys\<lparr>sys_now := \<lambda>s. (int (min (clock s) 1000), s)\<rparr>"

definition sample_history :: "((mem \<Rightarrow> mem) \<times> job) list" where
  "sample_history =
     [(id, Put sample_addr (sample_md 5 10 1) (sample_payload 5 10)),
      (\<lambda>s. s\<lparr>clock := clock s + 10\<rparr>, Get sample_addr),
      (\<lambda>s. s\<lparr>clock := clock s + 20\<rparr>, Get sample_addr)]"

lemma stopped_steady: "steady stopped (\<lambda>s. int (min (clock s) 1000))"
  by (auto simp: steady_def stopped_def clock_in_range_def)

theorem kdb_refines_expiring_map_witness:
  "\<exists>m'. spec_run toy (timed_jobs toy stopped (\<lambda>s. int (min (clock s) 1000)) sample_history (empty_mem 3))
       Map.empty = (fst (run_jobs toy stopped sample_history (empty_mem 3)), m') \<and>
     holds_up_to toy (int (min (clock (snd (run_jobs toy stopped sample_history (empty_mem 3)))) 1000)) m'
       (kdb_lookup toy kv (snd (run_jobs toy stopped sample_history (empty_mem 3))))"
proof -
  have ready: "kdb_ready toy stopped kv (empty_mem 3)"
    by (simp add: kdb_ready_def toy_md_roundtrip kdb_inv_def rocks_ok_def stopped_def)
  have none: "kdb_lookup toy kv (empty_mem 3) = Map.empty"
    by (simp add: kdb_lookup_def fun_eq_iff)
  show ?thesis
  proof (rule kdb_refines_expiring_map [where s = "empty_mem 3"])
    show "good_db toy stopped kv (empty_mem 3)" by (simp add: good_db_def ready none)
    show "healthy stopped" by (simp add: healthy_def stopped_def)
    show "\<forall>(e, j) \<in> set sample_history. drifts toy kv (\<lambda>s. int (min (clock s) 1000)) e \<and> sound_job toy j"
      by (auto simp: sample_history_def drifts_def sound_job_def min_le_iff_disj)
  qed (simp_all add: stopped_steady none)
qed

section \<open>The server\<close>

lemma toy_route: "route toy_web (sample_request m ''/keys/ab'' hs b) = KeyResource"
  by (simp add: toy_web_def is_ascii_def byte_of_def)

lemma paid_put:
  "put_key toy X (sample_paid t l) = put_key toy X (sample_upload t l 1)"
  by (simp add: put_key_def sample_paid_def sample_upload_def)

lemma paid_app:
  "app toy X toy_settings toy_web (sample_paid t l) = on_world (put_key toy X (sample_paid t l))"
proof -
  have "rq_header (sample_paid t l) ''authorization'' = Some (as_bytes sample_pop)"
    and "rq_method (sample_paid t l) = PUT" by (simp_all add: sample_paid_def)
  with check_payment_header [OF toy_ct_eq toy_headers_ascii this(2,1), of X toy_settings
      "key_resource toy X toy_web"] sample_paid_authorised
  show ?thesis by (simp add: app_def toy_route sample_paid_def key_resource_def)
qed

lemma sample_uploaded:
  "app toy sys toy_settings toy_web (sample_paid 5 10) (start_server (empty_mem 3)) =
     (Ok \<lparr>status = 200, rs_headers = [], rs_body = []\<rparr>, start_server (holding 5 10 3))"
  unfolding paid_app paid_put
  by (simp add: on_world_def start_server_def sample_upload_run)

lemma sample_served_run:
  "app toy sys toy_settings toy_web sample_read (start_server (holding 5 10 3)) =
     (Ok sample_answer, start_server (holding 5 10 3))"
proof -
  have "kdb_get toy sys sample_addr (holding 5 10 3) = (Ok (Some (sample_md 5 10 1)), holding 5 10 3)"
    by (rule get_live [where p = "sample_payload 5 10" and n = 3 and ?s1.0 = "holding 5 10 3"
        and v = "sample_raw 5 10 1"]) (simp_all add: clock_in_range_def)
  then have "get_key toy sys sample_read (holding 5 10 3) = (Ok sample_answer, holding 5 10 3)"
    using sample_addr_decode
    by (simp add: get_key_def sample_read_def try_then_def map_err_io_def sample_answer_def)
  then show ?thesis
    by (simp add: app_def sample_read_def toy_route check_payment_def key_resource_def on_world_def
        start_server_def)
qed

lemma sample_served:
  "fst (app toy sys toy_settings toy_web sample_read (start_server (holding 5 10 3))) = Ok sample_answer"
  by (simp add: sample_served_run)

theorem server_serves_authentic_witness:
  "\<exists>addr md. addr_decode toy ''ab'' = Inr addr \<and> authentic toy (body addr) md \<and>
     md_encode toy md = Inr (sample_raw 5 10 1)"
proof -
  have step: "server_step toy sys toy_settings toy_web kv (start_server (empty_mem 3))
      (start_server (holding 5 10 3))"
    by (rule server_step.request [OF sample_uploaded])
  obtain st' where read: "app toy sys toy_settings toy_web sample_read (start_server (holding 5 10 3)) =
      (Ok sample_answer, st')"
    using sample_served by (metis prod.collapse)
  have "route toy_web sample_read = KeyResource" and "rq_method sample_read = GET"
    by (simp_all add: sample_read_def toy_route)
  with server_serves_authentic [OF r_into_rtranclp [where r = "server_step toy sys toy_settings toy_web kv",
      OF step] empty_mem_sel(1) toy_rocks_ok toy_md_roundtrip toy_isolated toy_web_isolated] read
  have "\<exists>addr md. addr_decode toy (rq_addr sample_read) = Inr addr \<and> authentic toy (body addr) md \<and>
      md_encode toy md = Inr (rs_body sample_answer)" by blast
  then show ?thesis by (simp add: sample_read_def sample_answer_def)
qed

text \<open>The table of services with a matcher that knows its patterns, and an upload with a token.\<close>

definition toy_routing :: routing where
  "toy_routing = \<lparr>requote = \<lambda>path. if is_ascii path then path else [],
     under = \<lambda>prefix path. (path = prefix \<or> (\<exists>rest. path = prefix @ ''/'' @ rest) \<or> prefix = ''/'' \<and> take 1 path = ''/''),
     is_match = \<lambda>pattern path. (if pattern = ''/keys/{addr}'' then key_segment path else pattern = path)\<rparr>"

lemma toy_routing_ok: "routing_ok toy_routing"
  unfolding routing_ok_def
proof (intro conjI allI)
  fix path
  show "under toy_routing ''/'' path = (\<exists>rest. path = ''/'' @ rest)"
    by (cases path) (auto simp: toy_routing_def)
  show "is_match toy_routing ''/payments'' path = (path = ''/payments'')"
    unfolding toy_routing_def by auto
  show "key_segment (requote toy_routing path) \<longrightarrow> is_ascii path \<and> length (requote toy_routing path) \<le> length path"
    by (simp add: toy_routing_def key_segment_def)
qed (simp_all add: toy_routing_def)

lemma toy_outsiders: "outsider kv (elsewhere toy_web)" "outsider kv (no_method toy_web)"
  by (simp_all add: outsider_def toy_web_def)

theorem effects_by_path_witness:
  "\<exists>r st'. app toy sys toy_settings (web_of toy_routing (elsewhere toy_web) (elsewhere toy_web) (no_method toy_web))
      (sample_request PUT ''/keys/ab/c'' Map.empty []) (start_server (holding 5 10 3)) = (r, st') \<and>
    kv (world st') = kv (holding 5 10 3) \<and> wallet st' = {}"
proof -
  obtain r st' where run: "app toy sys toy_settings (web_of toy_routing (elsewhere toy_web) (elsewhere toy_web) (no_method toy_web))
      (sample_request PUT ''/keys/ab/c'' Map.empty []) (start_server (holding 5 10 3)) = (r, st')" by fastforce
  have ready: "kdb_ready toy sys kv (world (start_server (holding 5 10 3)))" by (simp add: start_server_def)
  have "\<not> key_segment (requote toy_routing ''/keys/ab/c'')" and "requote toy_routing ''/keys/ab/c'' \<noteq> PAYMENT_PATH"
    by (simp_all add: toy_routing_def key_segment_def PAYMENT_PATH_def is_ascii_def byte_of_def)
  with effects_by_path [OF toy_routing_ok toy_outsiders(1,1,2) toy_ct_eq toy_headers_ascii toy_isolated ready run] run
  show ?thesis by (simp add: start_server_def default_wallet_def)
qed

lemma sample_pay_body:
  "read_body PayloadDecode [] (rq_chunks sample_pay) = Ok (as_bytes sample_url)"
  "payment_decode toy (as_bytes sample_url) = Inr sample_payment"
  "merchant_data sample_payment = Some (as_bytes sample_url)"
  by (simp_all add: sample_pay_def sample_payment_def)

theorem payment_opens_upload_witness:
  "status sample_receipt = 202 \<and>
   app toy sys toy_settings toy_web (sample_paid 5 10) served =
     on_world (put_key toy sys (sample_paid 5 10)) served"
  by (rule payment_opens_upload [OF toy_ct_eq toy_headers_ascii toy_headers_roundtrip sample_pay_run
        sample_pay_body(1,2), where pop = sample_pop])
     (simp_all add: sample_paid_def sample_pay_body sample_merchant toy_route sample_receipt_def)

text \<open>A payment an hour later, of an address that was issued for another upload.\<close>

definition any_url :: string where
  "any_url = ''http://h/keys/zz''"

definition any_payment :: payment_msg where
  "any_payment = \<lparr>merchant_data = Some (as_bytes any_url), memo = None, refund_to = [],
     transactions = [[7]]\<rparr>"

definition any_pay :: request where
  "any_pay = sample_request POST ''/payments''
     [''content-type'' \<mapsto> as_bytes ''application/bitcoincash-payment'',
      ''accept'' \<mapsto> as_bytes ''application/bitcoincash-paymentack''] (as_bytes any_url)"

theorem payment_buys_any_url_witness:
  "\<exists>rs st' pop. payment_handler toy (sys\<lparr>sys_now := \<lambda>s. (3600, s)\<rparr>) toy_settings any_pay waiting = (Ok rs, st') \<and>
     status rs = 202 \<and>
     authorised toy toy_settings (sample_request PUT ''/keys/zz'' [''authorization'' \<mapsto> as_bytes pop] [])"
proof -
  have str: "rust_str any_url" by (simp add: any_url_def rust_str_def as_bytes_def byte_of_def)
  have pay: "payment_decode toy (as_bytes any_url) = Inr any_payment" "transactions any_payment = [[7]]"
    "merchant_data any_payment = Some (as_bytes any_url)" by (simp_all add: any_payment_def)
  have tx: "tx_deserialize toy [7] = Inr (toy_tx [7])"
    "\<lparr>txo_value = PRICE, script_pubkey = p2pkh_script hash7\<rparr> \<in> set (tx_outputs (toy_tx [7]))"
    by (simp, simp add: toy_tx7)
  have send: "send_tx (hex_encode toy) sys [7] (world waiting) = (Ok [CHR 0x07], empty_mem 3)"
    by (simp add: waiting_def sample_send del: toy_sel toy_sys_sel)
  have rq: "well_addressed any_pay" "read_body PayloadDecode [] (rq_chunks any_pay) = Ok (as_bytes any_url)"
    by (simp_all add: any_pay_def well_addressed_def)
  have h: "length hash7 = 20" "hash7 \<in> wallet waiting" by (simp_all add: hash7_def waiting_def)
  have "url_parse toy any_url = Inr any_url"
    "ack_encode toy \<lparr>ack_payment = any_payment, ack_memo = Some ''Thanks for your custom!''\<rparr> = Inr [1]"
    by simp_all
  from payment_buys_any_url [OF toy_headers_roundtrip rq pay str this(1) tx h send this(2),
      of "\<lambda>s. (3600, s)" toy_settings]
  obtain rs st' pop where run: "payment_handler toy (sys\<lparr>sys_now := \<lambda>s. (3600, s)\<rparr>) toy_settings any_pay waiting = (Ok rs, st')"
    and status: "status rs = 202"
    and up: "\<forall>up. merchant_url_of up = any_url \<longrightarrow> rq_header up ''authorization'' = Some (as_bytes pop) \<longrightarrow>
      authorised toy toy_settings up" by blast
  have "authorised toy toy_settings (sample_request PUT ''/keys/zz'' [''authorization'' \<mapsto> as_bytes pop] [])"
    by (rule up [rule_format]) (simp_all add: merchant_url_of_def any_url_def)
  with run status show ?thesis by blast
qed

definition other_upload :: request where
  "other_upload = sample_request PUT ''/keys/zz'' [''authorization'' \<mapsto> as_bytes sample_pop] []"

theorem token_bound_to_url_witness:
  "check_payment toy sys toy_settings (key_resource toy sys toy_web) other_upload served =
     (Ok (server_response (Payment InvalidAuth)), served) \<and>
   check_payment toy sys toy_settings (key_resource toy sys toy_web) (sample_paid 5 10) served =
     key_resource toy sys toy_web (sample_paid 5 10) served"
proof -
  have pop: "map_of (rs_headers sample_receipt) ''authorization'' = Some sample_pop"
    by (simp add: sample_receipt_def)
  note bound = token_bound_to_url [OF toy_ct_eq toy_headers_ascii toy_headers_roundtrip sample_pay_run
      sample_pay_body(1,2) _ pop, where service = "key_resource toy sys toy_web" and later = served]
  have up: "rq_method other_upload = PUT" "rq_header other_upload ''authorization'' = Some (as_bytes sample_pop)"
    "rq_method (sample_paid 5 10) = PUT" "rq_header (sample_paid 5 10) ''authorization'' = Some (as_bytes sample_pop)"
    by (simp_all add: other_upload_def sample_paid_def)
  have "as_bytes (merchant_url_of other_upload) \<noteq> as_bytes sample_url"
    and "as_bytes (merchant_url_of (sample_paid 5 10)) = as_bytes sample_url"
    by (simp_all add: other_upload_def sample_paid_def merchant_url_of_def sample_url_def as_bytes_def byte_of_def)
  with bound [OF up(1,2)] bound [OF up(3,4)] show ?thesis by (simp add: sample_pay_body)
qed

theorem every_request_answered_witness:
  "\<exists>rs. respond (fst (app toy sys toy_settings toy_web (sample_upload 5 10 1)
     (start_server (holding 1 9 3)))) = Some rs"
proof -
  have "kdb_ready toy sys kv (world (start_server (holding 1 9 3)))" by (simp add: start_server_def)
  then show ?thesis
    by (rule every_request_answered [OF _ _ _ toy_digests toy_ct_eq toy_headers_ascii toy_encoders
          toy_rpc_ok toy_router]) simp_all
qed

text \<open>An upload asks for an invoice, and the payment of it is acknowledged.\<close>

definition sample_books :: "answer list" where
  "sample_books = [(sample_pay, Ok sample_receipt), (sample_upload 5 10 1, Ok sample_invoice)]"

lemma sample_exchange:
  "app toy sys toy_settings toy_web (sample_upload 5 10 1) (start_server (empty_mem 3)) =
     (Ok sample_invoice, waiting)"
  "app toy sys toy_settings toy_web sample_pay waiting = (Ok sample_receipt, served)"
  using sample_issue toy_route sample_pay_run
  by (simp_all add: app_def sample_upload_def check_payment_def issued_def waiting_def sample_pay_def
      toy_web_def payment_resource_def)

lemma sample_history_books: "history toy sys toy_settings toy_web (start_server (empty_mem 3)) sample_books served"
  unfolding sample_books_def using sample_exchange by (blast intro: history.intros)

lemma toy_web_walletless: "web_walletless toy_web"
  by (simp add: web_walletless_def toy_web_def)

theorem acknowledged_bounded_witness:
  "finite (wallet served) \<and> acknowledged toy_web sample_books + card (wallet served) \<le> asked toy_web sample_books \<and>
   acknowledged toy_web sample_books = 1"
proof -
  from acknowledged_bounded [OF sample_history_books toy_web_walletless] have
    "finite (wallet served) \<and> acknowledged toy_web sample_books + card (wallet served) \<le> asked toy_web sample_books" .
  moreover have "acknowledged toy_web sample_books = 1"
    by (simp add: sample_books_def acknowledges_def sample_pay_def sample_upload_def toy_route)
       (simp add: toy_web_def)
  ultimately show ?thesis by blast
qed

text \<open>The entry of one instance is announced and pulled by another one.\<close>

lemma stopped_ready: "kdb_ready toy stopped kv (holding t l n)"
  by (simp add: kdb_ready_def toy_md_roundtrip kdb_inv_def stored_ok_def rocks_ok_def stopped_def)

lemma stopped_laws: "healthy stopped" "net_isolated stopped kv"
  by (simp_all add: healthy_def net_isolated_def stopped_def)

theorem paid_upload_replicates_witness:
  "\<exists>a' sb'. peer_polling toy (tandem toy stopped toy_settings toy_web (\<lambda>url. sample_read) sys)
      (extract_details toy_settings sample_addr [Inr sample_announcement])
      (start_server (holding 5 100 3), empty_mem 3) = (Ok (), (a', sb')) \<and>
    kdb_lookup toy kv sb' = [sample_key \<mapsto> sample_md 5 100 1] \<and>
    kdb_lookup toy kv (world a') = kdb_lookup toy kv (holding 5 100 3)"
proof -
  let ?addr = "sample_addr\<lparr>body := sample_key, addr_network := into_bch_network (s_network toy_settings)\<rparr>"
  have same: "?addr = sample_addr"
    by (simp add: sample_addr_def toy_address_def sample_key_def toy_settings_def)
  have w: "world (start_server m) = m" for m :: mem by (simp add: start_server_def)
  have none: "kdb_lookup toy kv (empty_mem 3) = Map.empty" by (simp add: kdb_lookup_def fun_eq_iff)
  have outs: "map script_pubkey (tx_outputs sample_announcement) =
      map out_script [\<lparr>amount = Some PRICE, out_script = p2pkh_script hash7\<rparr>,
        \<lparr>amount = Some 0, out_script = op_return_script 37 sample_key ''http://h''\<rparr>]"
    by (simp add: sample_announcement_def)
  have "\<exists>a' sb'. peer_polling toy (tandem toy stopped toy_settings toy_web (\<lambda>url. sample_read) sys)
      (extract_details toy_settings sample_addr [Inr sample_announcement])
      (start_server (holding 5 100 3), empty_mem 3) = (Ok (), (a', sb')) \<and>
    kdb_lookup toy kv sb' = (kdb_lookup toy kv (empty_mem 3))(sample_key \<mapsto> sample_md 5 100 1) \<and>
    kdb_lookup toy kv (world a') = kdb_lookup toy kv (world (start_server (holding 5 100 3)))"
  proof (rule paid_upload_replicates [OF sample_outputs _ outs sample_str])
    show "addr_encode toy ?addr = Inr ''ab''" unfolding same by (rule sample_encode_addr)
    show "addr_decode toy (rq_addr sample_read) = Inr sample_addr"
      using sample_addr_decode by (simp add: sample_read_def)
    show "kdb_ready toy stopped kv (world (start_server (holding 5 100 3)))" unfolding w by (rule stopped_ready)
    show "steady stopped (\<lambda>s. int (min (clock s) 1000))" by (rule stopped_steady)
    show "kdb_lookup toy kv (world (start_server (holding 5 100 3))) sample_key = Some (sample_md 5 100 1)"
      unfolding w by (rule lookup_holding)
    show "payload_decode toy (serialized_payload (sample_md 5 100 1)) = Inr (sample_payload 5 100)"
      by simp
    show "int (min (clock (sleep_secs stopped VALID_DURATION (world (start_server (holding 5 100 3))))) 1000) \<le>
        sint (timestamp (sample_payload 5 100)) + sint (ttl (sample_payload 5 100))"
      unfolding w by (simp add: stopped_def VALID_DURATION_def)
  qed (simp_all add: hash7_def toy_settings_def stopped_laws toy_healthy toy_isolated sample_read_def toy_route)
  then show ?thesis unfolding none w .
qed

section \<open>Configuration\<close>

definition text_at :: "cfg_layers \<Rightarrow> string \<Rightarrow> string" where
  "text_at c key = (case cfg_lookup c key of Some (CfgStr v) \<Rightarrow> v | _ \<Rightarrow> [])"

definition port_at :: "cfg_layers \<Rightarrow> string \<Rightarrow> u16" where
  "port_at c key = (case number_of (cfg_lookup c key) of Some n \<Rightarrow> word_of_int n | None \<Rightarrow> 0)"

fun network_named :: "string \<Rightarrow> network option" where
  "network_named v = find (\<lambda>n. network_to_string n = v) [Mainnet, Testnet, Regnet]"

definition toy_load :: "cfg_layers \<Rightarrow> ext_error + settings" where
  "toy_load c = (case network_named (text_at c ''network'') of
     None \<Rightarrow> Inl ''unknown variant''
   | Some n \<Rightarrow> Inr \<lparr>bind_addr = text_at c ''bind'', node_ip = text_at c ''node_ip'',
       rpc_port = port_at c ''rpc_port'', rpc_username = text_at c ''rpc_username'',
       rpc_password = text_at c ''rpc_password'', zmq_port = port_at c ''zmq_port'',
       secret = text_at c ''secret'', db_path = text_at c ''db_path'', s_network = n\<rparr>)"

definition toy_file :: "string \<Rightarrow> string \<rightharpoonup> cfg_value" where
  "toy_file path = [''rpc_username'' \<mapsto> CfgStr ''u'', ''secret'' \<mapsto> CfgStr ''file'']"

definition toy_cfg :: "cfg_layers cfg_lib" where
  "toy_cfg = \<lparr>
     cfg_empty = \<lparr>overrides = Map.empty, from_file = Map.empty, defaults = Map.empty\<rparr>,
     cfg_set_default = \<lambda>k v c. Inr (c\<lparr>defaults := (defaults c)(k \<mapsto> v)\<rparr>),
     cfg_merge_file = \<lambda>p c. Inr (c\<lparr>from_file := from_file c ++ toy_file p\<rparr>),
     cfg_set = \<lambda>k v c. Inr (c\<lparr>overrides := (overrides c)(k \<mapsto> v)\<rparr>),
     cfg_try_into = toy_load\<rparr>"

definition toy_args :: cli where
  "toy_args = \<lparr>value_of = [''secret'' \<mapsto> ''k'', ''rpc-password'' \<mapsto> ''p'', ''db-path'' \<mapsto> ''d'', ''rpc-port'' \<mapsto> ''x1''],
     home_dir = Some ''/h''\<rparr>"

lemma port_found: "number_of (cfg_lookup c key) = Some n \<Longrightarrow> 0 \<le> n \<Longrightarrow> n < 2 ^ 16 \<Longrightarrow> uint (port_at c key) = n"
  by (simp add: port_at_def unsigned_of_int take_bit_int_eq_self)

lemma toy_load_from: "toy_load c = Inr S \<Longrightarrow> loaded_from (cfg_lookup c) S"
proof -
  assume load: "toy_load c = Inr S"
  then obtain n where n: "network_named (text_at c ''network'') = Some n"
    by (cases "network_named (text_at c ''network'')") (simp_all add: toy_load_def)
  then have "network_to_string n = text_at c ''network''" by (simp split: if_splits)
  with load n port_found [of c] show ?thesis
    by (auto simp: toy_load_def loaded_from_def text_at_def simp del: network_named.simps)
qed

lemma toy_cfg_ok: "cfg_ok toy_cfg (\<lambda>c. c) toy_file"
  by (auto simp: cfg_ok_def toy_cfg_def toy_load_from)

lemma toy_config_path: "path_to_str ''/h/.keyserver-rust/config'' = Some ''/h/.keyserver-rust/config''"
  by (simp add: path_to_str_def rust_str_def as_bytes_def byte_of_def)

lemma parse_ports: "parse_i64 ''x1'' = None" "parse_i64 ''18443'' = Some 18443" "parse_i64 ''28332'' = Some 28332"
  by (simp_all add: parse_i64_def digit_value_def)

lemma toy_cfg_sel [simp]:
  "cfg_set_default toy_cfg k v c = Inr (c\<lparr>defaults := (defaults c)(k \<mapsto> v)\<rparr>)"
  "cfg_set toy_cfg k v c = Inr (c\<lparr>overrides := (overrides c)(k \<mapsto> v)\<rparr>)"
  "cfg_merge_file toy_cfg p c = Inr (c\<lparr>from_file := from_file c ++ toy_file p\<rparr>)"
  "cfg_try_into toy_cfg c = toy_load c"
  by (simp_all add: toy_cfg_def)

lemma toy_defaults_Ok: "\<exists>t. set_defaults toy_cfg kvs s = Ok t"
  by (induction kvs arbitrary: s) auto

lemma toy_set_str_Ok: "\<exists>t. set_str toy_cfg args name key s = Ok t"
  by (simp add: set_str_def split: option.split)

lemma toy_set_port_Ok: "\<exists>t. set_port toy_cfg args name key s = Ok t"
  by (simp add: set_port_def split: option.split)

lemma and_then_Ok_total: "\<exists>a. r = Ok a \<Longrightarrow> (\<And>a. \<exists>b. f a = Ok b) \<Longrightarrow> \<exists>b. and_then r f = Ok b"
  by auto

lemma toy_apply_args_Ok: "\<exists>t. apply_args toy_cfg args s = Ok t"
  unfolding apply_args_def
  by (intro and_then_Ok_total toy_set_str_Ok toy_set_port_Ok)

text \<open>
  What the toy sources decide: the secret is on the command line and in the file, the user
  name in the file, and the RPC port is malformed on the command line.
\<close>

lemma toy_deciding:
  "deciding toy_args toy_file ''/h'' key = [''bind'' \<mapsto> CfgStr ''127.0.0.1:8080'', ''node_ip'' \<mapsto> CfgStr ''127.0.0.1'',
     ''rpc_port'' \<mapsto> CfgStr ''18443'', ''rpc_username'' \<mapsto> CfgStr ''u'', ''rpc_password'' \<mapsto> CfgStr ''p'',
     ''zmq_port'' \<mapsto> CfgStr ''28332'', ''secret'' \<mapsto> CfgStr ''k'', ''db_path'' \<mapsto> CfgStr ''d'',
     ''network'' \<mapsto> CfgStr ''regnet''] key"
proof -
  have cli: "cli_value toy_args key = [''secret'' \<mapsto> CfgStr ''k'', ''rpc_password'' \<mapsto> CfgStr ''p'', ''db_path'' \<mapsto> CfgStr ''d''] key"
    by (simp add: cli_value_def cli_pairs_def arg_str_def arg_port_def toy_args_def parse_ports)
  show ?thesis unfolding deciding_def cli toy_file_def default_values_def by simp
qed

lemma toy_loads:
  assumes "cfg_lookup c = deciding toy_args toy_file ''/h''"
  shows "toy_load c = Inr toy_settings"
proof -
  have look: "cfg_lookup c key = deciding toy_args toy_file ''/h'' key" for key using assms by simp
  show ?thesis
    by (simp add: toy_load_def text_at_def port_at_def look toy_deciding toy_settings_def parse_ports)
qed

lemma toy_settings_run: "settings_new toy_cfg toy_args = Ok toy_settings"
proof -
  have home: "home_dir toy_args = Some ''/h''" "value_of toy_args ''config'' = None"
    by (simp_all add: toy_args_def)
  have push: "path_push ''/h'' ''.keyserver-rust/config'' = ''/h/.keyserver-rust/config''"
    by (simp add: path_push_def)
  obtain s where s: "set_defaults toy_cfg (default_values (path_to_str (path_push ''/h'' ''.keyserver-rust/db'')))
      (cfg_empty toy_cfg) = Ok s" using toy_defaults_Ok by blast
  let ?f = "s\<lparr>from_file := from_file s ++ toy_file ''/h/.keyserver-rust/config''\<rparr>"
  obtain c where c: "apply_args toy_cfg toy_args ?f = Ok c" using toy_apply_args_Ok by blast
  have "cfg_lookup c = deciding toy_args toy_file ''/h''"
    by (rule layers_found [OF toy_cfg_ok s _ c, simplified]) (simp_all add: home push)
  from toy_loads [OF this] toy_config_path home push s c show ?thesis by (simp add: settings_new_def)
qed

theorem settings_precedence_witness:
  "\<exists>found. loaded_from found toy_settings \<and> found ''secret'' = Some (CfgStr ''k'') \<and>
     found ''rpc_username'' = Some (CfgStr ''u'') \<and> found ''rpc_port'' = Some (CfgStr ''18443'') \<and>
     secret toy_settings = ''k'' \<and> rpc_username toy_settings = ''u'' \<and> rpc_port toy_settings = 18443"
proof -
  from settings_precedence [OF toy_cfg_ok toy_settings_run] have
    "loaded_from (deciding toy_args toy_file ''/h'') toy_settings"
    unfolding deciding_def [abs_def] by (auto simp: toy_args_def)
  moreover have "secret toy_settings = ''k'' \<and> rpc_username toy_settings = ''u'' \<and> rpc_port toy_settings = 18443"
    by (simp add: toy_settings_def)
  ultimately show ?thesis
    by (intro exI [of _ "deciding toy_args toy_file ''/h''"]) (simp add: toy_deciding)
qed

section \<open>Start and restart\<close>

definition toy_handle :: "mem rocks_handle" where
  "toy_handle = \<lparr>h_get = rocks_get sys, h_put = rocks_put sys, h_delete = rocks_delete sys\<rparr>"

definition toy_platform :: "mem platform" where
  "toy_platform = \<lparr>db_open = \<lambda>opts path w. (Inr toy_handle, w), wall_clock = sys_now sys,
     rpc_builder = rpc_finish sys, rpc_transport = \<lambda>c. rpc_send sys,
     peer_transport = peer_send sys, timer = sleep_secs sys,
     zmq_bind = \<lambda>url. Inr [], tcp_bind = \<lambda>addr. Inr ()\<rparr>"

definition sample_running :: "mem running" where
  "sample_running = \<lparr>run_settings = toy_settings, run_net = sys, run_stream = [], run_wallet = {}\<rparr>"

lemma sample_running_sel [simp]:
  "run_settings sample_running = toy_settings" "run_net sample_running = sys"
  "run_wallet sample_running = {}"
  by (simp_all add: sample_running_def)

lemma toy_platform_sel [simp]:
  "db_open toy_platform = (\<lambda>opts path w. (Inr toy_handle, w))"
  "zmq_bind toy_platform = (\<lambda>url. Inr [])" "tcp_bind toy_platform = (\<lambda>addr. Inr ())"
  "rpc_transport toy_platform = (\<lambda>c. rpc_send sys)" "peer_transport toy_platform = peer_send sys"
  "timer toy_platform = sleep_secs sys"
  by (simp_all add: toy_platform_def)

lemma toy_connect: "connect toy_platform toy_handle c = sys"
  by (simp add: connect_def toy_platform_def toy_handle_def toy_sys_def)

lemma toy_platform_ok: "platform_ok toy_platform path kv"
  unfolding platform_ok_def
proof (intro conjI allI impI)
  fix h c
  show "net_isolated (connect toy_platform h c) kv"
    by (simp add: net_isolated_def)
qed (auto simp: toy_connect toy_rocks_ok)

lemma sample_boot: "boot toy toy_cfg toy_args toy_platform w = (Ok sample_running, w)"
  by (simp add: boot_def toy_settings_run kdb_try_new_def try_then_def expect_io_def from_sum_io_def
      Let_def get_tx_stream_def default_wallet_def sample_running_def toy_connect)

text \<open>One worker hands out the invoice, the other takes the payment.\<close>

definition sample_heap :: "mem heap" where
  "sample_heap = \<lparr>cells = \<lambda>_. {}, next_cell = 5, outside = empty_mem 3\<rparr>"

theorem workers_act_as_one_witness:
  "\<exists>ws hp1 hp2. start_workers toy toy_platform toy_handle toy_settings toy_web (factory_runs 2) sample_heap =
      ((Ok ws :: (mem worker list, ext_error) result), hp1) \<and>
    serve_workers toy toy_platform toy_handle toy_settings toy_web ws
      [(0, sample_upload 5 10 1), (1, sample_pay)] hp1 = ([Ok sample_invoice, Ok sample_receipt], hp2) \<and>
    outside hp2 = empty_mem 3 \<and> cells hp2 5 = {}"
proof -
  have heap: "outside sample_heap = empty_mem 3" "next_cell sample_heap = 5"
    by (simp_all add: sample_heap_def)
  have one: "serve_all (app toy (connect toy_platform toy_handle c) toy_settings toy_web)
      (map snd [(0, sample_upload 5 10 1), (1, sample_pay)]) (start_server (outside sample_heap)) =
      ([Ok sample_invoice, Ok sample_receipt], served)" for c
    using sample_exchange by (simp add: toy_connect heap)
  obtain ws hp1 where start: "start_workers toy toy_platform toy_handle toy_settings toy_web (factory_runs 2) sample_heap =
      ((Ok ws :: (mem worker list, ext_error) result), hp1)"
    unfolding start_workers_run [of "factory_runs 2" 2, OF refl] by blast
  from workers_act_as_one [OF refl start _ one] obtain hp2 where
    "serve_workers toy toy_platform toy_handle toy_settings toy_web ws
      [(0, sample_upload 5 10 1), (1, sample_pay)] hp1 = ([Ok sample_invoice, Ok sample_receipt], hp2)"
    "outside hp2 = world served" "cells hp2 (next_cell sample_heap) = wallet served" by auto
  with start heap show ?thesis by (auto simp: served_def)
qed

text \<open>A paid upload, a restart, and a payment that nobody asked this server for.\<close>

theorem restart_witness:
  "authentic toy sample_key (sample_md 5 10 1) \<and>
   (\<forall>rq rs. fst (payment_handler toy sys toy_settings rq
      \<lparr>wallet = {}, world = holding 5 10 3\<rparr>) \<noteq> Ok rs)"
proof -
  have start: "start_server w = \<lparr>wallet = run_wallet sample_running, world = w\<rparr>" for w :: mem
    by (simp add: start_server_def default_wallet_def)
  have "server_step toy sys toy_settings toy_web kv (start_server (empty_mem 3)) (start_server (holding 5 10 3))"
    by (rule server_step.request [OF sample_uploaded])
  then have "(server_step toy (run_net sample_running) (run_settings sample_running) toy_web kv)\<^sup>*\<^sup>*
      \<lparr>wallet = run_wallet sample_running, world = empty_mem 3\<rparr> (start_server (holding 5 10 3))"
    unfolding start [symmetric] by (simp add: r_into_rtranclp)
  from life.served [OF sample_boot _ this, of "''d''"]
  have "life toy toy_cfg toy_platform toy_web kv ''d'' (empty_mem 3) (world (start_server (holding 5 10 3)))"
    by (simp add: toy_settings_def)
  then have lives: "(life toy toy_cfg toy_platform toy_web kv ''d'')\<^sup>*\<^sup>* (empty_mem 3) (holding 5 10 3)"
    by (simp add: start_server_def r_into_rtranclp)
  have quiet: "history toy (run_net sample_running) (run_settings sample_running) toy_web
      \<lparr>wallet = run_wallet sample_running, world = holding 5 10 3\<rparr>
      [(sample_read, Ok sample_answer)] \<lparr>wallet = {}, world = holding 5 10 3\<rparr>"
    using history.answered [OF history.start sample_served_run [unfolded start]] by simp
  from restart [OF lives _ toy_platform_ok toy_web_isolated toy_web_walletless toy_md_roundtrip sample_boot]
    quiet show ?thesis
    using lookup_holding [of 5 10 3] by (simp add: toy_settings_def asks_invoice_def sample_read_def)
qed

section \<open>Progress\<close>

definition one_thread :: "mem shared" where
  "one_thread = \<lparr>db = holding 5 10 100, thread_of = \<lambda>i. if i = 0 then Begin else Over (Err NotFound)\<rparr>"

definition one_stale :: "mem shared" where
  "one_stale = \<lparr>db = holding 5 10 100, thread_of = \<lambda>i. if i = 0 then Stale else Over (Err NotFound)\<rparr>"

lemma frozen_get: "rocks_get frozen = (\<lambda>k s. (Inr (kv s k), s))"
  by (simp add: frozen_def)

text \<open>After one step of its three a read of an expired entry can still make the next.\<close>

theorem threads_finish_witness:
  "\<exists>u. db_step toy frozen kv (\<lambda>_. Get sample_addr) one_stale u \<and> thread_of u 0 \<noteq> Stale"
proof -
  have "expired toy frozen (sample_payload 5 10) (holding 5 10 100) = (Ok True, holding 5 10 100)"
    using expired_exact [of frozen "holding 5 10 100" 100 "holding 5 10 100" "sample_payload 5 10" toy]
    by (simp add: frozen_def clock_in_range_def)
  then have "look toy frozen (Get sample_addr) (holding 5 10 100) = (Stale, holding 5 10 100)"
    by (simp add: look_def kdb_peek_def try_then_def from_sum_io_def frozen_get)
  then have "db_step toy frozen kv (\<lambda>_. Get sample_addr) one_thread
      (one_thread\<lparr>db := holding 5 10 100, thread_of := (thread_of one_thread)(0 := Stale)\<rparr>)"
    by (intro db_step.look) (simp_all add: one_thread_def)
  moreover have "one_thread\<lparr>db := holding 5 10 100, thread_of := (thread_of one_thread)(0 := Stale)\<rparr> = one_stale"
    by (simp add: one_thread_def one_stale_def fun_eq_iff)
  ultimately have step: "db_step toy frozen kv (\<lambda>_. Get sample_addr) one_thread one_stale" by simp
  have "thread_of one_stale 0 \<noteq> thread_of one_thread 0" by (simp add: one_thread_def one_stale_def)
  then have "thread_of one_stale \<noteq> thread_of one_thread" by metis
  from db_run.thread [OF db_run.still step this]
  have "db_run toy frozen kv (\<lambda>_. Get sample_addr) (Suc 0) one_thread one_stale" .
  from threads_finish [OF this, of 1] show ?thesis
    by (auto simp: one_thread_def one_stale_def dest!: conjunct2 [THEN conjunct2] spec [of _ 0])
qed

end
