(* ===== verification/Test_World.thy ===== *)
theory Test_World
  imports Payment_Tests Sample_World Sample_Codecs
begin

text \<open>
  The test suite applied to a concrete library, database and node: the toy world of
  \<open>Sample_World\<close> with the codecs of \<open>Sample_Codecs\<close>. Nothing here models code of the program.
\<close>

section \<open>The library and the node\<close>

definition lab_address :: "string \<Rightarrow> (ext_error \<times> ext_error) + address" where
  "lab_address s = (case unletters s of None \<Rightarrow> Inl (''prefix'', ''checksum'')
     | Some (n, h) \<Rightarrow> Inr \<lparr>body = h, addr_format = Base58, hash_type = Key, addr_network = n\<rparr>)"

definition lab :: "(bytes, bytes, bytes, unit) test_lib" where
  "lab = pay_lib.extend
     (toy\<lparr>sig_from_compact := Inr, payload_decode := message_decode dec_payload,
          addr_decode := lab_address, payment_decode := message_decode dec_payment,
          ack_encode := message_encode enc_ack, details_encode := message_encode enc_details,
          request_encode := message_encode enc_invoice, tx_deserialize := message_decode dec_tx\<rparr>)
     (test_lib.fields (\<lambda>m sk. take 1 m) (\<lambda>s. s) (message_encode enc_payload)
        (\<lambda>h k n. Inr (letters n h)) (message_encode enc_payment) (message_decode dec_ack)
        (message_decode dec_details) (message_decode dec_invoice)
        (\<lambda>u. (''http'', ''localhost'', 8080, drop 21 u)))"

lemma lab_sel [simp]:
  "pk_from_slice lab = pk_from_slice toy" "pk_serialize lab = pk_serialize toy"
  "sig_from_compact lab = Inr" "msg_from_slice lab = msg_from_slice toy"
  "secp_verify lab = secp_verify toy" "hash160 lab = hash160 toy" "sha256 lab = sha256 toy"
  "hmac_sha256 lab = hmac_sha256 toy" "ct_eq lab = ct_eq toy"
  "md_decode lab = md_decode toy" "md_encode lab = md_encode toy"
  "payload_decode lab = message_decode dec_payload" "addr_decode lab = lab_address"
  "b64_encode lab = b64_encode toy" "b64_decode lab = b64_decode toy" "hdr_to_str lab = hdr_to_str toy"
  "url_parse lab = url_parse toy" "tx_deserialize lab = message_decode dec_tx"
  "payment_decode lab = message_decode dec_payment" "ack_encode lab = message_encode enc_ack"
  "details_encode lab = message_encode enc_details" "request_encode lab = message_encode enc_invoice"
  by (simp_all add: lab_def pay_lib.defs test_lib.defs)

lemma lab_more [simp]:
  "secp_sign lab = (\<lambda>m sk. take 1 m)" "sig_serialize lab = (\<lambda>s. s)"
  "payload_encode lab = message_encode enc_payload" "base58_encode lab = (\<lambda>h k n. Inr (letters n h))"
  "payment_encode lab = message_encode enc_payment" "ack_decode lab = message_decode dec_ack"
  "details_decode lab = message_decode dec_details" "request_decode lab = message_decode dec_invoice"
  "url_parts lab = (\<lambda>u. (''http'', ''localhost'', 8080, drop 21 u))"
  by (simp_all add: lab_def pay_lib.defs test_lib.defs)

text \<open>A node that always hands out the same address, and a clock that stops in time.\<close>

definition node_key :: bytes where
  "node_key = replicate 20 7"

definition lab_sys :: "mem net_sys" where
  "lab_sys = (toy_sys [])\<lparr>
     sys_now := \<lambda>s. (int (min (clock s) 1000), s),
     rpc_send := \<lambda>rq s. (Inr \<lparr>rp_is_error = False, rp_error = None,
       rp_result = Some (Inr (letters Regtest node_key))\<rparr>, s)\<rparr>"

abbreviation lab_clock :: "mem \<Rightarrow> int" where
  "lab_clock \<equiv> \<lambda>s. int (min (clock s) 1000)"







section \<open>The laws hold\<close>


lemma letters_base58: "set (letters n h) \<subseteq> set base58_alphabet"
  by (rule order_trans [OF letters_set]) (simp add: base58_alphabet_def)

lemma lab_fixtures: "fixtures_ok lab () [97, 98]"
  unfolding fixtures_ok_def
proof (intro conjI)
  show "md_roundtrip lab" using toy_md_roundtrip unfolding md_roundtrip_def by (simp del: toy_sel)
  show "payloads_roundtrip lab" by (simp add: payloads_roundtrip_def message_codec payload_codec)
  show "addresses_roundtrip lab"
    by (simp add: addresses_roundtrip_def letters_base58 lab_address_def)
  show "digests_accepted lab" by (auto simp: digests_accepted_def min_def)
  show "keypair_ok lab () [97, 98]" by (simp add: keypair_ok_def)
qed



lemma lab_sys_sel [simp]:
  "rocks_get lab_sys = rocks_get (toy_sys [])" "rocks_put lab_sys = rocks_put (toy_sys [])"
  "rocks_delete lab_sys = rocks_delete (toy_sys [])"
  "sys_now lab_sys = (\<lambda>s. (int (min (clock s) 1000), s))" "rpc_finish lab_sys = Inr"
  "rpc_send lab_sys = (\<lambda>rq s. (Inr \<lparr>rp_is_error = False, rp_error = None,
     rp_result = Some (Inr (letters Regtest node_key))\<rparr>, s))"
  "peer_send lab_sys = peer_send (toy_sys [])" "sleep_secs lab_sys = sleep_secs (toy_sys [])"
  by (simp_all add: lab_sys_def)

lemma lab_db: "rocks_ok lab_sys kv" "healthy lab_sys" "net_isolated lab_sys kv" "steady lab_sys lab_clock"
  by (auto simp: rocks_ok_def healthy_def net_isolated_def steady_def clock_in_range_def)






lemma lab_junk: "isl (md_decode lab [2, 3, 5])" "isl (addr_decode lab ''invalid'')"
  by (simp_all add: toy_md_decode_def lab_address_def unletters_def)

section \<open>The tests pass\<close>

theorem index_tests_pass_witness:
  "passes (test_index_put_ok lab lab_sys toy_settings () [97, 98]) (empty_mem 3) \<and>
   passes (test_index_put_get lab lab_sys toy_settings () [97, 98]) (empty_mem 3) \<and>
   passes (test_index_get_not_found lab lab_sys toy_settings () [97, 98]) (empty_mem 3)"
  using index_tests_pass [OF lab_fixtures lab_db(1,2,4) _ _ lab_junk, of "empty_mem 3" toy_settings]
  by simp


end
