(* ===== verification/Concurrent_Witnesses.thy ===== *)
theory Concurrent_Witnesses
  imports Witnesses Concurrent_Durability Concurrent_Progress
begin

text \<open>
  The properties of the concurrent server applied to the toy world of \<open>Sample_World\<close>: one run in
  which an invoice is issued, paid, the upload stored and the key read. Nothing here models
  code of the program.
\<close>

section \<open>A run\<close>

abbreviation toy_step :: "mem site \<Rightarrow> mem site \<Rightarrow> bool" where
  "toy_step \<equiv> site_step toy sys toy_settings toy_web kv"

definition exchange :: "nat \<Rightarrow> request" where
  "exchange i = (if i = 0 then sample_upload 5 10 1 else if i = 1 then sample_pay
     else if i = 2 then sample_paid 5 10 else sample_read)"

abbreviation opened :: "mem site" where
  "opened \<equiv> open_site (empty_mem 3) exchange []"

lemma opened_sel [simp]:
  "shop opened = start_server (empty_mem 3)" "acts opened i = Fresh (exchange i)" "poller opened = Waiting []"
  by (simp_all add: open_site_def)

lemma toy_site_world: "site_world sys toy_web kv"
  by (simp add: site_world_def toy_rocks_ok toy_isolated toy_web_isolated) (simp add: web_walletless_def toy_web_def)

lemma served_start: "served = start_server (empty_mem 3)"
  by (simp add: served_def start_server_def default_wallet_def)

lemma runs_request:
  assumes "toy_step\<^sup>*\<^sup>* opened s" and "acts s i = Fresh rq"
    and "app toy sys toy_settings toy_web rq (shop s) = (r, st)"
  shows "toy_step\<^sup>*\<^sup>* opened (act s i (Answered r) st)"
  using runs_to_answer [OF assms(2), of toy sys toy_settings toy_web r st kv] assms(1,3) by simp

definition stored :: response where
  "stored = \<lparr>status = 200, rs_headers = [], rs_body = []\<rparr>"

lemma stored_status [simp]: "status stored = 200"
  by (simp add: stored_def)

lemma exchange_runs:
  obtains t where "toy_step\<^sup>*\<^sup>* opened t"
    and "acts t 0 = Answered (Ok sample_invoice)" and "acts t 1 = Answered (Ok sample_receipt)"
    and "acts t 2 = Answered (Ok stored)" and "acts t 3 = Answered (Ok sample_answer)"
    and "\<And>i. 3 < i \<Longrightarrow> acts t i = Fresh sample_read" and "world (shop t) = holding 5 10 3"
proof -
  let ?s1 = "act opened 0 (Answered (Ok sample_invoice)) waiting"
  let ?s2 = "act ?s1 1 (Answered (Ok sample_receipt)) served"
  let ?s3 = "act ?s2 2 (Answered (Ok stored)) (start_server (holding 5 10 3))"
  let ?s4 = "act ?s3 3 (Answered (Ok sample_answer)) (start_server (holding 5 10 3))"
  have 1: "toy_step\<^sup>*\<^sup>* opened ?s1"
    by (rule runs_request) (use sample_exchange in \<open>simp_all add: exchange_def\<close>)
  have 2: "toy_step\<^sup>*\<^sup>* opened ?s2"
    by (rule runs_request [OF 1]) (use sample_exchange in \<open>simp_all add: exchange_def\<close>)
  have 3: "toy_step\<^sup>*\<^sup>* opened ?s3"
    by (rule runs_request [OF 2]) (use sample_uploaded in \<open>simp_all add: served_start stored_def exchange_def\<close>)
  have 4: "toy_step\<^sup>*\<^sup>* opened ?s4"
    by (rule runs_request [OF 3]) (use sample_served_run in \<open>simp_all add: exchange_def\<close>)
  show thesis
    by (rule that [OF 4]) (simp_all add: exchange_def start_server_def)
qed

lemma exchange_sel [simp]:
  "exchange 0 = sample_upload 5 10 1" "exchange 1 = sample_pay" "exchange 2 = sample_paid 5 10" "exchange 3 = sample_read"
  by (simp_all add: exchange_def)

section \<open>Safety\<close>

theorem concurrent_authentic_witness:
  "authentic toy sample_key (sample_md 5 10 1) \<and>
   (\<exists>addr md. addr_decode toy ''ab'' = Inr addr \<and> authentic toy (body addr) md \<and>
      md_encode toy md = Inr (sample_raw 5 10 1))"
proof -
  obtain t where run: "toy_step\<^sup>*\<^sup>* opened t" and get: "acts t 3 = Answered (Ok sample_answer)"
    and w: "world (shop t) = holding 5 10 3" by (rule exchange_runs)
  have rq: "route toy_web (exchange 3) = KeyResource" "rq_method (exchange 3) = GET"
    by (simp_all add: sample_read_def toy_route)
  note all = concurrent_authentic [OF run empty_mem_sel(1) toy_site_world toy_md_roundtrip]
  have "authentic toy sample_key (sample_md 5 10 1)"
    using all [THEN conjunct1, rule_format, of sample_key "sample_md 5 10 1"] by (simp add: w)
  moreover have "\<exists>addr md. addr_decode toy (rq_addr (exchange 3)) = Inr addr \<and> authentic toy (body addr) md \<and>
      md_encode toy md = Inr (rs_body sample_answer)"
    using all [THEN conjunct2] rq get by blast
  ultimately show ?thesis by (simp add: sample_read_def sample_answer_def)
qed

theorem concurrent_uploads_authorised_witness:
  "authorised toy toy_settings (sample_paid 5 10) \<and>
   (\<exists>addr md p. screen_put toy (sample_paid 5 10) = Ok (addr, md, p) \<and> authentic toy (body addr) md)"
proof -
  obtain t where run: "toy_step\<^sup>*\<^sup>* opened t" and put: "acts t 2 = Answered (Ok stored)"
    by (rule exchange_runs)
  from concurrent_uploads_authorised [OF run empty_mem_sel(1) toy_site_world toy_md_roundtrip toy_ct_eq
      toy_headers_ascii _ _ put stored_status]
  show ?thesis by (simp add: sample_paid_def toy_route)
qed

theorem concurrent_payments_invoiced_witness:
  "\<exists>tx h now put_addr t. toy_step\<^sup>*\<^sup>* opened t \<and>
     screen_payment toy sample_pay = Ok (sample_payment, [7], tx) \<and> tx_pays tx h \<and>
     invoice_for toy toy_settings (sample_upload 5 10 1) now put_addr h = Ok sample_invoice \<and>
     acts t 0 = Answered (Ok sample_invoice)"
proof -
  obtain t where run: "toy_step\<^sup>*\<^sup>* opened t" and inv: "acts t 0 = Answered (Ok sample_invoice)"
    and pay: "acts t 1 = Answered (Ok sample_receipt)" by (rule exchange_runs)
  have post: "route toy_web (exchange 1) = PaymentResource" "rq_method (exchange 1) = POST"
    by (simp_all add: sample_pay_def toy_web_def del: One_nat_def)
  have "\<And>u. 0 \<le> fst (sys_now sys u)" and "\<And>j. \<not> overflow_checks toy \<or>
      length (rq_scheme (exchange j) @ ''://'' @ rq_host (exchange j)) \<le> 226" by simp_all
  from concurrent_payments_invoiced [OF run empty_mem_sel(1) toy_site_world toy_md_roundtrip toy_encoders
      this post pay]
  obtain payment tx_raw tx j now put_addr i and addr :: address where
    "screen_payment toy (exchange 1) = Ok (payment, tx_raw, tx)" and p: "tx_pays tx (body addr)"
    and j: "asks_invoice toy_web (exchange j)"
      "invoice_for toy toy_settings (exchange j) now put_addr (body addr) = Ok i"
      "acts t j = Answered (Ok i) \<or> acts t j = Replying (exchange j) now put_addr (body addr)"
    by (elim exE conjE) (rule that, assumption+)
  then have screened: "screen_payment toy sample_pay = Ok (payment, tx_raw, tx)" by (simp del: One_nat_def)
  have j0: "j = 0"
    using j(1) by (auto simp: exchange_def asks_invoice_def sample_pay_def sample_paid_def sample_read_def
        split: if_splits)
  with j(3) inv have "i = sample_invoice" by auto
  with p j(2) j0 inv run screened sample_pay_screen show ?thesis by auto
qed

section \<open>Refinement\<close>

theorem request_alone_witness:
  "\<exists>t. toy_step\<^sup>*\<^sup>* opened t \<and> acts t 0 = Answered (Ok sample_invoice) \<and> wallet (shop t) = {hash7}"
proof -
  have "app toy sys toy_settings toy_web (sample_upload 5 10 1) (shop opened) = (Ok sample_invoice, waiting)"
    using sample_exchange by simp
  from request_alone [OF _ this, of 0 kv] show ?thesis
    by (intro exI conjI, simp, simp, simp add: waiting_def)
qed

theorem polling_alone_witness:
  "\<exists>t. (site_step toy (peer_sys 5 10 1) toy_settings toy_web kv)\<^sup>*\<^sup>*
      (open_site (empty_mem 3) exchange [sample_item]) t \<and>
    poller t = Waiting [] \<and> kdb_lookup toy kv (world (shop t)) sample_key = Some (sample_md 5 10 1)"
proof -
  let ?s = "open_site (empty_mem 3) exchange [sample_item]"
  have "poller ?s = Waiting [sample_item]" by (simp add: open_site_def)
  moreover have "peer_polling toy (peer_sys 5 10 1) [sample_item] (world (shop ?s)) = (Ok (), holding 5 10 33)"
    using sample_poll by (simp add: open_site_def start_server_def try_then_def)
  ultimately have "(site_step toy (peer_sys 5 10 1) toy_settings toy_web kv)\<^sup>*\<^sup>* ?s
      (?s\<lparr>shop := (shop ?s)\<lparr>world := holding 5 10 33\<rparr>, poller := if Ok () = (Ok () :: (unit, unit) result) then Waiting [] else Halted\<rparr>)"
    by (rule polling_alone)
  then show ?thesis by (intro exI conjI, assumption) simp_all
qed

section \<open>Progress and a race\<close>

definition two_payers :: "mem site" where
  "two_payers = \<lparr>shop = waiting, acts = (\<lambda>i. Fresh sample_pay), poller = Waiting []\<rparr>"

lemma two_payers_sel [simp]:
  "shop two_payers = waiting" "acts two_payers i = Fresh sample_pay" "wallet waiting = {hash7}"
  by (simp_all add: two_payers_def waiting_def)

lemma sample_pay_route: "route toy_web sample_pay = PaymentResource" "rq_method sample_pay = POST"
  by (simp_all add: sample_pay_def toy_web_def)

theorem requests_finish_witness:
  "\<exists>t u. acts t 0 = Checking sample_payment [7] (tx_outputs (toy_tx [7])) \<and>
     acts_of toy sys toy_settings toy_web kv 0 t u"
proof -
  let ?t = "act two_payers 0 (Checking sample_payment [7] (tx_outputs (toy_tx [7]))) waiting"
  have "site_step toy sys toy_settings toy_web kv two_payers ?t"
    by (rule request_step)
       (use sample_pay_screen sample_pay_route in \<open>simp_all add: request_begin_def del: toy_sel\<close>)
  then have "acts_of toy sys toy_settings toy_web kv 0 two_payers ?t" by (simp add: acts_of_def)
  from counted.own [where own = "acts_of toy sys toy_settings toy_web kv 0"
      and other = "acts_elsewhere toy sys toy_settings toy_web kv 0", OF counted.still this]
  have "counted (acts_of toy sys toy_settings toy_web kv 0) (acts_elsewhere toy sys toy_settings toy_web kv 0)
      (Suc 0) two_payers ?t" .
  from requests_finish [OF this, of sample_pay] have "\<exists>u. acts_of toy sys toy_settings toy_web kv 0 ?t u"
    by auto
  then show ?thesis by - (rule exI [of _ ?t], simp)
qed

lemma sample_node_takes: "node_takes toy sys [7]"
  by (simp add: node_takes_def send_tx_def try_then_def map_err_io_def from_sum_io_def rpc_outcome_def)

lemma sample_tx_pays: "tx_pays (toy_tx [7]) hash7"
  using toy_tx7 by (simp add: tx_pays_def pays_to_def hash7_def)

theorem one_invoice_two_receipts_witness:
  "\<exists>t. toy_step\<^sup>*\<^sup>* two_payers t \<and> acts t 0 = Answered (Ok sample_receipt) \<and>
     acts t 1 = Answered (Ok sample_receipt) \<and> wallet (shop t) = {}"
  using one_invoice_two_receipts [of 0 1 two_payers sample_pay sample_pay toy_web toy sample_payment "[7]"
      "toy_tx [7]" sample_payment "[7]" "toy_tx [7]" hash7 sys toy_settings kv]
    sample_pay_route sample_pay_screen sample_tx_pays sample_node_takes
  by (simp add: sample_receipt_Ok del: toy_sel)

section \<open>Durability\<close>

text \<open>The clock stands still, an upload that lasts is stored, and the key is read.\<close>

definition upload_and_read :: "nat \<Rightarrow> request" where
  "upload_and_read i = (if i = 0 then sample_paid 5 100 else sample_read)"

abbreviation reading :: "mem site" where
  "reading \<equiv> act (open_site (empty_mem 3) upload_and_read []) 0 (Answered (Ok stored))
     (start_server (holding 5 100 3))"

lemma frozen_uploaded:
  "app toy frozen toy_settings toy_web (sample_paid 5 100) (start_server (empty_mem 3)) =
     (Ok stored, start_server (holding 5 100 3))"
proof -
  have "check_timestamp toy frozen sample_addr p (empty_mem 3) = (Ok (Inr ()), empty_mem 3)" for p
    using kdb_get_absent [of frozen sample_addr "empty_mem 3" "empty_mem 3" toy]
    by (simp add: check_timestamp_def try_then_def frozen_get)
  moreover have "kdb_put toy frozen sample_addr (sample_md 5 100 1) (empty_mem 3) = (Ok (), holding 5 100 3)"
    using sample_put [of 5 100 3] by (simp add: kdb_put_def frozen_def)
  ultimately have "put_key toy frozen (sample_upload 5 100 1) (empty_mem 3) = (Ok stored, holding 5 100 3)"
    by (simp add: put_key_split sample_screen store_put_def try_then_def map_err_io_def stored_def)
  then show ?thesis by (simp add: paid_app paid_put on_world_def start_server_def)
qed

lemma frozen_site_world: "site_world frozen toy_web kv"
  using toy_site_world by (simp add: site_world_def rocks_ok_def net_isolated_def frozen_def)

text \<open>With this clock no step is ever too late.\<close>

lemma frozen_timely:
  "timely toy frozen toy_settings toy_web kv (\<lambda>_. 100) (sample_md 5 100 1) =
     site_step toy frozen toy_settings toy_web kv"
proof -
  have "steady frozen (\<lambda>_. 100)" by (simp add: steady_def frozen_def clock_in_range_def)
  then have "lasting toy frozen (\<lambda>_. 100) (sample_md 5 100 1) d" for d
    by (simp add: lasting_def ranged_def deadline_of_def)
  then show ?thesis by (simp add: timely_def fun_eq_iff)
qed

lemma paid_screen: "screen_put toy (sample_paid 5 100) = Ok (sample_addr, sample_md 5 100 1, sample_payload 5 100)"
  using sample_screen [of 5 100] by (simp add: screen_put_def sample_paid_def sample_upload_def)

lemma read_screen: "screen_put toy sample_read \<noteq> Ok a"
  by (cases a) (simp add: screen_put_Ok sample_read_def toy_md_decode_def)

theorem acknowledged_upload_stays_witness:
  "\<exists>t. (site_step toy frozen toy_settings toy_web kv)\<^sup>*\<^sup>* reading t \<and>
     acts t 1 = Keying (Get sample_addr) Begin \<and>
     kdb_lookup toy kv (world (shop t)) sample_key = Some (sample_md 5 100 1)"
proof -
  let ?step = "site_step toy frozen toy_settings toy_web kv"
  let ?s = "open_site (empty_mem 3) upload_and_read []"
  let ?t = "act reading 1 (Keying (Get sample_addr) Begin) (start_server (holding 5 100 3))"
  have uploaded: "?step\<^sup>*\<^sup>* ?s reading"
    by (rule runs_to_answer [OF refl])
       (use frozen_uploaded in \<open>simp add: open_site_def upload_and_read_def\<close>)
  have step: "?step reading ?t"
    by (rule request_step)
       (use sample_addr_decode in \<open>simp_all add: open_site_def upload_and_read_def sample_read_def
          request_begin_def toy_route key_begin_def\<close>)
  from uploaded step have run: "(timely toy frozen toy_settings toy_web kv (\<lambda>_. 100) (sample_md 5 100 1))\<^sup>*\<^sup>* ?s ?t"
    unfolding frozen_timely by (rule rtranclp.rtrancl_into_rtrancl)
  have screen: "screen_put toy (upload_and_read 0) = Ok (sample_addr, sample_md 5 100 1, sample_payload 5 100)"
    by (simp add: upload_and_read_def paid_screen)
  have "sole_upload toy upload_and_read (body sample_addr) (sample_md 5 100 1)"
    using paid_screen read_screen by (auto simp: sole_upload_def upload_and_read_def split: if_splits)
  from acknowledged_upload_stays [OF run empty_mem_sel(1) frozen_site_world toy_md_roundtrip
      this _ _ _ screen, of "stored"]
  have "kdb_lookup toy kv (world (shop ?t)) (body sample_addr) = Some (sample_md 5 100 1)"
    by (simp add: unannounced_def upload_and_read_def sample_paid_def toy_route)
  with step show ?thesis by - (rule exI [of _ ?t], simp add: r_into_rtranclp)
qed

end
