(* ===== verification/Spec2Isabelle.thy ===== *)
theory Spec2Isabelle
  imports Prelude Errors Models Crypto KeyDb Handlers Scripts Wallet Bitcoin_Client Payments
    Tx_Stream Peer Interleaving Expiring_Map Scheduling Server Routing Configuration Startup
    Ledger Concurrency Concurrent_Safety Concurrent_Durability Concurrent_Progress Replication
    Workers Test_Suite Test_Node Payment_Tests
    Sample_World Sample_Codecs Witnesses Test_World Concurrent_Witnesses
begin

text \<open>
  A verification development of the cash:address keyserver (Rust, under \<open>src/src/\<close>).

  \<^bold>\<open>The program.\<close> A keyserver stores signed metadata under the hash of a public key. A client
  reads it with \<open>GET /keys/{addr}\<close>. To write it with \<open>PUT /keys/{addr}\<close> the client has to pay:
  a PUT without a token is answered with 402 and a BIP70 invoice for a fresh address of the
  server's Bitcoin node; a payment posted to \<open>/payments\<close> that has an output to such an address
  is broadcast by the node and answered with a token, the HMAC of the upload's URL under the
  server's secret; the PUT with this token in its \<open>Authorization\<close> header goes through. The
  second output of an invoice announces server and address in an \<open>OP_RETURN\<close> script. Every
  server watches the transactions of its node for such announcements of others, fetches the
  metadata from the announced server and stores it. Metadata carries a timestamp and a time to
  live, after which it is deleted on a read or by RocksDB's compaction.

  \<^bold>\<open>How the parts interact.\<close> The worker threads and the polling task share three things: the
  database (\<open>KeyDB\<close>, an \<open>Arc<DB>\<close> without lock), the wallet (\<open>WalletState\<close>, a set under an
  \<open>RwLock\<close>) and the node (\<open>BitcoinClient\<close>). \<open>check_payment\<close> adds addresses to the wallet,
  \<open>payment_handler\<close> takes them out, \<open>put_key\<close> and \<open>peer_polling\<close> write the database after the
  same validation and freshness checks, and \<open>get_key\<close> reads it.

  \<^bold>\<open>Theories, and the code they model.\<close>
  \<^item> \<open>Prelude\<close>: words, byte strings, Rust's \<open>Result\<close> with panics as a third outcome, computations
    over a state with early return (the \<open>?\<close> operator), UTF-8 and string slicing of the standard
    library; the contracts \<open>wire_format\<close> and \<open>safe_steps\<close>.
  \<^item> \<open>Errors\<close>: \<open>net/errors.rs\<close>, \<open>crypto/errors.rs\<close>; every enum, conversion and HTTP response.
  \<^item> \<open>Models\<close>: the message records of the generated protobuf modules, \<open>Network\<close>, \<open>Settings\<close>,
    requests, and the loop that receives a body.
  \<^item> \<open>Crypto\<close>: \<open>crypto/*.rs\<close>; the \<open>SigScheme\<close> trait as a record, \<open>validate\<close>, the HMAC token.
  \<^item> \<open>KeyDb\<close>: \<open>db.rs\<close>; \<open>expired\<close>, \<open>ttl_filter\<close>, \<open>put\<close>, \<open>get\<close>, \<open>check_timestamp\<close>, the invariant of
    what is stored (\<open>kdb_inv\<close>) and the contract of a store that the handlers rely on.
  \<^item> \<open>Handlers\<close>: \<open>get_key\<close> and \<open>put_key\<close> of \<open>net/mod.rs\<close>.
  \<^item> \<open>Scripts\<close>: \<open>extract_op_return\<close>, \<open>extract_pubkey_hash\<close>, \<open>generate_outputs\<close> of
    \<open>bitcoin/mod.rs\<close>, byte by byte, with the \<open>u8\<close> arithmetic of the length byte.
  \<^item> \<open>Wallet\<close>: \<open>WalletState\<close> of \<open>bitcoin/mod.rs\<close>, sequentially with the contract of an address
    pool, and its locked sections interleaved (\<open>race_step\<close>).
  \<^item> \<open>Bitcoin_Client\<close>: \<open>bitcoin/client.rs\<close>; \<open>get_new_addr\<close>, \<open>send_tx\<close>.
  \<^item> \<open>Payments\<close>: \<open>net/payments.rs\<close>; \<open>payment_handler\<close> and \<open>CheckPaymentMiddleware::call\<close>.
  \<^item> \<open>Tx_Stream\<close>: \<open>bitcoin/tx_stream.rs\<close>.
  \<^item> \<open>Peer\<close>: \<open>net/peer.rs\<close>; \<open>get_metadata\<close> and \<open>peer_polling\<close>.
  \<^item> \<open>Interleaving\<close>: reads, screened uploads and compaction cut at their RocksDB calls and run as
    threads of the step relation \<open>db_step\<close>. \<open>Expiring_Map\<close>: the abstract specification of the
    database with its handlers. \<open>Scheduling\<close>: progress of the threads.
  \<^item> \<open>Server\<close>: \<open>App::new\<close> of \<open>main.rs\<close> and the server as the transition system \<open>server_step\<close>.
    \<open>Routing\<close>: the table of services and the CORS settings that \<open>main\<close> registers, how a path finds
    its service (a scope answers for its whole prefix), and what a path can touch.
    \<open>Configuration\<close>: \<open>settings.rs\<close>. \<open>Startup\<close>: \<open>main\<close> up to the running server with
    \<open>KeyDB::try_new\<close> and \<open>BitcoinClient::new\<close>, and the database over many lives of the process.
  \<^item> \<open>Workers\<close>: the factory that \<open>main\<close> gives to \<open>HttpServer::new\<close>, and \<open>CheckPayment\<close> with its
    \<open>Transform\<close>, over a heap in which every \<open>Arc\<close> of a wallet is a reference; the HTTP server is
    a parameter. \<open>Ledger\<close>: the invoices and payments of
    a whole run of the server.
  \<^item> \<open>Concurrency\<close>: the whole server under concurrency. A request is an \<open>activity\<close>, the place where
    its handler stands between two actions, and \<open>advance\<close> makes its next one; \<open>polling\<close> and
    \<open>poll_advance\<close> do the same for the task of \<open>net/peer.rs\<close>; \<open>site_step\<close> interleaves any number of
    requests with polling and compaction. \<open>Concurrent_Safety\<close>: what holds of every interleaving.
    \<open>Concurrent_Durability\<close>: when an acknowledged upload cannot be lost. \<open>Concurrent_Progress\<close>:
    bounded numbers of actions, and the race between two payments.
  \<^item> \<open>Replication\<close>: two servers, the second one polling the first.
  \<^item> \<open>Test_Suite\<close>, \<open>Test_Node\<close>, \<open>Payment_Tests\<close>: the tests of \<open>token.rs\<close>, \<open>bitcoin/mod.rs\<close>, \<open>db.rs\<close>,
    \<open>net/mod.rs\<close> and \<open>net/payments.rs\<close>; a test is a computation that panics when an assertion
    fails.
  \<^item> \<open>Sample_World\<close>, \<open>Sample_Codecs\<close>, \<open>Witnesses\<close>, \<open>Concurrent_Witnesses\<close> and
    \<open>Test_World\<close> model nothing: they instantiate
    all parameters and apply every property that has hypotheses to concrete data.
\<close>

text \<open>
  \<^bold>\<open>What the lemmas show.\<close>
  \<^item> Authenticity: only metadata whose key hashes to its address and whose signature verifies is
    ever stored or served, by requests, by pulls from peers that may answer anything, under
    every interleaving of requests, polling and compaction, and across restarts.
  \<^item> Payments: a PUT is let through exactly with the token of its URL; a token is given for a
    payment of the price to an address an invoice was issued for; one invoice pays once when
    payments are checked one after the other, over the whole life of a server; an invoice can
    be paid at any worker and its token then works; the whole exchange runs through.
  \<^item> Concurrency: cut at its actions, a request or the polling task that is left alone is the
    sequential one; under every interleaving an acknowledged payment paid an address that the
    node gave for an upload of the run, which is answered with its invoice if it was not before;
    an upload answered 200 had its token, and its metadata stays until its deadline if nobody stores
    anything else under its address; every request is answered after boundedly many actions.
  \<^item> Replication: what was uploaded to one server and announced by the payment ends up, unchanged,
    at a server that polls it.
  \<^item> The database: the handlers refine a map whose entries end with their deadline, with
    compaction invisible; freshness, time to live and the boundaries of both.
  \<^item> Robustness: in a release build, over crates that behave as documented, no request and no
    answer of a peer makes a worker or the polling task panic, and the polling task gets through
    its stream unless a peer never answers; every error has the stated HTTP status; what a
    path and method can change in the database and the wallet.
  \<^item> The tests of the repository pass over every library, node and database that behaves as
    documented, not only over the ones they are run with.
  \<^item> Formats: the announcement of an invoice is read back by \<open>extract_op_return\<close>, and which
    announcements are not; ports written into URLs parse back; the layers of the settings.
  \<^item> Defects that the code has are theorems as well: two concurrent payments can redeem one
    invoice (\<open>one_invoice_two_receipts\<close>); check and write of an upload are not atomic
    (\<open>older_overwrites_newer\<close>, \<open>fresh_upload_lost\<close>); a first upload that has expired is
    answered 200 (\<open>expired_first_upload\<close>); \<open>timestamp + ttl\<close> overflows (\<open>ttl_overflow\<close>); a
    refused broadcast forfeits the address (\<open>refused_broadcast_forfeits\<close>); pulls do not look at
    the signature scheme (\<open>scheme_checked_on_upload_only\<close>); a payment buys a token for any URL
    the payer names, and invoices never expire (\<open>payment_buys_any_url\<close>); a peer that never
    answers stops the polling task (\<open>polling_until_silence\<close>).

  \<^bold>\<open>Parameters.\<close> Code outside \<open>src/\<close> is an argument of the definitions: the crates for
  elliptic curves, hashes, base64, hex, addresses, protobuf, URLs and transactions are the fields
  of the library records (\<open>crypto_lib\<close>, \<open>model_lib\<close>, \<open>net_lib\<close>, \<open>pay_lib\<close>, and
  \<open>test_lib\<close> for what only the tests call); RocksDB, the clock,
  the node, peers and the timer are functions over a state \<open>'s\<close> of the outside world (\<open>db_sys\<close>,
  \<open>net_sys\<close>, \<open>platform\<close>); the router of actix-web is \<open>web\<close>, made of \<open>routing\<close> and the table of services in \<open>Routing\<close>; \<open>config\<close> and \<open>clap\<close> are \<open>cfg_lib\<close>
  and \<open>cli\<close>. What the code relies on of them is named where they are introduced (\<open>rocks_ok\<close>,
  \<open>md_roundtrip\<close>, \<open>digests_accepted\<close>, \<open>ct_eq_decides\<close>, \<open>rpc_ok\<close>, \<open>net_isolated\<close>, \<open>web_isolated\<close>,
  \<open>headers_ascii\<close>, \<open>headers_roundtrip\<close>, \<open>encoders_total\<close>, \<open>router_ok\<close>, \<open>web_walletless\<close>,
  \<open>routing_ok\<close>, \<open>outsider\<close>, \<open>factory_runs\<close>, \<open>cfg_ok\<close>, \<open>platform_ok\<close>;
  for the tests \<open>fixtures_ok\<close>, \<open>messages_roundtrip\<close>, \<open>urls_plain\<close>, \<open>node_ok\<close>, \<open>regtest_ok\<close>)
  and holds of the instances in \<open>Sample_World\<close> and \<open>Test_World\<close>. RocksDB calls may fail at any time. A
  peer may take a request and never answer it: \<open>peer_send\<close> is then \<open>None\<close>, and the task that
  waits for it makes no further step (the outcome \<open>Panic\<close> of \<open>await\<close>, \<open>Halted\<close> in
  \<open>Concurrency\<close>). The timer fires, and calls of the server's own node return, with a result or an
  error. The laws on the base58 and cash address codec do not say that it tells the network of an
  address (test and regtest share a version byte); the node of the tests gives addresses it
  has not given before, signs the unspent outputs it reported and accepts what it signed. An error
  of a crate is opaque. The difference between debug and release builds is the field
  \<open>overflow_checks\<close>.

  \<^bold>\<open>Bounds.\<close> Integers have the width they have in the code. No definition uses fuel: a body is
  the list of its chunks, a stream the list of the items it has produced so far, and all other
  loops are structural. Time is the clock's seconds since the epoch; a property that needs the
  clock to fit an \<open>i64\<close> says so (\<open>clock_in_range\<close>). Atomic actions in \<open>Concurrency\<close>
  are a single RocksDB call with the clock readings that follow it, a critical section of the
  wallet's lock, a call of the node or of a peer, and a reading of the clock; \<open>Interleaving\<close> and
  \<open>Wallet\<close> look at the first two on their own, and in \<open>Server\<close> whole requests are atomic. A
  request makes at most \<open>5\<close> actions and one for each output it pays with (\<open>effort\<close>), an
  announcement at most six (\<open>poll_effort\<close>).

  \<^bold>\<open>Not modelled.\<close> Logging, static files, how actix-web matches and extracts paths and how actix-cors
  enforces its settings (they only pass requests on, or are parameters), \<open>poll_ready\<close>, which passes on as well; how the HTTP server makes and schedules its workers; \<open>Arc\<close> other
  than the wallet's, whose contents do not change;
  the generated protobuf modules and \<open>build.rs\<close> (the \<open>.proto\<close> files are a submodule that is
  empty here: the message records hold the fields the code uses); \<open>cli.yml\<close> (data for \<open>clap\<close>);
  lock poisoning, since no critical section of the wallet panics; the Python examples and the
  static page. A worker that panics answers its request with nothing and goes on; what actix
  does with the connection is its own.
\<close>

end
